theory Spec2Isabelle
  imports Complex_Main "HOL-Library.Multiset"
begin

section \<open>Data model of the reconciliation service\<close>

text \<open>
  The embedding covers \<open>ReconciliationService\<close> (services/ReconciliationService.js).
  The two SQL queries are outside the model: the rows they return are the inputs
  \<open>corportalPayments\<close> and \<open>ccbPayments\<close>, in the order the queries deliver them.

  Numbers. JavaScript numbers are IEEE 754 binary64 values. A finite one is modelled by
  the rational number it denotes; \<open>double\<close> rounds a rational to the nearest binary64
  value, ties to even, and a decimal literal of the source is the double nearest to it.
  The arithmetic of \<open>calculateMatchScore\<close>, \<open>getMatchReasons\<close>, of the field
  \<open>amountDifference\<close>, of the two rates and of the average rounds after every
  operation, as the code does (\<open>fadd\<close>, \<open>fsub\<close>, \<open>fmul\<close>, \<open>fdiv\<close>). An
  \<open>AMOUNT\<close> is the double that the driver delivers for the column, so \<open>parseFloat\<close>
  is the identity on it. Overflow to an infinity needs magnitudes that a numeric column
  cannot hold and is not modelled; the two divisions that can leave the finite numbers
  (\<open>0/0\<close> and \<open>x/0\<close>) are modelled explicitly. The three running totals of amounts
  (\<open>totalCorportalAmount\<close>, \<open>totalCCBAmount\<close>, \<open>matchedAmount\<close>) are kept as exact
  sums: the rounding of each \<open>+=\<close> on them is not modelled.

  Dates. A date is the number of milliseconds since the epoch. \<open>a.diff(b, 'days')\<close> of
  moment.js is the difference in milliseconds divided by 86400000 and truncated towards
  zero (both instants taken at the same UTC offset).

  Of the columns of a row only those the service reads are kept.
\<close>

record payment =
  CONSUMER_ID :: string
  PAYMENT_MODE :: string
  AMOUNT :: rat
  PAYMENT_DATE :: int

record corportal_payment = payment +
  CORPORTAL_ROWID :: string

record ccb_payment = payment +
  POSTING_DATE :: int
  CCB_ROWID :: string

text \<open>The object returned by \<open>createPaymentIndex\<close>: four dictionaries of row lists.\<close>

record 'p payment_index =
  exact :: "string \<times> rat \<times> string \<rightharpoonup> 'p list"
  byConsumer :: "string \<rightharpoonup> 'p list"
  byAmount :: "int \<rightharpoonup> 'p list"
  byDate :: "int \<rightharpoonup> 'p list"

datatype match_type = EXACT_MATCH | FUZZY_MATCH

datatype match_reason =
  Same_consumer_ID
| Same_payment_mode
| Exact_amount_match
| Amount_difference rat
| High_confidence_match
| Good_match
| Potential_match_requires_review

text \<open>An entry of the array built by \<open>findFuzzyMatches\<close>: \<open>{payment, score, reasons}\<close>.\<close>

record candidate =
  payment :: ccb_payment
  score :: rat
  reasons :: "match_reason list"

text \<open>
  Entries of \<open>results.matches\<close> and \<open>results.partialMatches\<close>. Both carry \<open>type\<close>,
  \<open>corportalPayment\<close>, \<open>ccbPayment\<close> and \<open>matchScore\<close>; an exact match adds
  \<open>dateDifference\<close>, a fuzzy match adds \<open>reasons\<close> and \<open>amountDifference\<close>.
\<close>

record matched =
  mtype :: match_type
  corportalPayment :: corportal_payment
  ccbPayment :: ccb_payment
  matchScore :: rat

record exact_match = matched +
  dateDifference :: int

record fuzzy_match = matched +
  matchReasons :: "match_reason list"
  amountDifference :: rat

text \<open>
  Entries of \<open>results.exceptions\<close>, tagged by their \<open>type\<close>: the row, its age in days
  (\<open>daysSincePayment\<close>, \<open>daysSincePosting\<close>) and \<open>requiresAction\<close>.
\<close>

datatype exception =
  UNMATCHED_CORPORTAL corportal_payment int bool
| UNMATCHED_CCB ccb_payment int bool

record summary =
  totalCorportalPayments :: nat
  totalCCBPayments :: nat
  totalCorportalAmount :: rat
  totalCCBAmount :: rat
  matchedPayments :: nat
  matchedAmount :: rat
  unmatchedCorportal :: nat
  unmatchedCCB :: nat
  partialMatchCount :: nat
  processingDate :: int

record results =
  summary :: summary
  matches :: "exact_match list"
  exceptions :: "exception list"
  partialMatches :: "fuzzy_match list"

text \<open>
  The mutable state of one run: \<open>results\<close> and the two \<open>Set\<close>s of claimed row ids.
\<close>

record run_state =
  res :: results
  matchedCorportalIds :: "string set"
  matchedCCBIds :: "string set"

text \<open>
  The \<open>options\<close> argument; a field left out by the caller is \<open>None\<close> and takes its
  default in the destructuring pattern.
\<close>

record options =
  amountTolerance :: "rat option"
  daysTolerance :: "rat option"
  includePartialMatches :: "bool option"

text \<open>
  A JavaScript number that a division may produce: finite, \<open>NaN\<close> or an infinity.
\<close>

datatype jsnum = Fin rat | NaN | PosInfinity | NegInfinity

record stats = summary +
  reconciliationEfficiency :: jsnum
  amountReconciliationRate :: jsnum
  criticalExceptions :: nat
  avgSettlementDays :: rat

section \<open>Binary64 arithmetic\<close>

text \<open>
  \<open>floorLog2 x\<close> is the exponent \<open>e\<close> with \<open>2^e \<le> x < 2^(e+1)\<close> for a positive
  \<open>x\<close>. \<open>double x\<close> rounds \<open>x\<close> to a multiple of \<open>2^(e-52)\<close> (of \<open>2^-1074\<close> in the
  subnormal range), to the nearest one and to the even one on a tie.
\<close>

fun bitLength :: "nat \<Rightarrow> nat" where
  "bitLength n = (if n = 0 then 0 else Suc (bitLength (n div 2)))"

definition floorLog2 :: "rat \<Rightarrow> int" where
  "floorLog2 x =
     (let (p, q) = quotient_of x;
          d = int (bitLength (nat p)) - int (bitLength (nat q))
      in if 2 powi d \<le> x then d else d - 1)"

definition roundHalfEven :: "rat \<Rightarrow> int" where
  "roundHalfEven m =
     (let f = \<lfloor>m\<rfloor>; r = m - of_int f
      in if r < 1 / 2 then f else if 1 / 2 < r then f + 1 else if even f then f else f + 1)"

definition double :: "rat \<Rightarrow> rat" where
  "double x =
     (if x = 0 then 0
      else let k = max (floorLog2 \<bar>x\<bar> - 52) (- 1074)
           in of_int (roundHalfEven (x / 2 powi k)) * 2 powi k)"

definition fadd :: "rat \<Rightarrow> rat \<Rightarrow> rat" where
  "fadd a b = double (a + b)"

definition fsub :: "rat \<Rightarrow> rat \<Rightarrow> rat" where
  "fsub a b = double (a - b)"

definition fmul :: "rat \<Rightarrow> rat \<Rightarrow> rat" where
  "fmul a b = double (a * b)"

text \<open>The quotient of two doubles, for a divisor other than zero.\<close>

definition fdiv :: "rat \<Rightarrow> rat \<Rightarrow> rat" where
  "fdiv a b = double (a / b)"

section \<open>Helpers of the run-time\<close>

definition momentDiffDays :: "int \<Rightarrow> int \<Rightarrow> int" where
  "momentDiffDays a b =
     (let d = a - b in if d < 0 then - ((- d) div 86400000) else d div 86400000)"

definition mathRound :: "rat \<Rightarrow> int" where
  "mathRound x = \<lfloor>x + 1 / 2\<rfloor>"

definition jsDiv :: "rat \<Rightarrow> rat \<Rightarrow> jsnum" where
  "jsDiv a b =
     (if b \<noteq> 0 then Fin (fdiv a b)
      else if a = 0 then NaN
      else if 0 < a then PosInfinity else NegInfinity)"

definition jsTimes :: "jsnum \<Rightarrow> rat \<Rightarrow> jsnum" where
  "jsTimes x c =
     (case x of
        Fin a \<Rightarrow> Fin (fmul a c)
      | NaN \<Rightarrow> NaN
      | PosInfinity \<Rightarrow> (if c = 0 then NaN else if 0 < c then PosInfinity else NegInfinity)
      | NegInfinity \<Rightarrow> (if c = 0 then NaN else if 0 < c then NegInfinity else PosInfinity))"

text \<open>
  \<open>x.toFixed(1)\<close> for a double \<open>x \<ge> 0\<close>: the decimal with one fractional digit
  nearest to the exact value of \<open>x\<close>, the larger one on a tie. Its argument is the
  double computed by the caller, not the number that double approximates. The string is
  identified with the number it denotes.
\<close>

definition toFixed1 :: "rat \<Rightarrow> rat" where
  "toFixed1 x = of_int \<lfloor>10 * x + 1 / 2\<rfloor> / 10"

section \<open>createPaymentIndex\<close>

text \<open>
  The key of the \<open>exact\<close> dictionary is the string
  \<open>CONSUMER_ID-AMOUNT-PAYMENT_MODE\<close>; it is modelled by the triple it is built from
  (two rows have the same string exactly when their triples agree, as long as consumer
  ids and modes contain no hyphen). The key of \<open>byAmount\<close> is
  \<open>Math.round(parseFloat(AMOUNT))\<close>, and the key of \<open>byDate\<close>, a calendar day, is
  the day number of \<open>PAYMENT_DATE\<close>.
\<close>

definition exactKey :: "'a payment_scheme \<Rightarrow> string \<times> rat \<times> string" where
  "exactKey p = (CONSUMER_ID p, AMOUNT p, PAYMENT_MODE p)"

definition amountKey :: "'a payment_scheme \<Rightarrow> int" where
  "amountKey p = mathRound (AMOUNT p)"

definition dateKey :: "'a payment_scheme \<Rightarrow> int" where
  "dateKey p = PAYMENT_DATE p div 86400000"

definition push :: "('k \<rightharpoonup> 'v list) \<Rightarrow> 'k \<Rightarrow> 'v \<Rightarrow> ('k \<rightharpoonup> 'v list)" where
  "push m k v = m(k \<mapsto> (case m k of None \<Rightarrow> [] | Some l \<Rightarrow> l) @ [v])"

definition indexPayment ::
  "('a payment_scheme) payment_index \<Rightarrow> 'a payment_scheme \<Rightarrow> ('a payment_scheme) payment_index"
where
  "indexPayment index p =
     \<lparr> exact = push (exact index) (exactKey p) p,
       byConsumer = push (byConsumer index) (CONSUMER_ID p) p,
       byAmount = push (byAmount index) (amountKey p) p,
       byDate = push (byDate index) (dateKey p) p \<rparr>"

definition createPaymentIndex ::
  "'a payment_scheme list \<Rightarrow> ('a payment_scheme) payment_index"
where
  "createPaymentIndex payments =
     foldl indexPayment
       \<lparr> exact = Map.empty, byConsumer = Map.empty, byAmount = Map.empty, byDate = Map.empty \<rparr>
       payments"

section \<open>findBestDateMatch\<close>

text \<open>
  The loop state is \<open>(bestMatch, smallestDateDiff)\<close>; \<open>None\<close> stands for \<open>null\<close> in the
  first component and for \<open>Infinity\<close> in the second.
\<close>

definition bestDateStep ::
  "int \<Rightarrow> rat \<Rightarrow> ccb_payment option \<times> int option \<Rightarrow> ccb_payment \<Rightarrow> ccb_payment option \<times> int option"
where
  "bestDateStep corportalDate daysTol acc ccbPayment' =
     (let daysDiff = \<bar>momentDiffDays corportalDate (POSTING_DATE ccbPayment')\<bar> in
      if of_int daysDiff \<le> daysTol \<and>
         (case snd acc of None \<Rightarrow> True | Some smallestDateDiff \<Rightarrow> daysDiff < smallestDateDiff)
      then (Some ccbPayment', Some daysDiff)
      else acc)"

definition findBestDateMatch ::
  "corportal_payment \<Rightarrow> ccb_payment list \<Rightarrow> rat \<Rightarrow> ccb_payment option"
where
  "findBestDateMatch corportalPayment' ccbMatches daysTol =
     fst (foldl (bestDateStep (PAYMENT_DATE corportalPayment') daysTol) (None, None) ccbMatches)"

section \<open>calculateMatchScore, getMatchReasons, findFuzzyMatches\<close>

text \<open>
  The score is built up by double additions, in the order of the source. The result is
  \<open>None\<close> when the score is \<open>NaN\<close>: with \<open>daysTolerance = 0\<close> and both dates on the
  same day the date factor is \<open>0.05 * (1 - 0/0)\<close>.
\<close>

definition calculateMatchScore ::
  "corportal_payment \<Rightarrow> ccb_payment \<Rightarrow> rat \<Rightarrow> rat \<Rightarrow> int \<Rightarrow> int \<Rightarrow> rat \<Rightarrow> rat \<Rightarrow> rat option"
where
  "calculateMatchScore corpPayment ccbPayment' corpAmount ccbAmount corpDate ccbDate amountTol daysTol =
     (let score0 = 0;
          score1 = (if CONSUMER_ID corpPayment = CONSUMER_ID ccbPayment'
                    then fadd score0 (double (4 / 10)) else score0);
          score2 = (if PAYMENT_MODE corpPayment = PAYMENT_MODE ccbPayment'
                    then fadd score1 (double (3 / 10)) else score1);
          amountDiff = \<bar>fsub corpAmount ccbAmount\<bar>;
          score3 = (if amountDiff \<le> amountTol then fadd score2 (double (25 / 100))
                    else if amountDiff \<le> fmul corpAmount (double (1 / 100))
                    then fadd score2 (double (15 / 100))
                    else score2);
          daysDiff = \<bar>momentDiffDays corpDate ccbDate\<bar>
      in if of_int daysDiff \<le> daysTol
         then (if daysTol = 0 then None
               else Some (fadd score3
                      (fmul (double (5 / 100)) (fsub 1 (fdiv (of_int daysDiff) daysTol)))))
         else Some score3)"

definition getMatchReasons :: "corportal_payment \<Rightarrow> ccb_payment \<Rightarrow> rat \<Rightarrow> match_reason list" where
  "getMatchReasons corpPayment ccbPayment' sc =
     (let amountDiff = \<bar>fsub (AMOUNT corpPayment) (AMOUNT ccbPayment')\<bar> in
        (if CONSUMER_ID corpPayment = CONSUMER_ID ccbPayment' then [Same_consumer_ID] else [])
      @ (if PAYMENT_MODE corpPayment = PAYMENT_MODE ccbPayment' then [Same_payment_mode] else [])
      @ (if amountDiff < double (1 / 100) then [Exact_amount_match]
         else if amountDiff < 1 then [Amount_difference amountDiff]
         else [])
      @ (if double (9 / 10) < sc then [High_confidence_match]
         else if double (7 / 10) < sc then [Good_match]
         else [Potential_match_requires_review]))"

definition scoreCandidate ::
  "corportal_payment \<Rightarrow> rat \<Rightarrow> rat \<Rightarrow> candidate list \<Rightarrow> ccb_payment \<Rightarrow> candidate list"
where
  "scoreCandidate corportalPayment' amountTol daysTol ms ccbPayment' =
     (case calculateMatchScore corportalPayment' ccbPayment'
             (AMOUNT corportalPayment') (AMOUNT ccbPayment')
             (PAYMENT_DATE corportalPayment') (POSTING_DATE ccbPayment') amountTol daysTol of
        None \<Rightarrow> ms
      | Some sc \<Rightarrow>
          if 0 < sc
          then ms @ [\<lparr> payment = ccbPayment', score = sc,
                        reasons = getMatchReasons corportalPayment' ccbPayment' sc \<rparr>]
          else ms)"

text \<open>
  \<open>matches.sort((a, b) => b.score - a.score)\<close>: a stable sort, descending by score.
\<close>

definition findFuzzyMatches ::
  "corportal_payment \<Rightarrow> ccb_payment list \<Rightarrow> rat \<Rightarrow> rat \<Rightarrow> candidate list"
where
  "findFuzzyMatches corportalPayment' ccbPayments amountTol daysTol =
     sort_key (\<lambda>m. - score m)
       (foldl (scoreCandidate corportalPayment' amountTol daysTol) [] ccbPayments)"

section \<open>Date differences and the action flag\<close>

definition calculateDateDifference :: "int \<Rightarrow> int \<Rightarrow> int" where
  "calculateDateDifference date1 date2 = momentDiffDays date2 date1"

definition calculateDaysDifference :: "int \<Rightarrow> int \<Rightarrow> int" where
  "calculateDaysDifference date1 date2 = \<bar>momentDiffDays date2 date1\<bar>"

text \<open>\<open>new Date()\<close> is the parameter \<open>now\<close>.\<close>

definition requiresActionCheck :: "'a payment_scheme \<Rightarrow> int \<Rightarrow> bool" where
  "requiresActionCheck p now =
     (let daysSincePayment = calculateDaysDifference (PAYMENT_DATE p) now;
          settlementDays = (if PAYMENT_MODE p = ''BANK_COUNTER'' then 1 else 2)
      in settlementDays < daysSincePayment)"

section \<open>performDetailedReconciliation\<close>

definition exactStep ::
  "ccb_payment payment_index \<Rightarrow> rat \<Rightarrow> run_state \<Rightarrow> corportal_payment \<Rightarrow> run_state"
where
  "exactStep ccbIndex daysTol st corpPayment =
     (case exact ccbIndex (exactKey corpPayment) of
        None \<Rightarrow> st
      | Some ccbMatches \<Rightarrow>
          if 0 < length ccbMatches then
            (case findBestDateMatch corpPayment ccbMatches daysTol of
               None \<Rightarrow> st
             | Some bestMatch \<Rightarrow>
                 \<lparr> res = (res st)
                     \<lparr> summary := (summary (res st))
                          \<lparr> matchedPayments := matchedPayments (summary (res st)) + 1,
                            matchedAmount := matchedAmount (summary (res st)) + AMOUNT corpPayment \<rparr>,
                       matches := matches (res st) @
                          [\<lparr> mtype = EXACT_MATCH,
                             corportalPayment = corpPayment,
                             ccbPayment = bestMatch,
                             matchScore = 1,
                             dateDifference =
                               calculateDateDifference (PAYMENT_DATE corpPayment)
                                 (POSTING_DATE bestMatch) \<rparr>] \<rparr>,
                   matchedCorportalIds = insert (CORPORTAL_ROWID corpPayment) (matchedCorportalIds st),
                   matchedCCBIds = insert (CCB_ROWID bestMatch) (matchedCCBIds st) \<rparr>)
          else st)"

text \<open>
  The body of the fuzzy loop after \<open>fuzzyMatches\<close> has been computed.
\<close>

definition fuzzyAccept :: "run_state \<Rightarrow> corportal_payment \<Rightarrow> candidate list \<Rightarrow> run_state" where
  "fuzzyAccept st corpPayment fuzzyMatches =
     (case fuzzyMatches of
        [] \<Rightarrow> st
      | bestMatch # _ \<Rightarrow>
          if double (8 / 10) \<le> score bestMatch then
            \<lparr> res = (res st)
                \<lparr> summary := (summary (res st))
                     \<lparr> partialMatchCount := partialMatchCount (summary (res st)) + 1 \<rparr>,
                  partialMatches := partialMatches (res st) @
                     [\<lparr> mtype = FUZZY_MATCH,
                        corportalPayment = corpPayment,
                        ccbPayment = payment bestMatch,
                        matchScore = score bestMatch,
                        matchReasons = reasons bestMatch,
                        amountDifference =
                          \<bar>fsub (AMOUNT corpPayment) (AMOUNT (payment bestMatch))\<bar> \<rparr>] \<rparr>,
              matchedCorportalIds = insert (CORPORTAL_ROWID corpPayment) (matchedCorportalIds st),
              matchedCCBIds = insert (CCB_ROWID (payment bestMatch)) (matchedCCBIds st) \<rparr>
          else st)"

definition fuzzyStep ::
  "ccb_payment list \<Rightarrow> rat \<Rightarrow> rat \<Rightarrow> run_state \<Rightarrow> corportal_payment \<Rightarrow> run_state"
where
  "fuzzyStep unmatchedCCBs amountTol daysTol st corpPayment =
     fuzzyAccept st corpPayment (findFuzzyMatches corpPayment unmatchedCCBs amountTol daysTol)"

definition fuzzyPhase ::
  "corportal_payment list \<Rightarrow> ccb_payment list \<Rightarrow> rat \<Rightarrow> rat \<Rightarrow> run_state \<Rightarrow> run_state"
where
  "fuzzyPhase corportalPayments ccbPayments amountTol daysTol st =
     (let unmatchedCorportals =
            filter (\<lambda>p. CORPORTAL_ROWID p \<notin> matchedCorportalIds st) corportalPayments;
          unmatchedCCBs = filter (\<lambda>p. CCB_ROWID p \<notin> matchedCCBIds st) ccbPayments
      in foldl (fuzzyStep unmatchedCCBs amountTol daysTol) st unmatchedCorportals)"

definition initialState :: "corportal_payment list \<Rightarrow> ccb_payment list \<Rightarrow> int \<Rightarrow> run_state" where
  "initialState corportalPayments ccbPayments now =
     \<lparr> res =
         \<lparr> summary =
             \<lparr> totalCorportalPayments = length corportalPayments,
               totalCCBPayments = length ccbPayments,
               totalCorportalAmount = foldl (\<lambda>sum p. sum + AMOUNT p) 0 corportalPayments,
               totalCCBAmount = foldl (\<lambda>sum p. sum + AMOUNT p) 0 ccbPayments,
               matchedPayments = 0,
               matchedAmount = 0,
               unmatchedCorportal = 0,
               unmatchedCCB = 0,
               partialMatchCount = 0,
               processingDate = now \<rparr>,
           matches = [],
           exceptions = [],
           partialMatches = [] \<rparr>,
       matchedCorportalIds = {},
       matchedCCBIds = {} \<rparr>"

definition exactPhase ::
  "corportal_payment list \<Rightarrow> ccb_payment list \<Rightarrow> rat \<Rightarrow> run_state \<Rightarrow> run_state"
where
  "exactPhase corportalPayments ccbPayments daysTol st =
     foldl (exactStep (createPaymentIndex ccbPayments) daysTol) st corportalPayments"

definition isUnmatchedCorportal :: "exception \<Rightarrow> bool" where
  "isUnmatchedCorportal e = (case e of UNMATCHED_CORPORTAL _ _ _ \<Rightarrow> True | UNMATCHED_CCB _ _ _ \<Rightarrow> False)"

definition isUnmatchedCCB :: "exception \<Rightarrow> bool" where
  "isUnmatchedCCB e = (case e of UNMATCHED_CORPORTAL _ _ _ \<Rightarrow> False | UNMATCHED_CCB _ _ _ \<Rightarrow> True)"

definition finalExceptions ::
  "corportal_payment list \<Rightarrow> ccb_payment list \<Rightarrow> int \<Rightarrow> run_state \<Rightarrow> exception list"
where
  "finalExceptions corportalPayments ccbPayments now st =
     map (\<lambda>p. UNMATCHED_CORPORTAL p (calculateDaysDifference (PAYMENT_DATE p) now)
                 (requiresActionCheck p now))
         (filter (\<lambda>p. CORPORTAL_ROWID p \<notin> matchedCorportalIds st) corportalPayments)
     @ map (\<lambda>p. UNMATCHED_CCB p (calculateDaysDifference (POSTING_DATE p) now) True)
         (filter (\<lambda>p. CCB_ROWID p \<notin> matchedCCBIds st) ccbPayments)"

text \<open>
  The two matching phases: the state after the exact loop and, when
  \<open>includePartialMatches\<close> holds, the fuzzy loop.
\<close>

definition matchingState ::
  "corportal_payment list \<Rightarrow> ccb_payment list \<Rightarrow> options \<Rightarrow> int \<Rightarrow> run_state"
where
  "matchingState corportalPayments ccbPayments opts now =
     (let amountTol = (case amountTolerance opts of None \<Rightarrow> double (1 / 100) | Some t \<Rightarrow> t);
          daysTol = (case daysTolerance opts of None \<Rightarrow> 2 | Some t \<Rightarrow> t);
          includePartial = (case includePartialMatches opts of None \<Rightarrow> True | Some b \<Rightarrow> b);
          st0 = initialState corportalPayments ccbPayments now;
          st1 = exactPhase corportalPayments ccbPayments daysTol st0
      in if includePartial
         then fuzzyPhase corportalPayments ccbPayments amountTol daysTol st1
         else st1)"

definition performDetailedReconciliation ::
  "corportal_payment list \<Rightarrow> ccb_payment list \<Rightarrow> options \<Rightarrow> int \<Rightarrow> results"
where
  "performDetailedReconciliation corportalPayments ccbPayments opts now =
     (let st = matchingState corportalPayments ccbPayments opts now;
          excs = finalExceptions corportalPayments ccbPayments now st
      in (res st)
           \<lparr> exceptions := excs,
             summary := (summary (res st))
               \<lparr> unmatchedCorportal := length (filter isUnmatchedCorportal excs),
                 unmatchedCCB := length (filter isUnmatchedCCB excs) \<rparr> \<rparr>)"

section \<open>getReconciliationStats\<close>

definition requiresAction :: "exception \<Rightarrow> bool" where
  "requiresAction e = (case e of UNMATCHED_CORPORTAL _ _ a \<Rightarrow> a | UNMATCHED_CCB _ _ a \<Rightarrow> a)"

definition calculateAverageSettlementDays :: "exact_match list \<Rightarrow> rat" where
  "calculateAverageSettlementDays ms =
     (if length ms = 0 then 0
      else toFixed1 (fdiv (of_int (foldl (\<lambda>sum m. sum + \<bar>dateDifference m\<bar>) 0 ms))
                          (of_nat (length ms))))"

definition noOptions :: options where
  "noOptions = \<lparr> amountTolerance = None, daysTolerance = None, includePartialMatches = None \<rparr>"

definition getReconciliationStats ::
  "corportal_payment list \<Rightarrow> ccb_payment list \<Rightarrow> int \<Rightarrow> stats"
where
  "getReconciliationStats corportalPayments ccbPayments now =
     (let reconciliationResult = performDetailedReconciliation corportalPayments ccbPayments noOptions now;
          s = summary reconciliationResult
      in summary.extend s
           (stats.fields
              (jsTimes (jsDiv (of_nat (matchedPayments s)) (of_nat (totalCorportalPayments s))) 100)
              (jsTimes (jsDiv (matchedAmount s) (totalCorportalAmount s)) 100)
              (length (filter requiresAction (exceptions reconciliationResult)))
              (calculateAverageSettlementDays (matches reconciliationResult))))"

section \<open>The score as the specification states it\<close>

text \<open>
  The formula of the specification, read over the decimal amounts of the two rows and
  evaluated without rounding: the sum of the four factor contributions. It is compared
  with \<open>calculateMatchScore\<close> below. \<open>daysTol\<close> is not zero where it is used.
\<close>

definition claimedScore ::
  "corportal_payment \<Rightarrow> ccb_payment \<Rightarrow> rat \<Rightarrow> rat \<Rightarrow> int \<Rightarrow> rat \<Rightarrow> rat \<Rightarrow> rat"
where
  "claimedScore i p iAmount pAmount daysDiff amountTol daysTol =
     (if CONSUMER_ID i = CONSUMER_ID p then 40 / 100 else 0)
   + (if PAYMENT_MODE i = PAYMENT_MODE p then 30 / 100 else 0)
   + (if \<bar>iAmount - pAmount\<bar> \<le> amountTol then 25 / 100
      else if \<bar>iAmount - pAmount\<bar> \<le> iAmount * (1 / 100) then 15 / 100 else 0)
   + (if of_int \<bar>daysDiff\<bar> \<le> daysTol
      then 5 / 100 * (1 - of_int \<bar>daysDiff\<bar> / daysTol) else 0)"

section \<open>Example rows\<close>

text \<open>
  Day \<open>D\<close> is day 19000 after the epoch. \<open>intakeS\<close> and \<open>postingS\<close> are the rows of
  the scenario with amounts 1000.00 and 1000.01 posted one day later. An amount written
  as a decimal is the double nearest to it.
\<close>

definition intakeS :: corportal_payment where
  "intakeS = \<lparr> CONSUMER_ID = ''C1'', PAYMENT_MODE = ''BBPS'', AMOUNT = 1000,
               PAYMENT_DATE = 19000 * 86400000, CORPORTAL_ROWID = ''AAA1'' \<rparr>"

definition postingS :: ccb_payment where
  "postingS = \<lparr> CONSUMER_ID = ''C1'', PAYMENT_MODE = ''BBPS'', AMOUNT = double (100001 / 100),
                PAYMENT_DATE = 19000 * 86400000, POSTING_DATE = 19001 * 86400000,
                CCB_ROWID = ''BBB1'' \<rparr>"

text \<open>A second intake row, two paise away from \<open>postingS\<close>.\<close>

definition intakeT :: corportal_payment where
  "intakeT = \<lparr> CONSUMER_ID = ''C1'', PAYMENT_MODE = ''BBPS'', AMOUNT = double (100003 / 100),
               PAYMENT_DATE = 19000 * 86400000, CORPORTAL_ROWID = ''AAA2'' \<rparr>"

text \<open>Two intake rows with the same consumer, amount and mode, and one posting row for them.\<close>

definition intakeA :: corportal_payment where
  "intakeA = \<lparr> CONSUMER_ID = ''C7'', PAYMENT_MODE = ''BBPS'', AMOUNT = 500,
               PAYMENT_DATE = 19000 * 86400000, CORPORTAL_ROWID = ''AAA3'' \<rparr>"

definition intakeB :: corportal_payment where
  "intakeB = \<lparr> CONSUMER_ID = ''C7'', PAYMENT_MODE = ''BBPS'', AMOUNT = 500,
               PAYMENT_DATE = 19000 * 86400000, CORPORTAL_ROWID = ''AAA4'' \<rparr>"

definition postingP :: ccb_payment where
  "postingP = \<lparr> CONSUMER_ID = ''C7'', PAYMENT_MODE = ''BBPS'', AMOUNT = 500,
                PAYMENT_DATE = 19000 * 86400000, POSTING_DATE = 19000 * 86400000,
                CCB_ROWID = ''BBB2'' \<rparr>"

text \<open>A posting row whose amount is 5 rupees above that of \<open>intakeS\<close>.\<close>

definition postingQ :: ccb_payment where
  "postingQ = \<lparr> CONSUMER_ID = ''C1'', PAYMENT_MODE = ''BBPS'', AMOUNT = 1005,
                PAYMENT_DATE = 19000 * 86400000, POSTING_DATE = 19000 * 86400000,
                CCB_ROWID = ''BBB3'' \<rparr>"

text \<open>Rows that match nothing, of different payment modes, and the options of a run without the fuzzy phase.\<close>

definition intakeCounter :: corportal_payment where
  "intakeCounter = \<lparr> CONSUMER_ID = ''C3'', PAYMENT_MODE = ''BANK_COUNTER'', AMOUNT = 250,
                     PAYMENT_DATE = 19000 * 86400000, CORPORTAL_ROWID = ''AAA5'' \<rparr>"

definition intakeBBPS :: corportal_payment where
  "intakeBBPS = \<lparr> CONSUMER_ID = ''C4'', PAYMENT_MODE = ''BBPS'', AMOUNT = 300,
                  PAYMENT_DATE = 19000 * 86400000, CORPORTAL_ROWID = ''AAA6'' \<rparr>"

definition postingLone :: ccb_payment where
  "postingLone = \<lparr> CONSUMER_ID = ''C5'', PAYMENT_MODE = ''SMART_BS'', AMOUNT = 80,
                   PAYMENT_DATE = 19000 * 86400000, POSTING_DATE = 19000 * 86400000,
                   CCB_ROWID = ''BBB4'' \<rparr>"

definition exactOnly :: options where
  "exactOnly = \<lparr> amountTolerance = None, daysTolerance = None, includePartialMatches = Some False \<rparr>"

text \<open>
  Amounts 1000.07 and 1000.06, one paisa apart, posted one day later; and amounts 70 and
  70.70, which differ by one percent of the intake amount, posted on the same day.
\<close>

definition intakePaisa :: corportal_payment where
  "intakePaisa = \<lparr> CONSUMER_ID = ''C2'', PAYMENT_MODE = ''BBPS'', AMOUNT = double (100007 / 100),
                   PAYMENT_DATE = 19000 * 86400000, CORPORTAL_ROWID = ''AAA7'' \<rparr>"

definition postingPaisa :: ccb_payment where
  "postingPaisa = \<lparr> CONSUMER_ID = ''C2'', PAYMENT_MODE = ''BBPS'', AMOUNT = double (100006 / 100),
                    PAYMENT_DATE = 19000 * 86400000, POSTING_DATE = 19001 * 86400000,
                    CCB_ROWID = ''BBB5'' \<rparr>"

definition intakeSeventy :: corportal_payment where
  "intakeSeventy = \<lparr> CONSUMER_ID = ''C6'', PAYMENT_MODE = ''BBPS'', AMOUNT = 70,
                     PAYMENT_DATE = 19000 * 86400000, CORPORTAL_ROWID = ''AAA8'' \<rparr>"

definition postingSeventy :: ccb_payment where
  "postingSeventy = \<lparr> CONSUMER_ID = ''C6'', PAYMENT_MODE = ''BBPS'', AMOUNT = double (707 / 10),
                      PAYMENT_DATE = 19000 * 86400000, POSTING_DATE = 19000 * 86400000,
                      CCB_ROWID = ''BBB6'' \<rparr>"

text \<open>Two more pairs with equal keys: one posted a day later, one on the same day.\<close>

definition intakeU :: corportal_payment where
  "intakeU = \<lparr> CONSUMER_ID = ''C8'', PAYMENT_MODE = ''BBPS'', AMOUNT = 600,
               PAYMENT_DATE = 19000 * 86400000, CORPORTAL_ROWID = ''AAA9'' \<rparr>"

definition postingU :: ccb_payment where
  "postingU = \<lparr> CONSUMER_ID = ''C8'', PAYMENT_MODE = ''BBPS'', AMOUNT = 600,
                PAYMENT_DATE = 19000 * 86400000, POSTING_DATE = 19001 * 86400000,
                CCB_ROWID = ''BBB7'' \<rparr>"

definition intakeV :: corportal_payment where
  "intakeV = \<lparr> CONSUMER_ID = ''C9'', PAYMENT_MODE = ''BBPS'', AMOUNT = 700,
               PAYMENT_DATE = 19000 * 86400000, CORPORTAL_ROWID = ''AAA0'' \<rparr>"

definition postingV :: ccb_payment where
  "postingV = \<lparr> CONSUMER_ID = ''C9'', PAYMENT_MODE = ''BBPS'', AMOUNT = 700,
                PAYMENT_DATE = 19000 * 86400000, POSTING_DATE = 19000 * 86400000,
                CCB_ROWID = ''BBB8'' \<rparr>"

text \<open>Exact matches with a date difference of one day and of none, for the average.\<close>

definition matchOneDay :: exact_match where
  "matchOneDay = \<lparr> mtype = EXACT_MATCH, corportalPayment = intakeU, ccbPayment = postingU,
                   matchScore = 1, dateDifference = 1 \<rparr>"

definition matchSameDay :: exact_match where
  "matchSameDay = \<lparr> mtype = EXACT_MATCH, corportalPayment = intakeV, ccbPayment = postingV,
                    matchScore = 1, dateDifference = 0 \<rparr>"

text \<open>A run with a days tolerance of zero.\<close>

definition zeroDays :: options where
  "zeroDays = \<lparr> amountTolerance = None, daysTolerance = Some 0, includePartialMatches = None \<rparr>"

section \<open>Properties\<close>

subsection \<open>Binary64 rounding\<close>

declare bitLength.simps [simp del]

lemma bitLength_0: "bitLength 0 = 0"
  by (simp add: bitLength.simps)

lemma bitLength_pos: "0 < n \<Longrightarrow> bitLength n = Suc (bitLength (n div 2))"
  by (subst bitLength.simps) simp

lemma bitLength_bounds:
  "0 < n \<Longrightarrow> 2 ^ (bitLength n - 1) \<le> n \<and> n < 2 ^ bitLength n"
proof (induction n rule: bitLength.induct)
  case (1 n)
  show ?case
  proof (cases "n div 2 = 0")
    case True
    with "1.prems" have "n = 1" by (simp add: div_eq_0_iff) 
    then show ?thesis by (simp add: bitLength_pos bitLength_0)
  next
    case False
    then have pos: "0 < n div 2" by simp
    from "1.IH" [OF _ pos] "1.prems"
    have ih: "2 ^ (bitLength (n div 2) - 1) \<le> n div 2" "n div 2 < 2 ^ bitLength (n div 2)"
      by simp_all
    have b: "0 < bitLength (n div 2)" using pos by (simp add: bitLength_pos)
    then obtain k where k: "bitLength (n div 2) = Suc k" by (cases "bitLength (n div 2)") simp_all
    from ih k have lo: "2 ^ k \<le> n div 2" and hi: "n div 2 < 2 ^ Suc k" by simp_all
    have bn: "bitLength n = Suc (Suc k)" using "1.prems" k by (simp add: bitLength_pos)
    from lo have "2 ^ Suc k \<le> n" by simp
    moreover from hi have "n < 2 ^ Suc (Suc k)" by simp
    ultimately show ?thesis by (simp add: bn)
  qed
qed

lemma floorLog2_bounds:
  assumes "0 < x"
  shows "2 powi floorLog2 x \<le> x \<and> x < 2 powi (floorLog2 x + 1)"
proof -
  obtain p q where pq: "quotient_of x = (p, q)" by (cases "quotient_of x")
  then have q: "0 < q" and x: "x = of_int p / of_int q"
    by (simp_all add: quotient_of_denom_pos quotient_of_div)
  with assms have p: "0 < p" by (simp add: zero_less_divide_iff)
  define bp bq where "bp = bitLength (nat p)" and "bq = bitLength (nat q)"
  have bnd: "2 ^ (bp - 1) \<le> nat p" "nat p < 2 ^ bp" "2 ^ (bq - 1) \<le> nat q" "nat q < 2 ^ bq"
    using bitLength_bounds [of "nat p"] bitLength_bounds [of "nat q"] p q
    by (simp_all add: bp_def bq_def)
  have bpos: "0 < bp" "0 < bq"
    using p q by (simp_all add: bp_def bq_def bitLength_pos)
  have P: "(2::rat) ^ (bp - 1) \<le> of_int p" "of_int p < (2::rat) ^ bp"
  proof -
    have "of_nat (2 ^ (bp - 1)) \<le> (of_nat (nat p) :: rat)" using bnd(1) by (simp only: of_nat_le_iff)
    then show "(2::rat) ^ (bp - 1) \<le> of_int p" using p by simp
    have "(of_nat (nat p) :: rat) < of_nat (2 ^ bp)" using bnd(2) by (simp only: of_nat_less_iff)
    then show "of_int p < (2::rat) ^ bp" using p by simp
  qed
  have Q: "(2::rat) ^ (bq - 1) \<le> of_int q" "of_int q < (2::rat) ^ bq"
  proof -
    have "of_nat (2 ^ (bq - 1)) \<le> (of_nat (nat q) :: rat)" using bnd(3) by (simp only: of_nat_le_iff)
    then show "(2::rat) ^ (bq - 1) \<le> of_int q" using q by simp
    have "(of_nat (nat q) :: rat) < of_nat (2 ^ bq)" using bnd(4) by (simp only: of_nat_less_iff)
    then show "of_int q < (2::rat) ^ bq" using q by simp
  qed
  define d where "d = int bp - int bq"
  have qpos: "(0::rat) < of_int q" using q by simp
  have up: "x < 2 powi (d + 1)"
  proof -
    have "d + 1 = int bp - int (bq - 1)" using bpos by (simp add: d_def)
    then have "(2::rat) powi (d + 1) = 2 powi int bp / 2 powi int (bq - 1)"
      by (simp only: power_int_diff) (simp add: power_int_diff)
    then have "2 powi (d + 1) = (2::rat) ^ bp / 2 ^ (bq - 1)" by simp
    moreover have "of_int p / of_int q < (2::rat) ^ bp / 2 ^ (bq - 1)"
    proof (rule frac_less)
      show "(0::rat) \<le> of_int p" using p by simp
      show "of_int p < (2::rat) ^ bp" by (rule P(2))
      show "(0::rat) < 2 ^ (bq - 1)" by simp
      show "(2::rat) ^ (bq - 1) \<le> of_int q" by (rule Q(1))
    qed
    ultimately show ?thesis by (simp add: x)
  qed
  have lo: "2 powi (d - 1) < x"
  proof -
    have "d - 1 = int (bp - 1) - int bq" using bpos by (simp add: d_def)
    then have "(2::rat) powi (d - 1) = 2 powi int (bp - 1) / 2 powi int bq"
      by (simp only: power_int_diff) (simp add: power_int_diff)
    then have "2 powi (d - 1) = (2::rat) ^ (bp - 1) / 2 ^ bq" by simp
    moreover have "(2::rat) ^ (bp - 1) / 2 ^ bq < of_int p / of_int q"
    proof (rule frac_less2)
      show "(0::rat) < 2 ^ (bp - 1)" by simp
      show "(2::rat) ^ (bp - 1) \<le> of_int p" by (rule P(1))
      show "(0::rat) < of_int q" by (rule qpos)
      show "of_int q < (2::rat) ^ bq" by (rule Q(2))
    qed
    ultimately show ?thesis by (simp add: x)
  qed
  have fl: "floorLog2 x = (if 2 powi d \<le> x then d else d - 1)"
    by (simp add: floorLog2_def pq d_def bp_def bq_def Let_def)
  show ?thesis
  proof (cases "2 powi d \<le> x")
    case True
    with up fl show ?thesis by simp
  next
    case False
    with lo fl show ?thesis by simp
  qed
qed

lemma floorLog2_eq:
  assumes "0 < x" "2 powi e \<le> x" "x < 2 powi (e + 1)"
  shows "floorLog2 x = e"
proof -
  from floorLog2_bounds [OF assms(1)]
  have f: "2 powi floorLog2 x \<le> x" "x < 2 powi (floorLog2 x + 1)" by simp_all
  have a: "e < floorLog2 x + 1"
  proof (rule ccontr)
    assume "\<not> e < floorLog2 x + 1"
    then have "(2::rat) powi (floorLog2 x + 1) \<le> 2 powi e"
      by (intro power_int_increasing) simp_all
    with assms(2) f(2) show False by simp
  qed
  have b: "floorLog2 x < e + 1"
  proof (rule ccontr)
    assume "\<not> floorLog2 x < e + 1"
    then have "(2::rat) powi (e + 1) \<le> 2 powi floorLog2 x"
      by (intro power_int_increasing) simp_all
    with assms(3) f(1) show False by simp
  qed
  from a b show ?thesis by simp
qed

lemma roundHalfEven_eq:
  assumes "of_int n - 1 / 2 < m" "m < of_int n + 1 / 2"
  shows "roundHalfEven m = n"
proof -
  have "\<lfloor>m\<rfloor> = n \<or> \<lfloor>m\<rfloor> = n - 1" using assms by linarith
  then show ?thesis
  proof
    assume f: "\<lfloor>m\<rfloor> = n"
    then have "m - of_int n < 1 / 2" using assms by simp
    with f show ?thesis by (simp add: roundHalfEven_def)
  next
    assume f: "\<lfloor>m\<rfloor> = n - 1"
    then have "1 / 2 < m - of_int (n - 1)" using assms by simp
    with f show ?thesis by (simp add: roundHalfEven_def Let_def)
  qed
qed

lemma double_eval:
  assumes "- 1022 \<le> e" "2 powi e \<le> \<bar>x\<bar>" "\<bar>x\<bar> < 2 powi (e + 1)"
    and "\<bar>x - of_int n * 2 powi (e - 52)\<bar> < 2 powi (e - 53)"
  shows "double x = of_int n * 2 powi (e - 52)"
proof -
  have pos: "0 < \<bar>x\<bar>"
    using assms(2) by (rule less_le_trans [rotated]) simp
  then have nz: "x \<noteq> 0" by simp
  have fl: "floorLog2 \<bar>x\<bar> = e" using pos assms(2,3) by (rule floorLog2_eq)
  have k: "max (floorLog2 \<bar>x\<bar> - 52) (- 1074) = e - 52" using assms(1) fl by simp
  have half: "(2::rat) powi (e - 53) = 2 powi (e - 52) / 2"
    by (simp add: power_int_diff)
  have P: "(0::rat) < 2 powi (e - 52)" by simp
  have "x / 2 powi (e - 52) - of_int n = (x - of_int n * 2 powi (e - 52)) / 2 powi (e - 52)"
    using P by (simp add: field_simps)
  then have "\<bar>x / 2 powi (e - 52) - of_int n\<bar> = \<bar>x - of_int n * 2 powi (e - 52)\<bar> / 2 powi (e - 52)"
    using P by (simp only: abs_divide abs_of_pos)
  also have "\<dots> < (2 powi (e - 52) / 2) / 2 powi (e - 52)"
    using assms(4) unfolding half by (intro divide_strict_right_mono) simp_all
  also have "\<dots> = 1 / 2" by simp
  finally have near: "\<bar>x / 2 powi (e - 52) - of_int n\<bar> < 1 / 2" .
  have "roundHalfEven (x / 2 powi (e - 52)) = n"
  proof (rule roundHalfEven_eq)
    show "of_int n - 1 / 2 < x / 2 powi (e - 52)" using near by linarith
    show "x / 2 powi (e - 52) < of_int n + 1 / 2" using near by linarith
  qed
  then show ?thesis using nz k by (simp add: double_def)
qed

lemma roundHalfEven_tie:
  "roundHalfEven (of_int f + 1 / 2) = (if even f then f else f + 1)"
proof -
  have "\<lfloor>of_int f + (1 / 2 :: rat)\<rfloor> = f" by linarith
  then show ?thesis by (simp add: roundHalfEven_def)
qed

lemma double_eval_tie:
  assumes "- 1022 \<le> e" "2 powi e \<le> \<bar>x\<bar>" "\<bar>x\<bar> < 2 powi (e + 1)"
    and "x = (of_int f + 1 / 2) * 2 powi (e - 52)"
  shows "double x = of_int (if even f then f else f + 1) * 2 powi (e - 52)"
proof -
  have pos: "0 < \<bar>x\<bar>"
    using assms(2) by (rule less_le_trans [rotated]) simp
  then have nz: "x \<noteq> 0" by simp
  have fl: "floorLog2 \<bar>x\<bar> = e" using pos assms(2,3) by (rule floorLog2_eq)
  have k: "max (floorLog2 \<bar>x\<bar> - 52) (- 1074) = e - 52" using assms(1) fl by simp
  have "x / 2 powi (e - 52) = of_int f + 1 / 2"
    unfolding assms(4) by simp
  then have "roundHalfEven (x / 2 powi (e - 52)) = (if even f then f else f + 1)"
    by (simp only: roundHalfEven_tie)
  then show ?thesis using nz k by (simp add: double_def)
qed

lemma double_0: "double 0 = 0"
  by (simp add: double_def)

text \<open>The rounding error: half a unit in the last place.\<close>

lemma roundHalfEven_near: "\<bar>of_int (roundHalfEven m) - m\<bar> \<le> (1 / 2 :: rat)"
proof -
  define f where "f = \<lfloor>m\<rfloor>"
  have a: "of_int f \<le> m" "m < of_int f + 1" unfolding f_def by linarith+
  consider "m - of_int f < 1 / 2" | "1 / 2 < m - of_int f" | "m - of_int f = 1 / 2"
    by linarith
  then show ?thesis
  proof cases
    case 1
    then have "roundHalfEven m = f" by (simp add: roundHalfEven_def f_def)
    with 1 a show ?thesis by simp
  next
    case 2
    then have "roundHalfEven m = f + 1" by (simp add: roundHalfEven_def f_def)
    with 2 a show ?thesis by simp
  next
    case 3
    then have "roundHalfEven m = f \<or> roundHalfEven m = f + 1"
      by (simp add: roundHalfEven_def f_def Let_def)
    with 3 a show ?thesis by auto
  qed
qed

lemma double_near:
  assumes "x \<noteq> 0"
  shows "\<bar>double x - x\<bar> \<le> 2 powi (max (floorLog2 \<bar>x\<bar> - 52) (- 1074)) / 2"
proof -
  define k where "k = max (floorLog2 \<bar>x\<bar> - 52) (- 1074)"
  have p: "(0::rat) < 2 powi k" by (simp add: zero_less_power_int)
  have d: "double x = of_int (roundHalfEven (x / 2 powi k)) * 2 powi k"
    using assms by (simp add: double_def k_def Let_def)
  have "double x - x = (of_int (roundHalfEven (x / 2 powi k)) - x / 2 powi k) * 2 powi k"
    using p by (simp add: d field_simps)
  then have "\<bar>double x - x\<bar> = \<bar>of_int (roundHalfEven (x / 2 powi k)) - x / 2 powi k\<bar> * 2 powi k"
    using p by (simp add: abs_mult)
  also have "\<dots> \<le> 1 / 2 * 2 powi k"
    using roundHalfEven_near [of "x / 2 powi k"] p by (intro mult_right_mono) simp_all
  finally show ?thesis by (simp add: k_def)
qed

lemma double_error: "\<bar>double x - x\<bar> \<le> \<bar>x\<bar> / 2 ^ 53 + 2 powi (- 1075)"
proof (cases "x = 0")
  case True
  then show ?thesis by (simp add: double_0)
next
  case False
  then have pos: "0 < \<bar>x\<bar>" by simp
  define e where "e = floorLog2 \<bar>x\<bar>"
  from floorLog2_bounds [OF pos] have lo: "2 powi e \<le> \<bar>x\<bar>" by (simp add: e_def)
  note n = double_near [OF False, folded e_def]
  show ?thesis
  proof (cases "- 1074 \<le> e - 52")
    case True
    then have "max (e - 52) (- 1074) = e - 52" by simp
    with n have "\<bar>double x - x\<bar> \<le> 2 powi (e - 52) / 2" by simp
    also have "(2::rat) powi (e - 52) / 2 = 2 powi e / 2 ^ 53"
      by (simp add: power_int_diff)
    also have "\<dots> \<le> \<bar>x\<bar> / 2 ^ 53" using lo by (simp add: divide_right_mono)
    also have "\<dots> \<le> \<bar>x\<bar> / 2 ^ 53 + 2 powi (- 1075)" by (simp add: zero_le_power_int)
    finally show ?thesis .
  next
    case False
    then have "max (e - 52) (- 1074) = - 1074" by simp
    with n have "\<bar>double x - x\<bar> \<le> 2 powi (- 1074) / 2" by simp
    also have "(2::rat) powi (- 1074) / 2 = 2 powi (- 1075)"
      using power_int_diff [of "2::rat" "- 1074" 1] by simp
    also have "\<dots> \<le> \<bar>x\<bar> / 2 ^ 53 + 2 powi (- 1075)" by simp
    finally show ?thesis .
  qed
qed

text \<open>The roundings that the example rows need.\<close>

lemma double_value_1: "double (100003 / 100) = 4398178452499333 / 4398046511104"
  using double_eval [of 9 "100003 / 100" 8796356904998666] by simp

lemma double_value_2: "double (100007 / 100) = 8796708748719555 / 8796093022208"
  using double_eval [of 9 "100007 / 100" 8796708748719555] by simp

lemma double_value_3: "double (100001 / 100) = 4398090491569111 / 4398046511104"
  using double_eval [of 9 "100001 / 100" 8796180983138222] by simp

lemma double_value_4: "double (50003 / 50) = 2199155196947333 / 2199023255552"
  using double_eval [of 9 "50003 / 50" 8796620787789332] by simp

lemma double_value_5: "double (707 / 10) = 4975070213360845 / 70368744177664"
  using double_eval [of 6 "707 / 10" 4975070213360845] by simp

lemma double_value_6: "double (1 / 100) = 5764607523034235 / 576460752303423488"
  using double_eval [of "- 7" "1 / 100" 5764607523034235] by simp

lemma double_value_7: "double (4 / 5) = 3602879701896397 / 4503599627370496"
  using double_eval [of "- 1" "4 / 5" 7205759403792794] by simp

lemma double_value_8: "double (2 / 5) = 3602879701896397 / 9007199254740992"
  using double_eval [of "- 2" "2 / 5" 7205759403792794] by simp

lemma double_value_9: "double (3602879701896397 / 9007199254740992) = 3602879701896397 / 9007199254740992"
  using double_eval [of "- 2" "3602879701896397 / 9007199254740992" 7205759403792794] by simp

lemma double_value_10: "double (3 / 10) = 5404319552844595 / 18014398509481984"
  using double_eval [of "- 2" "3 / 10" 5404319552844595] by simp

lemma double_value_11: "double (12610078956637389 / 18014398509481984) = 3152519739159347 / 4503599627370496"
  by (rule trans [OF double_eval_tie [where e = "- 1" and f = 6305039478318694]]) simp_all

lemma double_value_12: "double (- (43980465111 / 4398046511104)) = - (43980465111 / 4398046511104)"
  using double_eval [of "- 7" "- (43980465111 / 4398046511104)" "- 5764607523028992"] by simp

lemma double_value_13: "double (1 / 4) = 1 / 4"
  using double_eval [of "- 2" "1 / 4" 4503599627370496] by simp

lemma double_value_14: "double (4278419646001971 / 4503599627370496) = 4278419646001971 / 4503599627370496"
  using double_eval [of "- 1" "4278419646001971 / 4503599627370496" 8556839292003942] by simp

lemma double_value_15: "double (1 / 20) = 3602879701896397 / 72057594037927936"
  using double_eval [of "- 5" "1 / 20" 7205759403792794] by simp

lemma double_value_16: "double (1 / 2) = 1 / 2"
  using double_eval [of "- 1" "1 / 2" 4503599627370496] by simp

lemma double_value_17: "double (3602879701896397 / 144115188075855872) = 3602879701896397 / 144115188075855872"
  using double_eval [of "- 6" "3602879701896397 / 144115188075855872" 7205759403792794] by simp

lemma double_value_18: "double (140512308373959469 / 144115188075855872) = 8782019273372467 / 9007199254740992"
  using double_eval [of "- 1" "140512308373959469 / 144115188075855872" 8782019273372467] by simp

lemma double_value_19: "double (9 / 10) = 8106479329266893 / 9007199254740992"
  using double_eval [of "- 1" "9 / 10" 8106479329266893] by simp

lemma double_value_20: "double (43980465111 / 2199023255552) = 43980465111 / 2199023255552"
  using double_eval [of "- 6" "43980465111 / 2199023255552" 5764607523028992] by simp

lemma double_value_21: "double (25353772594924724803603473665255 / 2535301200456458802993406410752) = 2814834209599573 / 281474976710656"
  using double_eval [of 3 "25353772594924724803603473665255 / 2535301200456458802993406410752" 5629668419199146] by simp

lemma double_value_22: "double (3 / 20) = 5404319552844595 / 36028797018963968"
  using double_eval [of "- 3" "3 / 20" 5404319552844595] by simp

lemma double_value_23: "double (30624477466119371 / 36028797018963968) = 7656119366529843 / 9007199254740992"
  using double_eval [of "- 1" "30624477466119371 / 36028797018963968" 7656119366529843] by simp

lemma double_value_24: "double (126100789566373885 / 144115188075855872) = 7 / 8"
  using double_eval [of "- 1" "126100789566373885 / 144115188075855872" 7881299347898368] by simp

lemma double_value_25: "double (7 / 10) = 3152519739159347 / 4503599627370496"
  using double_eval [of "- 1" "7 / 10" 6305039478318694] by simp

lemma double_value_26: "double (- 5) = - 5"
  using double_eval [of 2 "- 5" "- 5629499534213120"] by simp

lemma double_value_27: "double (720575940379279375 / 72057594037927936) = 10"
  using double_eval [of 3 "720575940379279375 / 72057594037927936" 5629499534213120] by simp

lemma double_value_28: "double (1) = 1"
  using double_eval [of 0 1 4503599627370496] by simp

lemma double_value_29: "double (3602879701896397 / 72057594037927936) = 3602879701896397 / 72057594037927936"
  using double_eval [of "- 5" "3602879701896397 / 72057594037927936" 7205759403792794] by simp

lemma double_value_30: "double (64851834634135141 / 72057594037927936) = 8106479329266893 / 9007199254740992"
  using double_eval [of "- 1" "64851834634135141 / 72057594037927936" 8106479329266893] by simp

lemma double_value_31: "double (170) = 170"
  using double_eval [of 7 170 5981343255101440] by simp

lemma double_value_32: "double (720575940379279375 / 288230376151711744) = 5 / 2"
  using double_eval [of 1 "720575940379279375 / 288230376151711744" 5629499534213120] by simp

lemma double_value_33: "double (220) = 220"
  using double_eval [of 7 220 7740561859543040] by simp

lemma double_value_34: "double (432345564227567625 / 144115188075855872) = 3"
  using double_eval [of 1 "432345564227567625 / 144115188075855872" 6755399441055744] by simp

lemma double_value_35: "double (87960930223 / 8796093022208) = 87960930223 / 8796093022208"
  using double_eval [of "- 7" "87960930223 / 8796093022208" 5764607523094528] by simp

lemma double_value_36: "double (50709573430809818694224678965425 / 5070602400912917605986812821504) = 5629893599180515 / 562949953421312"
  using double_eval [of 3 "50709573430809818694224678965425 / 5070602400912917605986812821504" 5629893599180515] by simp

lemma double_value_37: "double (- (49258120924365 / 70368744177664)) = - (49258120924365 / 70368744177664)"
  using double_eval [of "- 1" "- (49258120924365 / 70368744177664)" "- 6305039478318720"] by simp

lemma double_value_38: "double (201761263306198225 / 288230376151711744) = 6305039478318695 / 9007199254740992"
  using double_eval [of "- 1" "201761263306198225 / 288230376151711744" 6305039478318695] by simp

lemma double_value_39: "double (54043195528445949 / 72057594037927936) = 3 / 4"
  using double_eval [of "- 1" "54043195528445949 / 72057594037927936" 6755399441055744] by simp

lemma double_value_40: "double (5404319552844595 / 18014398509481984) = 5404319552844595 / 18014398509481984"
  using double_eval [of "- 2" "5404319552844595 / 18014398509481984" 5404319552844595] by simp

lemma double_value_41: "double (65393673964303155 / 70368744177664) = 4087104622768947 / 4398046511104"
  using double_eval [of 9 "65393673964303155 / 70368744177664" 8174209245537894] by simp

lemma double_value_42: "double (25220157913274777 / 72057594037927936) = 3152519739159347 / 9007199254740992"
  using double_eval [of "- 2" "25220157913274777 / 72057594037927936" 6305039478318694] by simp

lemma double_value_43: "double (- 935) = - 935"
  using double_eval [of 9 "- 935" "- 8224346975764480"] by simp

lemma double_value_44: "double (- (4090227235791831 / 4398046511104)) = - (4090227235791831 / 4398046511104)"
  using double_eval [of 9 "- (4090227235791831 / 4398046511104)" "- 8180454471583662"] by simp

lemma double_value_45: "double (46837436124653157 / 144115188075855872) = 5854679515581645 / 18014398509481984"
  using double_eval [of "- 2" "46837436124653157 / 144115188075855872" 5854679515581645] by simp

lemma double_value_46: "double (72057594037927933 / 72057594037927936) = 1"
  using double_eval [of "- 1" "72057594037927933 / 72057594037927936" 9007199254740992] by simp

lemma double_value_47: "double (- 100) = - 100"
  using double_eval [of 6 "- 100" "- 7036874417766400"] by simp

lemma double_value_48: "double (720575940379279375 / 144115188075855872) = 5"
  using double_eval [of 2 "720575940379279375 / 144115188075855872" 5629499534213120] by simp

lemma double_value_49: "double (- 200) = - 200"
  using double_eval [of 7 "- 200" "- 7036874417766400"] by simp

lemma double_value_50: "double (100) = 100"
  using double_eval [of 6 100 7036874417766400] by simp

lemma double_value_51: "double (432345564227567625 / 72057594037927936) = 6"
  using double_eval [of 2 "432345564227567625 / 72057594037927936" 6755399441055744] by simp

lemma double_value_52: "double (200) = 200"
  using double_eval [of 7 200 7036874417766400] by simp

lemma double_value_53: "double (1008806316530991125 / 144115188075855872) = 7"
  using double_eval [of 2 "1008806316530991125 / 144115188075855872" 7881299347898368] by simp

lemma double_value_54: "double (39 / 40) = 8782019273372467 / 9007199254740992"
  using double_eval [of "- 1" "39 / 40" 8782019273372467] by simp

lemma double_value_55: "double (7 / 8) = 7 / 8"
  using double_eval [of "- 1" "7 / 8" 7881299347898368] by simp

lemma double_value_56: "double (3 / 4) = 3 / 4"
  using double_eval [of "- 1" "3 / 4" 6755399441055744] by simp

lemma double_value_57: "double (17 / 20) = 7656119366529843 / 9007199254740992"
  using double_eval [of "- 1" "17 / 20" 7656119366529843] by simp

lemma double_value_58: "double (7999 / 10000) = 900607335483415 / 1125899906842624"
  using double_eval [of "- 1" "7999 / 10000" 7204858683867320] by simp

lemma double_value_59: "double (7 / 20) = 3152519739159347 / 9007199254740992"
  using double_eval [of "- 2" "7 / 20" 6305039478318694] by simp

lemma double_value_60: "double (13 / 40) = 5854679515581645 / 18014398509481984"
  using double_eval [of "- 2" "13 / 40" 5854679515581645] by simp

lemma double_value_61: "double (1 / 3) = 6004799503160661 / 18014398509481984"
  using double_eval [of "- 2" "1 / 3" 6004799503160661] by simp

lemma double_value_62: "double (150119987579016525 / 4503599627370496) = 2345624805922133 / 70368744177664"
  using double_eval [of 5 "150119987579016525 / 4503599627370496" 4691249611844266] by simp

lemmas double_values =
  double_value_1 double_value_2 double_value_3 double_value_4
  double_value_5 double_value_6 double_value_7 double_value_8
  double_value_9 double_value_10 double_value_11 double_value_12
  double_value_13 double_value_14 double_value_15 double_value_16
  double_value_17 double_value_18 double_value_19 double_value_20
  double_value_21 double_value_22 double_value_23 double_value_24
  double_value_25 double_value_26 double_value_27 double_value_28
  double_value_29 double_value_30 double_value_31 double_value_32
  double_value_33 double_value_34 double_value_35 double_value_36
  double_value_37 double_value_38 double_value_39 double_value_40
  double_value_41 double_value_42 double_value_43 double_value_44
  double_value_45 double_value_46 double_value_47 double_value_48
  double_value_49 double_value_50 double_value_51 double_value_52
  double_value_53 double_value_54 double_value_55 double_value_56
  double_value_57 double_value_58 double_value_59 double_value_60
  double_value_61 double_value_62

subsection \<open>Loops\<close>

lemma foldl_invariant:
  assumes "P s" and "\<And>s x. x \<in> set xs \<Longrightarrow> P s \<Longrightarrow> P (f s x)"
  shows "P (foldl f s xs)"
  using assms by (induction xs arbitrary: s) simp_all

subsection \<open>The exact index\<close>

lemma exact_indexPayment: "exact (indexPayment idx p) = push (exact idx) (exactKey p) p"
  by (simp add: indexPayment_def)

lemma foldl_indexPayment_exact:
  "exact (foldl indexPayment idx ps) k =
     (case exact idx k of
        None \<Rightarrow> (if filter (\<lambda>p. exactKey p = k) ps = [] then None
                 else Some (filter (\<lambda>p. exactKey p = k) ps))
      | Some l \<Rightarrow> Some (l @ filter (\<lambda>p. exactKey p = k) ps))"
proof (induction ps arbitrary: idx)
  case Nil
  then show ?case by (simp split: option.split)
next
  case (Cons p ps)
  have "exact (foldl indexPayment idx (p # ps)) k = exact (foldl indexPayment (indexPayment idx p) ps) k"
    by simp
  also have "\<dots> = (case push (exact idx) (exactKey p) p k of
        None \<Rightarrow> (if filter (\<lambda>p. exactKey p = k) ps = [] then None
                 else Some (filter (\<lambda>p. exactKey p = k) ps))
      | Some l \<Rightarrow> Some (l @ filter (\<lambda>p. exactKey p = k) ps))"
    by (simp only: Cons.IH exact_indexPayment)
  finally show ?case
    by (simp add: push_def split: option.split)
qed

lemma exact_createPaymentIndex:
  "exact (createPaymentIndex ps) k =
     (if filter (\<lambda>p. exactKey p = k) ps = [] then None
      else Some (filter (\<lambda>p. exactKey p = k) ps))"
  by (simp add: createPaymentIndex_def foldl_indexPayment_exact)

subsection \<open>findBestDateMatch\<close>

lemma findBestDateMatch_Nil: "findBestDateMatch c [] d = None"
  by (simp add: findBestDateMatch_def)

lemma bestDateStep_fst:
  "fst (bestDateStep cd d acc b) = fst acc \<or> fst (bestDateStep cd d acc b) = Some b"
  by (simp add: bestDateStep_def Let_def)

lemma foldl_bestDateStep_mem:
  "fst (foldl (bestDateStep cd d) acc ms) = fst acc \<or>
   (\<exists>b \<in> set ms. fst (foldl (bestDateStep cd d) acc ms) = Some b)"
proof (induction ms arbitrary: acc)
  case Nil
  show ?case by simp
next
  case (Cons m ms)
  from Cons.IH [of "bestDateStep cd d acc m"] bestDateStep_fst [of cd d acc m]
  show ?case by auto
qed

lemma findBestDateMatch_mem:
  assumes "findBestDateMatch c ms d = Some b"
  shows "b \<in> set ms"
  using assms foldl_bestDateStep_mem [of "PAYMENT_DATE c" d "(None, None)" ms]
  by (auto simp: findBestDateMatch_def)

subsection \<open>One step of the exact loop\<close>

lemma exactStep_filter:
  "exactStep (createPaymentIndex ccb) daysTol st c =
     (case findBestDateMatch c (filter (\<lambda>p. exactKey p = exactKey c) ccb) daysTol of
        None \<Rightarrow> st
      | Some bestMatch \<Rightarrow>
          \<lparr> res = (res st)
              \<lparr> summary := (summary (res st))
                   \<lparr> matchedPayments := matchedPayments (summary (res st)) + 1,
                     matchedAmount := matchedAmount (summary (res st)) + AMOUNT c \<rparr>,
                matches := matches (res st) @
                   [\<lparr> mtype = EXACT_MATCH, corportalPayment = c, ccbPayment = bestMatch,
                      matchScore = 1,
                      dateDifference =
                        calculateDateDifference (PAYMENT_DATE c) (POSTING_DATE bestMatch) \<rparr>] \<rparr>,
            matchedCorportalIds = insert (CORPORTAL_ROWID c) (matchedCorportalIds st),
            matchedCCBIds = insert (CCB_ROWID bestMatch) (matchedCCBIds st) \<rparr>)"
  by (simp add: exactStep_def exact_createPaymentIndex findBestDateMatch_Nil)

lemma exactStep_cases:
  obtains (skip) "exactStep (createPaymentIndex ccb) daysTol st c = st"
  | (hit) b where "b \<in> set ccb" "exactKey b = exactKey c"
      "exactStep (createPaymentIndex ccb) daysTol st c =
         \<lparr> res = (res st)
              \<lparr> summary := (summary (res st))
                   \<lparr> matchedPayments := matchedPayments (summary (res st)) + 1,
                     matchedAmount := matchedAmount (summary (res st)) + AMOUNT c \<rparr>,
                matches := matches (res st) @
                   [\<lparr> mtype = EXACT_MATCH, corportalPayment = c, ccbPayment = b,
                      matchScore = 1,
                      dateDifference =
                        calculateDateDifference (PAYMENT_DATE c) (POSTING_DATE b) \<rparr>] \<rparr>,
            matchedCorportalIds = insert (CORPORTAL_ROWID c) (matchedCorportalIds st),
            matchedCCBIds = insert (CCB_ROWID b) (matchedCCBIds st) \<rparr>"
proof (cases "findBestDateMatch c (filter (\<lambda>p. exactKey p = exactKey c) ccb) daysTol")
  case None
  then show ?thesis using skip by (simp add: exactStep_filter)
next
  case (Some b)
  from findBestDateMatch_mem [OF Some] have "b \<in> set ccb" "exactKey b = exactKey c"
    by simp_all
  then show ?thesis using hit Some by (simp add: exactStep_filter)
qed

subsection \<open>One step of the fuzzy loop\<close>

lemma fuzzyAccept_cases:
  obtains (skip) "fuzzyMatches = [] \<or> score (hd fuzzyMatches) < double (8 / 10)"
      "fuzzyAccept st c fuzzyMatches = st"
  | (hit) "fuzzyMatches \<noteq> []" "double (8 / 10) \<le> score (hd fuzzyMatches)"
      "fuzzyAccept st c fuzzyMatches =
         \<lparr> res = (res st)
             \<lparr> summary := (summary (res st))
                  \<lparr> partialMatchCount := partialMatchCount (summary (res st)) + 1 \<rparr>,
               partialMatches := partialMatches (res st) @
                  [\<lparr> mtype = FUZZY_MATCH, corportalPayment = c,
                     ccbPayment = payment (hd fuzzyMatches),
                     matchScore = score (hd fuzzyMatches),
                     matchReasons = reasons (hd fuzzyMatches),
                     amountDifference = \<bar>fsub (AMOUNT c) (AMOUNT (payment (hd fuzzyMatches)))\<bar> \<rparr>] \<rparr>,
           matchedCorportalIds = insert (CORPORTAL_ROWID c) (matchedCorportalIds st),
           matchedCCBIds = insert (CCB_ROWID (payment (hd fuzzyMatches))) (matchedCCBIds st) \<rparr>"
proof (cases "fuzzyMatches \<noteq> [] \<and> double (8 / 10) \<le> score (hd fuzzyMatches)")
  case True
  then obtain a l where "fuzzyMatches = a # l" by (cases fuzzyMatches) auto
  with True show ?thesis using hit by (simp add: fuzzyAccept_def)
next
  case False
  then show ?thesis using skip by (cases fuzzyMatches) (auto simp: fuzzyAccept_def not_le)
qed

subsection \<open>The example rows\<close>

lemma intakeS_fields:
  "CONSUMER_ID intakeS = ''C1''" "PAYMENT_MODE intakeS = ''BBPS''" "AMOUNT intakeS = 1000"
  "PAYMENT_DATE intakeS = 1641600000000" "CORPORTAL_ROWID intakeS = ''AAA1''"
  by (simp_all add: intakeS_def)

lemma intakeT_fields:
  "CONSUMER_ID intakeT = ''C1''" "PAYMENT_MODE intakeT = ''BBPS''"
  "AMOUNT intakeT = double (100003 / 100)"
  "PAYMENT_DATE intakeT = 1641600000000" "CORPORTAL_ROWID intakeT = ''AAA2''"
  by (simp_all add: intakeT_def)

lemma postingS_fields:
  "CONSUMER_ID postingS = ''C1''" "PAYMENT_MODE postingS = ''BBPS''"
  "AMOUNT postingS = double (100001 / 100)"
  "POSTING_DATE postingS = 1641686400000" "CCB_ROWID postingS = ''BBB1''"
  by (simp_all add: postingS_def)

lemma intakeA_fields:
  "CONSUMER_ID intakeA = ''C7''" "PAYMENT_MODE intakeA = ''BBPS''" "AMOUNT intakeA = 500"
  "PAYMENT_DATE intakeA = 1641600000000" "CORPORTAL_ROWID intakeA = ''AAA3''"
  by (simp_all add: intakeA_def)

lemma intakeB_fields:
  "CONSUMER_ID intakeB = ''C7''" "PAYMENT_MODE intakeB = ''BBPS''" "AMOUNT intakeB = 500"
  "PAYMENT_DATE intakeB = 1641600000000" "CORPORTAL_ROWID intakeB = ''AAA4''"
  by (simp_all add: intakeB_def)

lemma postingP_fields:
  "CONSUMER_ID postingP = ''C7''" "PAYMENT_MODE postingP = ''BBPS''" "AMOUNT postingP = 500"
  "POSTING_DATE postingP = 1641600000000" "CCB_ROWID postingP = ''BBB2''"
  by (simp_all add: postingP_def)

lemma postingQ_fields:
  "CONSUMER_ID postingQ = ''C1''" "PAYMENT_MODE postingQ = ''BBPS''" "AMOUNT postingQ = 1005"
  "POSTING_DATE postingQ = 1641600000000" "CCB_ROWID postingQ = ''BBB3''"
  by (simp_all add: postingQ_def)

lemma intakeCounter_fields:
  "CONSUMER_ID intakeCounter = ''C3''" "PAYMENT_MODE intakeCounter = ''BANK_COUNTER''"
  "AMOUNT intakeCounter = 250" "PAYMENT_DATE intakeCounter = 1641600000000"
  "CORPORTAL_ROWID intakeCounter = ''AAA5''"
  by (simp_all add: intakeCounter_def)

lemma intakeBBPS_fields:
  "CONSUMER_ID intakeBBPS = ''C4''" "PAYMENT_MODE intakeBBPS = ''BBPS''"
  "AMOUNT intakeBBPS = 300" "PAYMENT_DATE intakeBBPS = 1641600000000"
  "CORPORTAL_ROWID intakeBBPS = ''AAA6''"
  by (simp_all add: intakeBBPS_def)

lemma postingLone_fields:
  "CONSUMER_ID postingLone = ''C5''" "PAYMENT_MODE postingLone = ''SMART_BS''"
  "AMOUNT postingLone = 80" "POSTING_DATE postingLone = 1641600000000"
  "CCB_ROWID postingLone = ''BBB4''"
  by (simp_all add: postingLone_def)

lemma intakePaisa_fields:
  "CONSUMER_ID intakePaisa = ''C2''" "PAYMENT_MODE intakePaisa = ''BBPS''"
  "AMOUNT intakePaisa = double (100007 / 100)"
  "PAYMENT_DATE intakePaisa = 1641600000000" "CORPORTAL_ROWID intakePaisa = ''AAA7''"
  by (simp_all add: intakePaisa_def)

lemma postingPaisa_fields:
  "CONSUMER_ID postingPaisa = ''C2''" "PAYMENT_MODE postingPaisa = ''BBPS''"
  "AMOUNT postingPaisa = double (100006 / 100)"
  "POSTING_DATE postingPaisa = 1641686400000" "CCB_ROWID postingPaisa = ''BBB5''"
  by (simp_all add: postingPaisa_def)

lemma intakeSeventy_fields:
  "CONSUMER_ID intakeSeventy = ''C6''" "PAYMENT_MODE intakeSeventy = ''BBPS''"
  "AMOUNT intakeSeventy = 70"
  "PAYMENT_DATE intakeSeventy = 1641600000000" "CORPORTAL_ROWID intakeSeventy = ''AAA8''"
  by (simp_all add: intakeSeventy_def)

lemma postingSeventy_fields:
  "CONSUMER_ID postingSeventy = ''C6''" "PAYMENT_MODE postingSeventy = ''BBPS''"
  "AMOUNT postingSeventy = double (707 / 10)"
  "POSTING_DATE postingSeventy = 1641600000000" "CCB_ROWID postingSeventy = ''BBB6''"
  by (simp_all add: postingSeventy_def)

lemma intakeU_fields:
  "CONSUMER_ID intakeU = ''C8''" "PAYMENT_MODE intakeU = ''BBPS''" "AMOUNT intakeU = 600"
  "PAYMENT_DATE intakeU = 1641600000000" "CORPORTAL_ROWID intakeU = ''AAA9''"
  by (simp_all add: intakeU_def)

lemma postingU_fields:
  "CONSUMER_ID postingU = ''C8''" "PAYMENT_MODE postingU = ''BBPS''" "AMOUNT postingU = 600"
  "POSTING_DATE postingU = 1641686400000" "CCB_ROWID postingU = ''BBB7''"
  by (simp_all add: postingU_def)

lemma intakeV_fields:
  "CONSUMER_ID intakeV = ''C9''" "PAYMENT_MODE intakeV = ''BBPS''" "AMOUNT intakeV = 700"
  "PAYMENT_DATE intakeV = 1641600000000" "CORPORTAL_ROWID intakeV = ''AAA0''"
  by (simp_all add: intakeV_def)

lemma postingV_fields:
  "CONSUMER_ID postingV = ''C9''" "PAYMENT_MODE postingV = ''BBPS''" "AMOUNT postingV = 700"
  "POSTING_DATE postingV = 1641600000000" "CCB_ROWID postingV = ''BBB8''"
  by (simp_all add: postingV_def)

lemmas example_fields =
  intakeS_fields intakeT_fields postingS_fields intakeA_fields intakeB_fields postingP_fields
  postingQ_fields intakeCounter_fields intakeBBPS_fields postingLone_fields
  intakePaisa_fields postingPaisa_fields intakeSeventy_fields postingSeventy_fields
  intakeU_fields postingU_fields intakeV_fields postingV_fields

lemmas binary64 = fadd_def fsub_def fmul_def fdiv_def double_0 double_values

lemma defaults:
  "matchingState c p noOptions now =
     fuzzyPhase c p (double (1 / 100)) 2 (exactPhase c p 2 (initialState c p now))"
  "matchingState c p exactOnly now = exactPhase c p 2 (initialState c p now)"
  "matchingState c p zeroDays now =
     fuzzyPhase c p (double (1 / 100)) 0 (exactPhase c p 0 (initialState c p now))"
  by (simp_all add: matchingState_def noOptions_def exactOnly_def zeroDays_def)

lemma threshold_values:
  "0 < double (8 / 10)" "double (7999 / 10000) < double (8 / 10)"
  "double (75 / 100) < double (8 / 10)" "double (8 / 10) \<le> double (875 / 1000)"
  "double (8 / 10) \<le> double (9 / 10)" "double (8 / 10) \<le> double (975 / 1000)"
  "double (5 / 100) < double (8 / 10)" "double (35 / 100) < double (8 / 10)"
  "double (325 / 1000) < double (8 / 10)"
  by (simp_all add: double_values)

subsection \<open>Scenario S\<close>

lemma score_S:
  "calculateMatchScore intakeS postingS 1000 (double (100001 / 100)) 1641600000000 1641686400000
     (double (1 / 100)) 2 = Some (double (975 / 1000))"
  by (simp add: calculateMatchScore_def momentDiffDays_def example_fields binary64)

lemma reasons_S:
  "getMatchReasons intakeS postingS (double (975 / 1000)) =
     [Same_consumer_ID, Same_payment_mode, Exact_amount_match, High_confidence_match]"
  by (simp add: getMatchReasons_def example_fields binary64)

lemma fuzzy_S:
  "findFuzzyMatches intakeS [postingS] (double (1 / 100)) 2 =
     [\<lparr> payment = postingS, score = double (975 / 1000),
        reasons = [Same_consumer_ID, Same_payment_mode, Exact_amount_match,
                   High_confidence_match] \<rparr>]"
proof -
  have "0 < double (975 / 1000)" by (simp add: double_values)
  then show ?thesis
    using score_S reasons_S
    by (simp add: findFuzzyMatches_def scoreCandidate_def example_fields)
qed

lemma exact_S:
  "exactPhase [intakeS] [postingS] 2 st = st"
  by (simp add: exactPhase_def exactStep_filter exactKey_def example_fields findBestDateMatch_Nil
      double_values)

lemma difference_S:
  "\<bar>fsub (AMOUNT intakeS) (AMOUNT postingS)\<bar> = 43980465111 / 4398046511104"
  by (simp add: example_fields binary64)

lemma state_S:
  "matchingState [intakeS] [postingS] noOptions now =
     \<lparr> res =
         \<lparr> summary =
             \<lparr> totalCorportalPayments = 1, totalCCBPayments = 1,
               totalCorportalAmount = 1000, totalCCBAmount = double (100001 / 100),
               matchedPayments = 0, matchedAmount = 0,
               unmatchedCorportal = 0, unmatchedCCB = 0,
               partialMatchCount = 1, processingDate = now \<rparr>,
           matches = [],
           exceptions = [],
           partialMatches =
             [\<lparr> mtype = FUZZY_MATCH, corportalPayment = intakeS, ccbPayment = postingS,
                matchScore = double (975 / 1000),
                matchReasons = [Same_consumer_ID, Same_payment_mode, Exact_amount_match,
                                High_confidence_match],
                amountDifference = 43980465111 / 4398046511104 \<rparr>] \<rparr>,
       matchedCorportalIds = {''AAA1''},
       matchedCCBIds = {''BBB1''} \<rparr>"
proof -
  have "double (8 / 10) \<le> double (975 / 1000)" by (rule threshold_values)
  then show ?thesis
    by (simp add: defaults exact_S fuzzyPhase_def initialState_def fuzzyStep_def fuzzy_S
        fuzzyAccept_def difference_S)
      (simp add: example_fields)
qed

lemma run_S:
  "performDetailedReconciliation [intakeS] [postingS] noOptions now =
     \<lparr> summary =
         \<lparr> totalCorportalPayments = 1, totalCCBPayments = 1,
           totalCorportalAmount = 1000, totalCCBAmount = double (100001 / 100),
           matchedPayments = 0, matchedAmount = 0,
           unmatchedCorportal = 0, unmatchedCCB = 0,
           partialMatchCount = 1, processingDate = now \<rparr>,
       matches = [],
       exceptions = [],
       partialMatches =
         [\<lparr> mtype = FUZZY_MATCH, corportalPayment = intakeS, ccbPayment = postingS,
            matchScore = double (975 / 1000),
            matchReasons = [Same_consumer_ID, Same_payment_mode, Exact_amount_match,
                            High_confidence_match],
            amountDifference = 43980465111 / 4398046511104 \<rparr>] \<rparr>"
  by (simp add: performDetailedReconciliation_def state_S finalExceptions_def example_fields)

subsection \<open>Two intake rows near one posting row\<close>

lemma score_T:
  "calculateMatchScore intakeT postingS (double (100003 / 100)) (double (100001 / 100))
     1641600000000 1641686400000 (double (1 / 100)) 2 = Some (double (875 / 1000))"
  by (simp add: calculateMatchScore_def momentDiffDays_def example_fields binary64)

lemma difference_T:
  "\<bar>fsub (AMOUNT intakeT) (AMOUNT postingS)\<bar> = 43980465111 / 2199023255552"
  by (simp add: example_fields binary64)

lemma reasons_T:
  "getMatchReasons intakeT postingS (double (875 / 1000)) =
     [Same_consumer_ID, Same_payment_mode, Amount_difference (43980465111 / 2199023255552),
      Good_match]"
  by (simp add: getMatchReasons_def example_fields binary64)

lemma fuzzy_T:
  "findFuzzyMatches intakeT [postingS] (double (1 / 100)) 2 =
     [\<lparr> payment = postingS, score = double (875 / 1000),
        reasons = [Same_consumer_ID, Same_payment_mode,
                   Amount_difference (43980465111 / 2199023255552), Good_match] \<rparr>]"
proof -
  have "0 < double (875 / 1000)" by (simp add: double_values)
  then show ?thesis
    using score_T reasons_T
    by (simp add: findFuzzyMatches_def scoreCandidate_def example_fields)
qed

lemma exact_ST:
  "exactPhase [intakeS, intakeT] [postingS] 2 st = st"
  by (simp add: exactPhase_def exactStep_filter exactKey_def example_fields findBestDateMatch_Nil
      double_values)

lemma state_ST:
  "matchingState [intakeS, intakeT] [postingS] noOptions now =
     \<lparr> res =
         \<lparr> summary =
             \<lparr> totalCorportalPayments = 2, totalCCBPayments = 1,
               totalCorportalAmount = 1000 + double (100003 / 100),
               totalCCBAmount = double (100001 / 100),
               matchedPayments = 0, matchedAmount = 0,
               unmatchedCorportal = 0, unmatchedCCB = 0,
               partialMatchCount = 2, processingDate = now \<rparr>,
           matches = [],
           exceptions = [],
           partialMatches =
             [\<lparr> mtype = FUZZY_MATCH, corportalPayment = intakeS, ccbPayment = postingS,
                matchScore = double (975 / 1000),
                matchReasons = [Same_consumer_ID, Same_payment_mode, Exact_amount_match,
                                High_confidence_match],
                amountDifference = 43980465111 / 4398046511104 \<rparr>,
              \<lparr> mtype = FUZZY_MATCH, corportalPayment = intakeT, ccbPayment = postingS,
                matchScore = double (875 / 1000),
                matchReasons = [Same_consumer_ID, Same_payment_mode,
                                Amount_difference (43980465111 / 2199023255552), Good_match],
                amountDifference = 43980465111 / 2199023255552 \<rparr>] \<rparr>,
       matchedCorportalIds = {''AAA2'', ''AAA1''},
       matchedCCBIds = {''BBB1''} \<rparr>"
proof -
  have "double (8 / 10) \<le> double (975 / 1000)" "double (8 / 10) \<le> double (875 / 1000)"
    by (rule threshold_values)+
  then show ?thesis
    using fuzzy_T
    by (simp add: defaults exact_ST fuzzyPhase_def initialState_def fuzzyStep_def fuzzy_S
        fuzzyAccept_def difference_S difference_T)
      (simp add: example_fields)
qed

lemma run_ST:
  "performDetailedReconciliation [intakeS, intakeT] [postingS] noOptions now =
     \<lparr> summary =
         \<lparr> totalCorportalPayments = 2, totalCCBPayments = 1,
           totalCorportalAmount = 1000 + double (100003 / 100),
           totalCCBAmount = double (100001 / 100),
           matchedPayments = 0, matchedAmount = 0,
           unmatchedCorportal = 0, unmatchedCCB = 0,
           partialMatchCount = 2, processingDate = now \<rparr>,
       matches = [],
       exceptions = [],
       partialMatches =
         [\<lparr> mtype = FUZZY_MATCH, corportalPayment = intakeS, ccbPayment = postingS,
            matchScore = double (975 / 1000),
            matchReasons = [Same_consumer_ID, Same_payment_mode, Exact_amount_match,
                            High_confidence_match],
            amountDifference = 43980465111 / 4398046511104 \<rparr>,
          \<lparr> mtype = FUZZY_MATCH, corportalPayment = intakeT, ccbPayment = postingS,
            matchScore = double (875 / 1000),
            matchReasons = [Same_consumer_ID, Same_payment_mode,
                            Amount_difference (43980465111 / 2199023255552), Good_match],
            amountDifference = 43980465111 / 2199023255552 \<rparr>] \<rparr>"
  by (simp add: performDetailedReconciliation_def state_ST finalExceptions_def example_fields)

subsection \<open>Two intake rows with the key of one posting row\<close>

lemma keys_AB:
  "exactKey intakeA = (''C7'', 500, ''BBPS'')" "exactKey intakeB = (''C7'', 500, ''BBPS'')"
  "exactKey postingP = (''C7'', 500, ''BBPS'')"
  by (simp_all add: exactKey_def example_fields)

lemma best_AB:
  "findBestDateMatch intakeA [postingP] 2 = Some postingP"
  "findBestDateMatch intakeB [postingP] 2 = Some postingP"
  by (simp_all add: findBestDateMatch_def bestDateStep_def momentDiffDays_def example_fields)

lemma exact_AB:
  "exactPhase [intakeA, intakeB] [postingP] 2 (initialState [intakeA, intakeB] [postingP] now) =
     \<lparr> res =
         \<lparr> summary =
             \<lparr> totalCorportalPayments = 2, totalCCBPayments = 1,
               totalCorportalAmount = 1000, totalCCBAmount = 500,
               matchedPayments = 2, matchedAmount = 1000,
               unmatchedCorportal = 0, unmatchedCCB = 0,
               partialMatchCount = 0, processingDate = now \<rparr>,
           matches =
             [\<lparr> mtype = EXACT_MATCH, corportalPayment = intakeA, ccbPayment = postingP,
                matchScore = 1, dateDifference = 0 \<rparr>,
              \<lparr> mtype = EXACT_MATCH, corportalPayment = intakeB, ccbPayment = postingP,
                matchScore = 1, dateDifference = 0 \<rparr>],
           exceptions = [],
           partialMatches = [] \<rparr>,
       matchedCorportalIds = {''AAA4'', ''AAA3''},
       matchedCCBIds = {''BBB2''} \<rparr>"
  by (simp add: exactPhase_def exactStep_filter keys_AB best_AB initialState_def example_fields
      calculateDateDifference_def momentDiffDays_def)

lemma run_AB:
  "performDetailedReconciliation [intakeA, intakeB] [postingP] noOptions now =
     \<lparr> summary =
         \<lparr> totalCorportalPayments = 2, totalCCBPayments = 1,
           totalCorportalAmount = 1000, totalCCBAmount = 500,
           matchedPayments = 2, matchedAmount = 1000,
           unmatchedCorportal = 0, unmatchedCCB = 0,
           partialMatchCount = 0, processingDate = now \<rparr>,
       matches =
         [\<lparr> mtype = EXACT_MATCH, corportalPayment = intakeA, ccbPayment = postingP,
            matchScore = 1, dateDifference = 0 \<rparr>,
          \<lparr> mtype = EXACT_MATCH, corportalPayment = intakeB, ccbPayment = postingP,
            matchScore = 1, dateDifference = 0 \<rparr>],
       exceptions = [],
       partialMatches = [] \<rparr>"
  by (simp add: performDetailedReconciliation_def defaults exact_AB fuzzyPhase_def
      finalExceptions_def example_fields)

subsection \<open>A posting row five rupees away\<close>

lemma score_Q:
  "calculateMatchScore intakeS postingQ 1000 1005 1641600000000 1641600000000 (double (1 / 100)) 2
     = Some (double (9 / 10))"
  by (simp add: calculateMatchScore_def momentDiffDays_def example_fields binary64)

lemma reasons_Q:
  "getMatchReasons intakeS postingQ (double (9 / 10)) =
     [Same_consumer_ID, Same_payment_mode, Good_match]"
  by (simp add: getMatchReasons_def example_fields binary64)





subsection \<open>No rows at all\<close>

lemma run_empty:
  "performDetailedReconciliation [] [] noOptions now =
     \<lparr> summary =
         \<lparr> totalCorportalPayments = 0, totalCCBPayments = 0,
           totalCorportalAmount = 0, totalCCBAmount = 0,
           matchedPayments = 0, matchedAmount = 0,
           unmatchedCorportal = 0, unmatchedCCB = 0,
           partialMatchCount = 0, processingDate = now \<rparr>,
       matches = [], exceptions = [], partialMatches = [] \<rparr>"
  by (simp add: performDetailedReconciliation_def defaults exactPhase_def fuzzyPhase_def
      initialState_def finalExceptions_def)

subsection \<open>Amounts one paisa apart\<close>

lemma score_Paisa:
  "calculateMatchScore intakePaisa postingPaisa (double (100007 / 100)) (double (100006 / 100))
     1641600000000 1641686400000 (double (1 / 100)) 2 = Some (7 / 8)"
  by (simp add: calculateMatchScore_def momentDiffDays_def example_fields binary64)

lemma difference_Paisa:
  "\<bar>fsub (double (100007 / 100)) (double (100006 / 100))\<bar> = 87960930223 / 8796093022208"
  by (simp add: binary64)

lemma claimed_Paisa:
  "claimedScore intakePaisa postingPaisa (100007 / 100) (100006 / 100) 1 (1 / 100) 2 = 975 / 1000"
  by (simp add: claimedScore_def example_fields)

subsection \<open>Amounts one percent apart\<close>

lemma score_Seventy:
  "calculateMatchScore intakeSeventy postingSeventy 70 (double (707 / 10))
     1641600000000 1641600000000 (double (1 / 100)) 2 = Some (3 / 4)"
  by (simp add: calculateMatchScore_def momentDiffDays_def example_fields binary64)

lemma claimed_Seventy:
  "claimedScore intakeSeventy postingSeventy 70 (707 / 10) 0 (1 / 100) 2 = 9 / 10"
  by (simp add: claimedScore_def example_fields)

lemma reasons_Seventy:
  "getMatchReasons intakeSeventy postingSeventy (3 / 4) =
     [Same_consumer_ID, Same_payment_mode,
      Amount_difference (49258120924365 / 70368744177664), Good_match]"
  by (simp add: getMatchReasons_def example_fields binary64)

lemma fuzzy_Seventy:
  "findFuzzyMatches intakeSeventy [postingSeventy] (double (1 / 100)) 2 =
     [\<lparr> payment = postingSeventy, score = 3 / 4,
        reasons = [Same_consumer_ID, Same_payment_mode,
                   Amount_difference (49258120924365 / 70368744177664), Good_match] \<rparr>]"
  using score_Seventy reasons_Seventy
  by (simp add: findFuzzyMatches_def scoreCandidate_def example_fields)

lemma exact_Seventy:
  "exactPhase [intakeSeventy] [postingSeventy] 2 st = st"
  by (simp add: exactPhase_def exactStep_filter exactKey_def example_fields findBestDateMatch_Nil
      double_values)

lemma state_Seventy:
  "matchingState [intakeSeventy] [postingSeventy] noOptions now =
     initialState [intakeSeventy] [postingSeventy] now"
proof -
  have "\<not> double (8 / 10) \<le> 3 / 4" by (simp add: double_values)
  then show ?thesis
    by (simp add: defaults exact_Seventy fuzzyPhase_def initialState_def fuzzyStep_def
        fuzzy_Seventy fuzzyAccept_def)
qed

lemma run_Seventy:
  "partialMatches (performDetailedReconciliation [intakeSeventy] [postingSeventy] noOptions now) = []"
  "matches (performDetailedReconciliation [intakeSeventy] [postingSeventy] noOptions now) = []"
  "map (\<lambda>e. case e of UNMATCHED_CORPORTAL q age action \<Rightarrow> CORPORTAL_ROWID q
                    | UNMATCHED_CCB q age action \<Rightarrow> CCB_ROWID q)
     (exceptions (performDetailedReconciliation [intakeSeventy] [postingSeventy] noOptions now))
   = [''AAA8'', ''BBB6'']"
  by (simp_all add: performDetailedReconciliation_def state_Seventy initialState_def
      finalExceptions_def example_fields)

subsection \<open>A days tolerance of zero\<close>

lemma score_zeroDays:
  "calculateMatchScore i p iAmount pAmount d d amountTol 0 = None"
  by (simp add: calculateMatchScore_def momentDiffDays_def Let_def)

lemma fuzzy_zeroDays:
  "findFuzzyMatches intakeS [postingQ] (double (1 / 100)) 0 = []"
  by (simp add: findFuzzyMatches_def scoreCandidate_def example_fields score_zeroDays)

lemma exact_Q_zeroDays:
  "exactPhase [intakeS] [postingQ] 0 st = st"
  by (simp add: exactPhase_def exactStep_filter exactKey_def example_fields findBestDateMatch_Nil)

lemma run_zeroDays:
  "partialMatches (performDetailedReconciliation [intakeS] [postingQ] zeroDays now) = []"
  "matches (performDetailedReconciliation [intakeS] [postingQ] zeroDays now) = []"
  by (simp_all add: performDetailedReconciliation_def defaults exact_Q_zeroDays fuzzyPhase_def
      fuzzyStep_def fuzzy_zeroDays fuzzyAccept_def initialState_def Let_def)

subsection \<open>The shape of a run\<close>

lemma matchingState_invariant:
  assumes init: "P (initialState c p now)"
    and exact: "\<And>st q dt. q \<in> set c \<Longrightarrow> P st \<Longrightarrow> P (exactStep (createPaymentIndex p) dt st q)"
    and fuzzy: "\<And>st q pool tol dt. q \<in> set c \<Longrightarrow> set pool \<subseteq> set p \<Longrightarrow> P st
                  \<Longrightarrow> P (fuzzyStep pool tol dt st q)"
  shows "P (matchingState c p opts now)"
proof -
  have e: "P (exactPhase c p dt (initialState c p now))" for dt
    unfolding exactPhase_def
  proof (rule foldl_invariant [where P = P])
    show "P (initialState c p now)" by (rule init)
  next
    fix s x assume "x \<in> set c" "P s"
    then show "P (exactStep (createPaymentIndex p) dt s x)" by (rule exact)
  qed
  have f: "P (fuzzyPhase c p tol dt st)" if st: "P st" for tol dt st
    unfolding fuzzyPhase_def Let_def
  proof (rule foldl_invariant [where P = P])
    show "P st" by (rule st)
  next
    fix s x
    assume "x \<in> set (filter (\<lambda>p. CORPORTAL_ROWID p \<notin> matchedCorportalIds st) c)" "P s"
    then show "P (fuzzyStep (filter (\<lambda>p. CCB_ROWID p \<notin> matchedCCBIds st) p) tol dt s x)"
      by (intro fuzzy) auto
  qed
  show ?thesis
    unfolding matchingState_def Let_def by (simp add: e f)
qed

lemma perform_fields:
  "matches (performDetailedReconciliation c p opts now) = matches (res (matchingState c p opts now))"
  "partialMatches (performDetailedReconciliation c p opts now) =
     partialMatches (res (matchingState c p opts now))"
  "exceptions (performDetailedReconciliation c p opts now) =
     finalExceptions c p now (matchingState c p opts now)"
  "matchedAmount (summary (performDetailedReconciliation c p opts now)) =
     matchedAmount (summary (res (matchingState c p opts now)))"
  "matchedPayments (summary (performDetailedReconciliation c p opts now)) =
     matchedPayments (summary (res (matchingState c p opts now)))"
  "partialMatchCount (summary (performDetailedReconciliation c p opts now)) =
     partialMatchCount (summary (res (matchingState c p opts now)))"
  "totalCorportalPayments (summary (performDetailedReconciliation c p opts now)) =
     totalCorportalPayments (summary (res (matchingState c p opts now)))"
  "totalCCBPayments (summary (performDetailedReconciliation c p opts now)) =
     totalCCBPayments (summary (res (matchingState c p opts now)))"
  "totalCorportalAmount (summary (performDetailedReconciliation c p opts now)) =
     totalCorportalAmount (summary (res (matchingState c p opts now)))"
  "unmatchedCorportal (summary (performDetailedReconciliation c p opts now)) =
     length (filter isUnmatchedCorportal (finalExceptions c p now (matchingState c p opts now)))"
  "unmatchedCCB (summary (performDetailedReconciliation c p opts now)) =
     length (filter isUnmatchedCCB (finalExceptions c p now (matchingState c p opts now)))"
  by (simp_all add: performDetailedReconciliation_def Let_def)

subsection \<open>Candidates of the fuzzy loop\<close>

lemma foldl_scoreCandidate_payments:
  "map payment (foldl (scoreCandidate c tol dt) acc pool) =
     map payment acc @
     filter (\<lambda>q. case calculateMatchScore c q (AMOUNT c) (AMOUNT q) (PAYMENT_DATE c)
                         (POSTING_DATE q) tol dt of None \<Rightarrow> False | Some s \<Rightarrow> 0 < s) pool"
proof (induction pool arbitrary: acc)
  case Nil
  show ?case by simp
next
  case (Cons q pool)
  have "map payment (scoreCandidate c tol dt acc q) =
          map payment acc @
          (if (case calculateMatchScore c q (AMOUNT c) (AMOUNT q) (PAYMENT_DATE c)
                      (POSTING_DATE q) tol dt of None \<Rightarrow> False | Some s \<Rightarrow> 0 < s)
           then [q] else [])"
    by (simp add: scoreCandidate_def split: option.split)
  then show ?case by (simp add: Cons.IH)
qed

lemma foldl_scoreCandidate_scores:
  "(\<forall>m \<in> set acc. calculateMatchScore c (payment m) (AMOUNT c) (AMOUNT (payment m))
        (PAYMENT_DATE c) (POSTING_DATE (payment m)) tol dt = Some (score m)) \<Longrightarrow>
   (\<forall>m \<in> set (foldl (scoreCandidate c tol dt) acc pool).
      calculateMatchScore c (payment m) (AMOUNT c) (AMOUNT (payment m))
        (PAYMENT_DATE c) (POSTING_DATE (payment m)) tol dt = Some (score m))"
proof (induction pool arbitrary: acc)
  case Nil
  then show ?case by simp
next
  case (Cons q pool)
  have "\<forall>m \<in> set (scoreCandidate c tol dt acc q).
      calculateMatchScore c (payment m) (AMOUNT c) (AMOUNT (payment m))
        (PAYMENT_DATE c) (POSTING_DATE (payment m)) tol dt = Some (score m)"
    using Cons.prems by (auto simp: scoreCandidate_def split: option.split)
  from Cons.IH [OF this] show ?case by simp
qed

lemma findFuzzyMatches_payments:
  "mset (map payment (findFuzzyMatches c pool tol dt)) =
     mset (filter (\<lambda>q. case calculateMatchScore c q (AMOUNT c) (AMOUNT q) (PAYMENT_DATE c)
                         (POSTING_DATE q) tol dt of None \<Rightarrow> False | Some s \<Rightarrow> 0 < s) pool)"
proof -
  have "mset (map payment (findFuzzyMatches c pool tol dt)) =
          image_mset payment (mset (foldl (scoreCandidate c tol dt) [] pool))"
    by (simp add: findFuzzyMatches_def)
  also have "\<dots> = mset (map payment (foldl (scoreCandidate c tol dt) [] pool))"
    by simp
  finally show ?thesis by (simp add: foldl_scoreCandidate_payments)
qed

lemma findFuzzyMatches_subset:
  "m \<in> set (findFuzzyMatches c pool tol dt) \<Longrightarrow> payment m \<in> set pool"
proof -
  assume "m \<in> set (findFuzzyMatches c pool tol dt)"
  then have "payment m \<in># mset (map payment (findFuzzyMatches c pool tol dt))"
    by simp
  then show ?thesis
    unfolding findFuzzyMatches_payments by simp
qed

lemma findFuzzyMatches_sorted:
  "sorted_wrt (\<lambda>a b. score b \<le> score a) (findFuzzyMatches c pool tol dt)"
proof -
  have "sorted (map (\<lambda>m. - score m) (findFuzzyMatches c pool tol dt))"
    by (simp add: findFuzzyMatches_def)
  then show ?thesis by (simp add: sorted_map)
qed

lemma findFuzzyMatches_hd_max:
  assumes "m \<in> set (findFuzzyMatches c pool tol dt)"
  shows "score m \<le> score (hd (findFuzzyMatches c pool tol dt))"
proof (cases "findFuzzyMatches c pool tol dt")
  case Nil
  with assms show ?thesis by simp
next
  case (Cons a l)
  with findFuzzyMatches_sorted [of c pool tol dt] assms show ?thesis by auto
qed

subsection \<open>Invariants of the matching loops\<close>

lemma fuzzyStep_cases:
  obtains (skip) "fuzzyStep pool tol dt st q = st"
  | (hit) b where "b \<in> set (findFuzzyMatches q pool tol dt)" "double (8 / 10) \<le> score b"
      "payment b \<in> set pool"
      "fuzzyStep pool tol dt st q =
         \<lparr> res = (res st)
             \<lparr> summary := (summary (res st))
                  \<lparr> partialMatchCount := partialMatchCount (summary (res st)) + 1 \<rparr>,
               partialMatches := partialMatches (res st) @
                  [\<lparr> mtype = FUZZY_MATCH, corportalPayment = q,
                     ccbPayment = payment b,
                     matchScore = score b,
                     matchReasons = reasons b,
                     amountDifference = \<bar>fsub (AMOUNT q) (AMOUNT (payment b))\<bar> \<rparr>] \<rparr>,
           matchedCorportalIds = insert (CORPORTAL_ROWID q) (matchedCorportalIds st),
           matchedCCBIds = insert (CCB_ROWID (payment b)) (matchedCCBIds st) \<rparr>"
proof (rule fuzzyAccept_cases [where fuzzyMatches = "findFuzzyMatches q pool tol dt"
      and st = st and c = q])
  assume "fuzzyAccept st q (findFuzzyMatches q pool tol dt) = st"
  then show ?thesis using skip by (simp add: fuzzyStep_def)
next
  let ?b = "hd (findFuzzyMatches q pool tol dt)"
  assume ne: "findFuzzyMatches q pool tol dt \<noteq> []" and sc: "double (8 / 10) \<le> score ?b"
    and eq: "fuzzyAccept st q (findFuzzyMatches q pool tol dt) =
         \<lparr> res = (res st)
             \<lparr> summary := (summary (res st))
                  \<lparr> partialMatchCount := partialMatchCount (summary (res st)) + 1 \<rparr>,
               partialMatches := partialMatches (res st) @
                  [\<lparr> mtype = FUZZY_MATCH, corportalPayment = q,
                     ccbPayment = payment ?b,
                     matchScore = score ?b,
                     matchReasons = reasons ?b,
                     amountDifference = \<bar>fsub (AMOUNT q) (AMOUNT (payment ?b))\<bar> \<rparr>] \<rparr>,
           matchedCorportalIds = insert (CORPORTAL_ROWID q) (matchedCorportalIds st),
           matchedCCBIds = insert (CCB_ROWID (payment ?b)) (matchedCCBIds st) \<rparr>"
  from ne have mem: "?b \<in> set (findFuzzyMatches q pool tol dt)" by simp
  from mem have "payment ?b \<in> set pool" by (rule findFuzzyMatches_subset)
  with mem sc eq show ?thesis using hit [of ?b] by (simp add: fuzzyStep_def)
qed

lemma matches_are_exact:
  "\<forall>m \<in> set (matches (res (matchingState c p opts now))).
     mtype m = EXACT_MATCH \<and> matchScore m = 1 \<and>
     dateDifference m = momentDiffDays (POSTING_DATE (ccbPayment m)) (PAYMENT_DATE (corportalPayment m)) \<and>
     corportalPayment m \<in> set c \<and> ccbPayment m \<in> set p \<and>
     exactKey (ccbPayment m) = exactKey (corportalPayment m)"
proof (rule matchingState_invariant)
  show "\<forall>m \<in> set (matches (res (initialState c p now))).
     mtype m = EXACT_MATCH \<and> matchScore m = 1 \<and>
     dateDifference m = momentDiffDays (POSTING_DATE (ccbPayment m)) (PAYMENT_DATE (corportalPayment m)) \<and>
     corportalPayment m \<in> set c \<and> ccbPayment m \<in> set p \<and>
     exactKey (ccbPayment m) = exactKey (corportalPayment m)"
    by (simp add: initialState_def)
next
  fix st :: run_state and q dt
  assume qc: "q \<in> set c" and inv: "\<forall>m \<in> set (matches (res st)).
     mtype m = EXACT_MATCH \<and> matchScore m = 1 \<and>
     dateDifference m = momentDiffDays (POSTING_DATE (ccbPayment m)) (PAYMENT_DATE (corportalPayment m)) \<and>
     corportalPayment m \<in> set c \<and> ccbPayment m \<in> set p \<and>
     exactKey (ccbPayment m) = exactKey (corportalPayment m)"
  show "\<forall>m \<in> set (matches (res (exactStep (createPaymentIndex p) dt st q))).
     mtype m = EXACT_MATCH \<and> matchScore m = 1 \<and>
     dateDifference m = momentDiffDays (POSTING_DATE (ccbPayment m)) (PAYMENT_DATE (corportalPayment m)) \<and>
     corportalPayment m \<in> set c \<and> ccbPayment m \<in> set p \<and>
     exactKey (ccbPayment m) = exactKey (corportalPayment m)"
    by (rule exactStep_cases [where ccb = p and daysTol = dt and st = st and c = q]) (insert inv qc, simp_all add: calculateDateDifference_def)
next
  fix st :: run_state and q pool tol dt
  assume inv: "\<forall>m \<in> set (matches (res st)).
     mtype m = EXACT_MATCH \<and> matchScore m = 1 \<and>
     dateDifference m = momentDiffDays (POSTING_DATE (ccbPayment m)) (PAYMENT_DATE (corportalPayment m)) \<and>
     corportalPayment m \<in> set c \<and> ccbPayment m \<in> set p \<and>
     exactKey (ccbPayment m) = exactKey (corportalPayment m)"
  show "\<forall>m \<in> set (matches (res (fuzzyStep pool tol dt st q))).
     mtype m = EXACT_MATCH \<and> matchScore m = 1 \<and>
     dateDifference m = momentDiffDays (POSTING_DATE (ccbPayment m)) (PAYMENT_DATE (corportalPayment m)) \<and>
     corportalPayment m \<in> set c \<and> ccbPayment m \<in> set p \<and>
     exactKey (ccbPayment m) = exactKey (corportalPayment m)"
    by (rule fuzzyStep_cases [where pool = pool and tol = tol and dt = dt and st = st and q = q]) (insert inv, simp_all)
qed

lemma partialMatches_are_fuzzy:
  "\<forall>m \<in> set (partialMatches (res (matchingState c p opts now))).
     mtype m = FUZZY_MATCH \<and> double (8 / 10) \<le> matchScore m \<and>
     corportalPayment m \<in> set c \<and> ccbPayment m \<in> set p"
proof (rule matchingState_invariant)
  show "\<forall>m \<in> set (partialMatches (res (initialState c p now))).
     mtype m = FUZZY_MATCH \<and> double (8 / 10) \<le> matchScore m \<and>
     corportalPayment m \<in> set c \<and> ccbPayment m \<in> set p"
    by (simp add: initialState_def)
next
  fix st :: run_state and q dt
  assume inv: "\<forall>m \<in> set (partialMatches (res st)).
     mtype m = FUZZY_MATCH \<and> double (8 / 10) \<le> matchScore m \<and>
     corportalPayment m \<in> set c \<and> ccbPayment m \<in> set p"
  show "\<forall>m \<in> set (partialMatches (res (exactStep (createPaymentIndex p) dt st q))).
     mtype m = FUZZY_MATCH \<and> double (8 / 10) \<le> matchScore m \<and>
     corportalPayment m \<in> set c \<and> ccbPayment m \<in> set p"
    by (rule exactStep_cases [where ccb = p and daysTol = dt and st = st and c = q]) (insert inv, simp_all)
next
  fix st :: run_state and q pool tol dt
  assume sub: "q \<in> set c" "set pool \<subseteq> set p" and inv: "\<forall>m \<in> set (partialMatches (res st)).
     mtype m = FUZZY_MATCH \<and> double (8 / 10) \<le> matchScore m \<and>
     corportalPayment m \<in> set c \<and> ccbPayment m \<in> set p"
  show "\<forall>m \<in> set (partialMatches (res (fuzzyStep pool tol dt st q))).
     mtype m = FUZZY_MATCH \<and> double (8 / 10) \<le> matchScore m \<and>
     corportalPayment m \<in> set c \<and> ccbPayment m \<in> set p"
    by (rule fuzzyStep_cases [where pool = pool and tol = tol and dt = dt and st = st and q = q]) (insert inv sub, auto)
qed


lemma counters_are_lengths:
  "matchedPayments (summary (res (matchingState c p opts now))) =
     length (matches (res (matchingState c p opts now))) \<and>
   partialMatchCount (summary (res (matchingState c p opts now))) =
     length (partialMatches (res (matchingState c p opts now))) \<and>
   totalCorportalPayments (summary (res (matchingState c p opts now))) = length c \<and>
   totalCCBPayments (summary (res (matchingState c p opts now))) = length p"
proof (rule matchingState_invariant)
  show "matchedPayments (summary (res (initialState c p now))) =
     length (matches (res (initialState c p now))) \<and>
   partialMatchCount (summary (res (initialState c p now))) =
     length (partialMatches (res (initialState c p now))) \<and>
   totalCorportalPayments (summary (res (initialState c p now))) = length c \<and>
   totalCCBPayments (summary (res (initialState c p now))) = length p"
    by (simp add: initialState_def)
next
  fix st :: run_state and q dt
  assume inv: "matchedPayments (summary (res st)) = length (matches (res st)) \<and>
   partialMatchCount (summary (res st)) = length (partialMatches (res st)) \<and>
   totalCorportalPayments (summary (res st)) = length c \<and>
   totalCCBPayments (summary (res st)) = length p"
  show "matchedPayments (summary (res (exactStep (createPaymentIndex p) dt st q))) =
     length (matches (res (exactStep (createPaymentIndex p) dt st q))) \<and>
   partialMatchCount (summary (res (exactStep (createPaymentIndex p) dt st q))) =
     length (partialMatches (res (exactStep (createPaymentIndex p) dt st q))) \<and>
   totalCorportalPayments (summary (res (exactStep (createPaymentIndex p) dt st q))) = length c \<and>
   totalCCBPayments (summary (res (exactStep (createPaymentIndex p) dt st q))) = length p"
    by (rule exactStep_cases [where ccb = p and daysTol = dt and st = st and c = q]) (insert inv, simp_all)
next
  fix st :: run_state and q pool tol dt
  assume inv: "matchedPayments (summary (res st)) = length (matches (res st)) \<and>
   partialMatchCount (summary (res st)) = length (partialMatches (res st)) \<and>
   totalCorportalPayments (summary (res st)) = length c \<and>
   totalCCBPayments (summary (res st)) = length p"
  show "matchedPayments (summary (res (fuzzyStep pool tol dt st q))) =
     length (matches (res (fuzzyStep pool tol dt st q))) \<and>
   partialMatchCount (summary (res (fuzzyStep pool tol dt st q))) =
     length (partialMatches (res (fuzzyStep pool tol dt st q))) \<and>
   totalCorportalPayments (summary (res (fuzzyStep pool tol dt st q))) = length c \<and>
   totalCCBPayments (summary (res (fuzzyStep pool tol dt st q))) = length p"
    by (rule fuzzyStep_cases [where pool = pool and tol = tol and dt = dt and st = st and q = q]) (insert inv, simp_all)
qed

lemma claimed_ids:
  "matchedCorportalIds (matchingState c p opts now) =
     (\<lambda>m. CORPORTAL_ROWID (corportalPayment m)) ` set (matches (res (matchingState c p opts now))) \<union>
     (\<lambda>m. CORPORTAL_ROWID (corportalPayment m)) ` set (partialMatches (res (matchingState c p opts now))) \<and>
   matchedCCBIds (matchingState c p opts now) =
     (\<lambda>m. CCB_ROWID (ccbPayment m)) ` set (matches (res (matchingState c p opts now))) \<union>
     (\<lambda>m. CCB_ROWID (ccbPayment m)) ` set (partialMatches (res (matchingState c p opts now)))"
proof (rule matchingState_invariant)
  show "matchedCorportalIds (initialState c p now) =
     (\<lambda>m. CORPORTAL_ROWID (corportalPayment m)) ` set (matches (res (initialState c p now))) \<union>
     (\<lambda>m. CORPORTAL_ROWID (corportalPayment m)) ` set (partialMatches (res (initialState c p now))) \<and>
   matchedCCBIds (initialState c p now) =
     (\<lambda>m. CCB_ROWID (ccbPayment m)) ` set (matches (res (initialState c p now))) \<union>
     (\<lambda>m. CCB_ROWID (ccbPayment m)) ` set (partialMatches (res (initialState c p now)))"
    by (simp add: initialState_def)
next
  fix st :: run_state and q dt
  assume inv: "matchedCorportalIds st =
     (\<lambda>m. CORPORTAL_ROWID (corportalPayment m)) ` set (matches (res st)) \<union>
     (\<lambda>m. CORPORTAL_ROWID (corportalPayment m)) ` set (partialMatches (res st)) \<and>
   matchedCCBIds st =
     (\<lambda>m. CCB_ROWID (ccbPayment m)) ` set (matches (res st)) \<union>
     (\<lambda>m. CCB_ROWID (ccbPayment m)) ` set (partialMatches (res st))"
  show "matchedCorportalIds (exactStep (createPaymentIndex p) dt st q) =
     (\<lambda>m. CORPORTAL_ROWID (corportalPayment m)) ` set (matches (res (exactStep (createPaymentIndex p) dt st q))) \<union>
     (\<lambda>m. CORPORTAL_ROWID (corportalPayment m)) ` set (partialMatches (res (exactStep (createPaymentIndex p) dt st q))) \<and>
   matchedCCBIds (exactStep (createPaymentIndex p) dt st q) =
     (\<lambda>m. CCB_ROWID (ccbPayment m)) ` set (matches (res (exactStep (createPaymentIndex p) dt st q))) \<union>
     (\<lambda>m. CCB_ROWID (ccbPayment m)) ` set (partialMatches (res (exactStep (createPaymentIndex p) dt st q)))"
    by (rule exactStep_cases [where ccb = p and daysTol = dt and st = st and c = q]) (insert inv, simp_all)
next
  fix st :: run_state and q pool tol dt
  assume inv: "matchedCorportalIds st =
     (\<lambda>m. CORPORTAL_ROWID (corportalPayment m)) ` set (matches (res st)) \<union>
     (\<lambda>m. CORPORTAL_ROWID (corportalPayment m)) ` set (partialMatches (res st)) \<and>
   matchedCCBIds st =
     (\<lambda>m. CCB_ROWID (ccbPayment m)) ` set (matches (res st)) \<union>
     (\<lambda>m. CCB_ROWID (ccbPayment m)) ` set (partialMatches (res st))"
  show "matchedCorportalIds (fuzzyStep pool tol dt st q) =
     (\<lambda>m. CORPORTAL_ROWID (corportalPayment m)) ` set (matches (res (fuzzyStep pool tol dt st q))) \<union>
     (\<lambda>m. CORPORTAL_ROWID (corportalPayment m)) ` set (partialMatches (res (fuzzyStep pool tol dt st q))) \<and>
   matchedCCBIds (fuzzyStep pool tol dt st q) =
     (\<lambda>m. CCB_ROWID (ccbPayment m)) ` set (matches (res (fuzzyStep pool tol dt st q))) \<union>
     (\<lambda>m. CCB_ROWID (ccbPayment m)) ` set (partialMatches (res (fuzzyStep pool tol dt st q)))"
    by (rule fuzzyStep_cases [where pool = pool and tol = tol and dt = dt and st = st and q = q]) (insert inv, simp_all)
qed

subsection \<open>Averages and rounding\<close>

lemma foldl_plus_sum_list:
  "foldl (\<lambda>sum m. sum + g m) a ms = a + (\<Sum>m\<leftarrow>ms. g m)" for a :: int
  by (induction ms arbitrary: a) simp_all

lemma toFixed1_near: "\<bar>toFixed1 x - x\<bar> \<le> 1 / 20"
proof -
  define n where "n = \<lfloor>10 * x + 1 / 2\<rfloor>"
  have a: "of_int n \<le> 10 * x + 1 / 2" unfolding n_def by (rule of_int_floor_le)
  have b: "10 * x + 1 / 2 < of_int n + 1" unfolding n_def by linarith
  have "toFixed1 x = of_int n / 10" by (simp add: toFixed1_def n_def)
  with a b show ?thesis by linarith
qed

lemma toFixed1_0: "toFixed1 0 = 0"
proof -
  have "\<lfloor>(1::rat) / 2\<rfloor> = 0" by linarith
  then show ?thesis by (simp add: toFixed1_def)
qed

lemma toFixed1_1: "toFixed1 1 = 1"
proof -
  have "\<lfloor>(21::rat) / 2\<rfloor> = 10" by linarith
  then show ?thesis by (simp add: toFixed1_def)
qed

lemma toFixed1_tenths: "\<exists>n::int. toFixed1 x = of_int n / 10"
  by (auto simp: toFixed1_def)

subsection \<open>Rows that stay unmatched\<close>

lemma score_low:
  "calculateMatchScore intakeCounter postingLone 250 80 1641600000000 1641600000000
     (double (1 / 100)) 2 = Some (double (5 / 100))"
  "calculateMatchScore intakeBBPS postingLone 300 80 1641600000000 1641600000000
     (double (1 / 100)) 2 = Some (double (5 / 100))"
  by (simp_all add: calculateMatchScore_def momentDiffDays_def example_fields binary64)

lemma reasons_low:
  "getMatchReasons intakeCounter postingLone (double (5 / 100)) = [Potential_match_requires_review]"
  "getMatchReasons intakeBBPS postingLone (double (5 / 100)) = [Potential_match_requires_review]"
  by (simp_all add: getMatchReasons_def example_fields binary64)

lemma fuzzy_low:
  "findFuzzyMatches intakeCounter [postingLone] (double (1 / 100)) 2 =
     [\<lparr> payment = postingLone, score = double (5 / 100),
        reasons = [Potential_match_requires_review] \<rparr>]"
  "findFuzzyMatches intakeBBPS [postingLone] (double (1 / 100)) 2 =
     [\<lparr> payment = postingLone, score = double (5 / 100),
        reasons = [Potential_match_requires_review] \<rparr>]"
proof -
  have pos: "0 < double (5 / 100)" by (simp add: double_values)
  then show "findFuzzyMatches intakeCounter [postingLone] (double (1 / 100)) 2 =
     [\<lparr> payment = postingLone, score = double (5 / 100),
        reasons = [Potential_match_requires_review] \<rparr>]"
    using score_low reasons_low
    by (simp add: findFuzzyMatches_def scoreCandidate_def example_fields)
  from pos show "findFuzzyMatches intakeBBPS [postingLone] (double (1 / 100)) 2 =
     [\<lparr> payment = postingLone, score = double (5 / 100),
        reasons = [Potential_match_requires_review] \<rparr>]"
    using score_low reasons_low
    by (simp add: findFuzzyMatches_def scoreCandidate_def example_fields)
qed

lemma exact_low:
  "exactPhase [intakeCounter, intakeBBPS] [postingLone] 2 st = st"
  by (simp add: exactPhase_def exactStep_filter exactKey_def example_fields findBestDateMatch_Nil)

lemma state_low:
  "matchingState [intakeCounter, intakeBBPS] [postingLone] noOptions now =
     initialState [intakeCounter, intakeBBPS] [postingLone] now"
proof -
  have "\<not> double (8 / 10) \<le> double (5 / 100)" by (simp add: double_values)
  then show ?thesis
    by (simp add: defaults exact_low fuzzyPhase_def initialState_def fuzzyStep_def fuzzy_low
        fuzzyAccept_def)
qed

lemma state_low_exactOnly:
  "matchingState [intakeCounter, intakeBBPS] [postingLone] exactOnly now =
     initialState [intakeCounter, intakeBBPS] [postingLone] now"
  by (simp add: defaults exact_low)

lemma exceptions_low:
  "finalExceptions [intakeCounter, intakeBBPS] [postingLone] 1641772800000
     (initialState [intakeCounter, intakeBBPS] [postingLone] 1641772800000) =
     [UNMATCHED_CORPORTAL intakeCounter 2 True,
      UNMATCHED_CORPORTAL intakeBBPS 2 False,
      UNMATCHED_CCB postingLone 2 True]"
  by (simp add: finalExceptions_def initialState_def requiresActionCheck_def
      calculateDaysDifference_def momentDiffDays_def example_fields)

lemma exactOnly_no_partial:
  assumes "includePartialMatches opts = Some False"
  shows "partialMatches (res (matchingState c p opts now)) = [] \<and>
         partialMatchCount (summary (res (matchingState c p opts now))) = 0"
proof -
  obtain dt where st: "matchingState c p opts now = exactPhase c p dt (initialState c p now)"
    using assms by (simp add: matchingState_def Let_def)
  have "partialMatches (res (exactPhase c p dt (initialState c p now))) = [] \<and>
         partialMatchCount (summary (res (exactPhase c p dt (initialState c p now)))) = 0"
    unfolding exactPhase_def
  proof (rule foldl_invariant [where P = "\<lambda>st. partialMatches (res st) = [] \<and>
         partialMatchCount (summary (res st)) = 0"])
    show "partialMatches (res (initialState c p now)) = [] \<and>
         partialMatchCount (summary (res (initialState c p now))) = 0"
      by (simp add: initialState_def)
  next
    fix s :: run_state and x
    assume inv: "partialMatches (res s) = [] \<and> partialMatchCount (summary (res s)) = 0"
    show "partialMatches (res (exactStep (createPaymentIndex p) dt s x)) = [] \<and>
         partialMatchCount (summary (res (exactStep (createPaymentIndex p) dt s x))) = 0"
      by (rule exactStep_cases [where ccb = p and daysTol = dt and st = s and c = x])
        (insert inv, simp_all)
  qed
  with st show ?thesis by simp
qed




lemma findFuzzyMatches_scores:
  "\<forall>m \<in> set (findFuzzyMatches q pool tol dt).
     calculateMatchScore q (payment m) (AMOUNT q) (AMOUNT (payment m))
        (PAYMENT_DATE q) (POSTING_DATE (payment m)) tol dt = Some (score m)"
  using foldl_scoreCandidate_scores [of "[]" q tol dt pool]
  by (simp add: findFuzzyMatches_def)

subsection \<open>Each intake row is claimed at most once\<close>

lemma foldl_invariant_prefix:
  assumes init: "P [] s"
    and step: "\<And>ys x zs s'. xs = ys @ x # zs \<Longrightarrow> P ys s' \<Longrightarrow> P (ys @ [x]) (f s' x)"
  shows "P xs (foldl f s xs)"
proof -
  have "P ys (foldl f s ys)" if "xs = ys @ zs" for ys zs
    using that
  proof (induction ys arbitrary: zs rule: rev_induct)
    case Nil
    show ?case using init by simp
  next
    case (snoc x ys)
    from snoc.prems have xs: "xs = ys @ x # zs" by simp
    from snoc.IH [OF xs] have "P ys (foldl f s ys)" .
    from step [OF xs this] show ?case by simp
  qed
  from this [of xs "[]"] show ?thesis by simp
qed

lemma exactPhase_intake_ids:
  assumes dc: "distinct (map CORPORTAL_ROWID c)"
  shows "matchedCorportalIds (exactPhase c p dt (initialState c p now)) =
           (\<lambda>m. CORPORTAL_ROWID (corportalPayment m)) `
             set (matches (res (exactPhase c p dt (initialState c p now)))) \<and>
         distinct (map (\<lambda>m. CORPORTAL_ROWID (corportalPayment m))
             (matches (res (exactPhase c p dt (initialState c p now))))) \<and>
         partialMatches (res (exactPhase c p dt (initialState c p now))) = []"
proof -
  let ?P = "\<lambda>ys (st :: run_state).
     matchedCorportalIds st = (\<lambda>m. CORPORTAL_ROWID (corportalPayment m)) ` set (matches (res st)) \<and>
     matchedCorportalIds st \<subseteq> CORPORTAL_ROWID ` set ys \<and>
     distinct (map (\<lambda>m. CORPORTAL_ROWID (corportalPayment m)) (matches (res st))) \<and>
     partialMatches (res st) = []"
  have "?P c (foldl (exactStep (createPaymentIndex p) dt) (initialState c p now) c)"
  proof (rule foldl_invariant_prefix [where P = ?P])
    show "?P [] (initialState c p now)" by (simp add: initialState_def)
  next
    fix ys x zs and s' :: run_state
    assume xs: "c = ys @ x # zs" and inv: "?P ys s'"
    from dc xs have fresh: "CORPORTAL_ROWID x \<notin> CORPORTAL_ROWID ` set ys" by auto
    with inv have new: "CORPORTAL_ROWID x \<notin> matchedCorportalIds s'" by blast
    show "?P (ys @ [x]) (exactStep (createPaymentIndex p) dt s' x)"
    proof (rule exactStep_cases [where ccb = p and daysTol = dt and st = s' and c = x])
      assume "exactStep (createPaymentIndex p) dt s' x = s'"
      with inv show ?thesis by auto
    next
      fix b
      assume "exactStep (createPaymentIndex p) dt s' x =
         \<lparr> res = (res s')
              \<lparr> summary := (summary (res s'))
                   \<lparr> matchedPayments := matchedPayments (summary (res s')) + 1,
                     matchedAmount := matchedAmount (summary (res s')) + AMOUNT x \<rparr>,
                matches := matches (res s') @
                   [\<lparr> mtype = EXACT_MATCH, corportalPayment = x, ccbPayment = b,
                      matchScore = 1,
                      dateDifference =
                        calculateDateDifference (PAYMENT_DATE x) (POSTING_DATE b) \<rparr>] \<rparr>,
            matchedCorportalIds = insert (CORPORTAL_ROWID x) (matchedCorportalIds s'),
            matchedCCBIds = insert (CCB_ROWID b) (matchedCCBIds s') \<rparr>"
      with inv new show ?thesis by auto
    qed
  qed
  then show ?thesis by (simp add: exactPhase_def)
qed

lemma fuzzyPhase_intake_ids:
  assumes dc: "distinct (map CORPORTAL_ROWID c)"
    and st: "matchedCorportalIds st =
           (\<lambda>m. CORPORTAL_ROWID (corportalPayment m)) ` set (matches (res st)) \<union>
           (\<lambda>m. CORPORTAL_ROWID (corportalPayment m)) ` set (partialMatches (res st))"
      "distinct (map (\<lambda>m. CORPORTAL_ROWID (corportalPayment m)) (matches (res st)) @
                 map (\<lambda>m. CORPORTAL_ROWID (corportalPayment m)) (partialMatches (res st)))"
  shows "matchedCorportalIds (fuzzyPhase c p tol dt st) =
           (\<lambda>m. CORPORTAL_ROWID (corportalPayment m)) ` set (matches (res (fuzzyPhase c p tol dt st))) \<union>
           (\<lambda>m. CORPORTAL_ROWID (corportalPayment m)) `
             set (partialMatches (res (fuzzyPhase c p tol dt st))) \<and>
         distinct (map (\<lambda>m. CORPORTAL_ROWID (corportalPayment m)) (matches (res (fuzzyPhase c p tol dt st))) @
                   map (\<lambda>m. CORPORTAL_ROWID (corportalPayment m))
                     (partialMatches (res (fuzzyPhase c p tol dt st))))"
proof -
  let ?todo = "filter (\<lambda>q. CORPORTAL_ROWID q \<notin> matchedCorportalIds st) c"
  let ?pool = "filter (\<lambda>r. CCB_ROWID r \<notin> matchedCCBIds st) p"
  let ?P = "\<lambda>ys (s :: run_state).
     matchedCorportalIds s =
       (\<lambda>m. CORPORTAL_ROWID (corportalPayment m)) ` set (matches (res s)) \<union>
       (\<lambda>m. CORPORTAL_ROWID (corportalPayment m)) ` set (partialMatches (res s)) \<and>
     matchedCorportalIds s \<subseteq> matchedCorportalIds st \<union> CORPORTAL_ROWID ` set ys \<and>
     distinct (map (\<lambda>m. CORPORTAL_ROWID (corportalPayment m)) (matches (res s)) @
               map (\<lambda>m. CORPORTAL_ROWID (corportalPayment m)) (partialMatches (res s)))"
  from dc have dt: "distinct (map CORPORTAL_ROWID ?todo)" by (rule distinct_map_filter)
  have "?P ?todo (foldl (fuzzyStep ?pool tol dt) st ?todo)"
  proof (rule foldl_invariant_prefix [where P = ?P])
    show "?P [] st" using st by simp
  next
    fix ys x zs and s' :: run_state
    assume xs: "?todo = ys @ x # zs" and inv: "?P ys s'"
    from dt xs have fresh: "CORPORTAL_ROWID x \<notin> CORPORTAL_ROWID ` set ys" by auto
    have "x \<in> set ?todo" unfolding xs by simp
    then have "CORPORTAL_ROWID x \<notin> matchedCorportalIds st" by simp
    with inv fresh have new: "CORPORTAL_ROWID x \<notin> matchedCorportalIds s'" by blast
    show "?P (ys @ [x]) (fuzzyStep ?pool tol dt s' x)"
    proof (rule fuzzyStep_cases [where pool = ?pool and tol = tol and dt = dt and st = s' and q = x])
      assume "fuzzyStep ?pool tol dt s' x = s'"
      with inv show ?thesis by auto
    next
      fix b
      assume "fuzzyStep ?pool tol dt s' x =
         \<lparr> res = (res s')
             \<lparr> summary := (summary (res s'))
                  \<lparr> partialMatchCount := partialMatchCount (summary (res s')) + 1 \<rparr>,
               partialMatches := partialMatches (res s') @
                  [\<lparr> mtype = FUZZY_MATCH, corportalPayment = x,
                     ccbPayment = payment b,
                     matchScore = score b,
                     matchReasons = reasons b,
                     amountDifference = \<bar>fsub (AMOUNT x) (AMOUNT (payment b))\<bar> \<rparr>] \<rparr>,
           matchedCorportalIds = insert (CORPORTAL_ROWID x) (matchedCorportalIds s'),
           matchedCCBIds = insert (CCB_ROWID (payment b)) (matchedCCBIds s') \<rparr>"
      with inv new show ?thesis by auto
    qed
  qed
  then show ?thesis by (simp add: fuzzyPhase_def)
qed

lemma matchingState_intake_ids:
  assumes dc: "distinct (map CORPORTAL_ROWID c)"
  shows "matchedCorportalIds (matchingState c p opts now) =
           (\<lambda>m. CORPORTAL_ROWID (corportalPayment m)) ` set (matches (res (matchingState c p opts now))) \<union>
           (\<lambda>m. CORPORTAL_ROWID (corportalPayment m)) `
             set (partialMatches (res (matchingState c p opts now))) \<and>
         distinct (map (\<lambda>m. CORPORTAL_ROWID (corportalPayment m)) (matches (res (matchingState c p opts now))) @
                   map (\<lambda>m. CORPORTAL_ROWID (corportalPayment m))
                     (partialMatches (res (matchingState c p opts now))))"
proof -
  have e: "matchedCorportalIds (exactPhase c p dt (initialState c p now)) =
           (\<lambda>m. CORPORTAL_ROWID (corportalPayment m)) `
             set (matches (res (exactPhase c p dt (initialState c p now)))) \<union>
           (\<lambda>m. CORPORTAL_ROWID (corportalPayment m)) `
             set (partialMatches (res (exactPhase c p dt (initialState c p now))))"
    "distinct (map (\<lambda>m. CORPORTAL_ROWID (corportalPayment m))
                 (matches (res (exactPhase c p dt (initialState c p now)))) @
               map (\<lambda>m. CORPORTAL_ROWID (corportalPayment m))
                 (partialMatches (res (exactPhase c p dt (initialState c p now)))))" for dt
    using exactPhase_intake_ids [OF dc, of p dt now] by simp_all
  show ?thesis
    unfolding matchingState_def Let_def
    using e fuzzyPhase_intake_ids [OF dc e] by simp
qed

lemma intake_exception_rows:
  "filter isUnmatchedCorportal (finalExceptions c p now st) =
     map (\<lambda>q. UNMATCHED_CORPORTAL q (calculateDaysDifference (PAYMENT_DATE q) now)
                 (requiresActionCheck q now))
       (filter (\<lambda>q. CORPORTAL_ROWID q \<notin> matchedCorportalIds st) c)"
  by (simp add: finalExceptions_def filter_map comp_def isUnmatchedCorportal_def)

lemma length_filter_ids:
  assumes "distinct (map f xs)" and "A \<subseteq> f ` set xs"
  shows "length (filter (\<lambda>x. f x \<in> A) xs) = card A"
proof -
  have "map f (filter (\<lambda>x. f x \<in> A) xs) = filter (\<lambda>i. i \<in> A) (map f xs)"
    by (simp add: filter_map comp_def)
  moreover have "distinct (filter (\<lambda>i. i \<in> A) (map f xs))"
    using assms(1) by simp
  moreover have "set (filter (\<lambda>i. i \<in> A) (map f xs)) = A"
    using assms(2) by auto
  ultimately have "card A = length (map f (filter (\<lambda>x. f x \<in> A) xs))"
    by (metis distinct_card)
  then show ?thesis by simp
qed

subsection \<open>Ranking and acceptance\<close>

lemma foldl_scoreCandidate_pairs:
  "map (\<lambda>m. (payment m, score m)) (foldl (scoreCandidate c tol dt) acc pool) =
     map (\<lambda>m. (payment m, score m)) acc @
     concat (map (\<lambda>r. case calculateMatchScore c r (AMOUNT c) (AMOUNT r) (PAYMENT_DATE c)
                             (POSTING_DATE r) tol dt of
                         None \<Rightarrow> [] | Some s \<Rightarrow> if 0 < s then [(r, s)] else []) pool)"
proof (induction pool arbitrary: acc)
  case Nil
  show ?case by simp
next
  case (Cons r pool)
  have "map (\<lambda>m. (payment m, score m)) (scoreCandidate c tol dt acc r) =
          map (\<lambda>m. (payment m, score m)) acc @
          (case calculateMatchScore c r (AMOUNT c) (AMOUNT r) (PAYMENT_DATE c)
                  (POSTING_DATE r) tol dt of
             None \<Rightarrow> [] | Some s \<Rightarrow> if 0 < s then [(r, s)] else [])"
    by (simp add: scoreCandidate_def split: option.split)
  then show ?case by (simp add: Cons.IH)
qed

lemma findFuzzyMatches_pairs:
  "mset (map (\<lambda>m. (payment m, score m)) (findFuzzyMatches c pool tol dt)) =
     mset (concat (map (\<lambda>r. case calculateMatchScore c r (AMOUNT c) (AMOUNT r) (PAYMENT_DATE c)
                             (POSTING_DATE r) tol dt of
                         None \<Rightarrow> [] | Some s \<Rightarrow> if 0 < s then [(r, s)] else []) pool))"
proof -
  have "mset (map (\<lambda>m. (payment m, score m)) (findFuzzyMatches c pool tol dt)) =
          image_mset (\<lambda>m. (payment m, score m)) (mset (foldl (scoreCandidate c tol dt) [] pool))"
    by (simp add: findFuzzyMatches_def)
  also have "\<dots> = mset (map (\<lambda>m. (payment m, score m)) (foldl (scoreCandidate c tol dt) [] pool))"
    by simp
  finally show ?thesis by (simp only: foldl_scoreCandidate_pairs list.map append_Nil)
qed

lemma findFuzzyMatches_covers:
  assumes "r \<in> set pool"
    and "calculateMatchScore c r (AMOUNT c) (AMOUNT r) (PAYMENT_DATE c) (POSTING_DATE r) tol dt = Some s"
    and "0 < s"
  shows "\<exists>m \<in> set (findFuzzyMatches c pool tol dt). payment m = r \<and> score m = s"
proof -
  let ?f = "\<lambda>r. case calculateMatchScore c r (AMOUNT c) (AMOUNT r) (PAYMENT_DATE c)
                             (POSTING_DATE r) tol dt of
                         None \<Rightarrow> [] | Some s \<Rightarrow> if 0 < s then [(r, s)] else []"
  have "(r, s) \<in> set (?f r)" using assms(2,3) by simp
  with assms(1) have "(r, s) \<in> set (concat (map ?f pool))" by auto
  then have "(r, s) \<in># mset (concat (map ?f pool))" by simp
  then have "(r, s) \<in># mset (map (\<lambda>m. (payment m, score m)) (findFuzzyMatches c pool tol dt))"
    by (simp only: findFuzzyMatches_pairs)
  then have "(r, s) \<in> (\<lambda>m. (payment m, score m)) ` set (findFuzzyMatches c pool tol dt)"
    by simp
  then show ?thesis by auto
qed

lemma findFuzzyMatches_top:
  assumes "r \<in> set pool"
    and "calculateMatchScore c r (AMOUNT c) (AMOUNT r) (PAYMENT_DATE c) (POSTING_DATE r) tol dt = Some s"
    and "0 < s"
  shows "findFuzzyMatches c pool tol dt \<noteq> [] \<and> s \<le> score (hd (findFuzzyMatches c pool tol dt))"
proof -
  from findFuzzyMatches_covers [OF assms]
  obtain m where m: "m \<in> set (findFuzzyMatches c pool tol dt)" "score m = s" by auto
  from m(1) have "findFuzzyMatches c pool tol dt \<noteq> []" by auto
  moreover from findFuzzyMatches_hd_max [OF m(1)] m(2)
  have "s \<le> score (hd (findFuzzyMatches c pool tol dt))" by simp
  ultimately show ?thesis by simp
qed

lemma threshold_pos: "0 < double (8 / 10)"
  by (simp add: double_values)

lemma accepted_iff_pool:
  "(findFuzzyMatches c pool tol dt \<noteq> [] \<and>
      double (8 / 10) \<le> score (hd (findFuzzyMatches c pool tol dt))) =
   (\<exists>r \<in> set pool. \<exists>s.
      calculateMatchScore c r (AMOUNT c) (AMOUNT r) (PAYMENT_DATE c) (POSTING_DATE r) tol dt = Some s
      \<and> double (8 / 10) \<le> s)"
proof
  let ?fm = "findFuzzyMatches c pool tol dt"
  assume a: "?fm \<noteq> [] \<and> double (8 / 10) \<le> score (hd ?fm)"
  then have mem: "hd ?fm \<in> set ?fm" by simp
  from findFuzzyMatches_subset [OF mem] have "payment (hd ?fm) \<in> set pool" .
  moreover from findFuzzyMatches_scores [of c pool tol dt] mem
  have "calculateMatchScore c (payment (hd ?fm)) (AMOUNT c) (AMOUNT (payment (hd ?fm)))
          (PAYMENT_DATE c) (POSTING_DATE (payment (hd ?fm))) tol dt = Some (score (hd ?fm))"
    by blast
  ultimately show "\<exists>r \<in> set pool. \<exists>s.
      calculateMatchScore c r (AMOUNT c) (AMOUNT r) (PAYMENT_DATE c) (POSTING_DATE r) tol dt = Some s
      \<and> double (8 / 10) \<le> s"
    using a by blast
next
  let ?fm = "findFuzzyMatches c pool tol dt"
  assume "\<exists>r \<in> set pool. \<exists>s.
      calculateMatchScore c r (AMOUNT c) (AMOUNT r) (PAYMENT_DATE c) (POSTING_DATE r) tol dt = Some s
      \<and> double (8 / 10) \<le> s"
  then obtain r s where r: "r \<in> set pool"
      "calculateMatchScore c r (AMOUNT c) (AMOUNT r) (PAYMENT_DATE c) (POSTING_DATE r) tol dt = Some s"
      "double (8 / 10) \<le> s"
    by blast
  from threshold_pos r(3) have "0 < s" by simp
  from findFuzzyMatches_top [OF r(1,2) this] r(3)
  show "?fm \<noteq> [] \<and> double (8 / 10) \<le> score (hd ?fm)" by simp
qed

lemma fuzzyStep_if:
  "fuzzyStep pool tol dt st q =
       (if findFuzzyMatches q pool tol dt \<noteq> [] \<and>
           double (8 / 10) \<le> score (hd (findFuzzyMatches q pool tol dt))
        then \<lparr> res = (res st)
                 \<lparr> summary := (summary (res st))
                      \<lparr> partialMatchCount := partialMatchCount (summary (res st)) + 1 \<rparr>,
                   partialMatches := partialMatches (res st) @
                      [\<lparr> mtype = FUZZY_MATCH, corportalPayment = q,
                         ccbPayment = payment (hd (findFuzzyMatches q pool tol dt)),
                         matchScore = score (hd (findFuzzyMatches q pool tol dt)),
                         matchReasons = reasons (hd (findFuzzyMatches q pool tol dt)),
                         amountDifference =
                           \<bar>fsub (AMOUNT q) (AMOUNT (payment (hd (findFuzzyMatches q pool tol dt))))\<bar> \<rparr>] \<rparr>,
               matchedCorportalIds = insert (CORPORTAL_ROWID q) (matchedCorportalIds st),
               matchedCCBIds =
                 insert (CCB_ROWID (payment (hd (findFuzzyMatches q pool tol dt)))) (matchedCCBIds st) \<rparr>
        else st)"
  unfolding fuzzyStep_def
  by (rule fuzzyAccept_cases [where fuzzyMatches = "findFuzzyMatches q pool tol dt" and st = st and c = q])
    auto

lemma foldl_fuzzyStep_partialMatches:
  "map (\<lambda>m. (corportalPayment m, ccbPayment m, matchScore m))
     (partialMatches (res (foldl (fuzzyStep pool tol dt) st todo))) =
   map (\<lambda>m. (corportalPayment m, ccbPayment m, matchScore m)) (partialMatches (res st)) @
   concat (map (\<lambda>q. if findFuzzyMatches q pool tol dt \<noteq> [] \<and>
                        double (8 / 10) \<le> score (hd (findFuzzyMatches q pool tol dt))
                     then [(q, payment (hd (findFuzzyMatches q pool tol dt)),
                            score (hd (findFuzzyMatches q pool tol dt)))]
                     else []) todo)"
proof (induction todo arbitrary: st)
  case Nil
  show ?case by simp
next
  case (Cons q todo)
  have "map (\<lambda>m. (corportalPayment m, ccbPayment m, matchScore m))
          (partialMatches (res (fuzzyStep pool tol dt st q))) =
        map (\<lambda>m. (corportalPayment m, ccbPayment m, matchScore m)) (partialMatches (res st)) @
        (if findFuzzyMatches q pool tol dt \<noteq> [] \<and>
            double (8 / 10) \<le> score (hd (findFuzzyMatches q pool tol dt))
         then [(q, payment (hd (findFuzzyMatches q pool tol dt)),
                score (hd (findFuzzyMatches q pool tol dt)))]
         else [])"
    by (simp add: fuzzyStep_if)
  then show ?case by (simp add: Cons.IH)
qed

lemma fuzzyPhase_partialMatches:
  "map (\<lambda>m. (corportalPayment m, ccbPayment m, matchScore m))
     (partialMatches (res (fuzzyPhase c p tol dt st))) =
   map (\<lambda>m. (corportalPayment m, ccbPayment m, matchScore m)) (partialMatches (res st)) @
   concat (map (\<lambda>q. if findFuzzyMatches q (filter (\<lambda>r. CCB_ROWID r \<notin> matchedCCBIds st) p) tol dt \<noteq> [] \<and>
                        double (8 / 10) \<le> score (hd (findFuzzyMatches q
                               (filter (\<lambda>r. CCB_ROWID r \<notin> matchedCCBIds st) p) tol dt))
                     then [(q, payment (hd (findFuzzyMatches q
                               (filter (\<lambda>r. CCB_ROWID r \<notin> matchedCCBIds st) p) tol dt)),
                            score (hd (findFuzzyMatches q
                               (filter (\<lambda>r. CCB_ROWID r \<notin> matchedCCBIds st) p) tol dt)))]
                     else [])
             (filter (\<lambda>q. CORPORTAL_ROWID q \<notin> matchedCorportalIds st) c))"
  by (simp only: fuzzyPhase_def Let_def foldl_fuzzyStep_partialMatches)

subsection \<open>A pool of three posting rows\<close>

lemma score_W:
  "calculateMatchScore intakeS postingSeventy 1000 (double (707 / 10)) 1641600000000 1641600000000
     (double (1 / 100)) 2 = Some (double (35 / 100))"
  "calculateMatchScore intakeSeventy postingQ 70 1005 1641600000000 1641600000000
     (double (1 / 100)) 2 = Some (double (35 / 100))"
  "calculateMatchScore intakeSeventy postingS 70 (double (100001 / 100)) 1641600000000 1641686400000
     (double (1 / 100)) 2 = Some (double (325 / 1000))"
  by (simp_all add: calculateMatchScore_def momentDiffDays_def example_fields binary64)

lemma reasons_W:
  "getMatchReasons intakeS postingSeventy (double (35 / 100)) =
     [Same_payment_mode, Potential_match_requires_review]"
  "getMatchReasons intakeSeventy postingQ (double (35 / 100)) =
     [Same_payment_mode, Potential_match_requires_review]"
  "getMatchReasons intakeSeventy postingS (double (325 / 1000)) =
     [Same_payment_mode, Potential_match_requires_review]"
  by (simp_all add: getMatchReasons_def example_fields binary64)

lemma fuzzy_W_S:
  "findFuzzyMatches intakeS [postingQ, postingS, postingSeventy] (double (1 / 100)) 2 =
     [\<lparr> payment = postingS, score = double (975 / 1000),
        reasons = [Same_consumer_ID, Same_payment_mode, Exact_amount_match,
                   High_confidence_match] \<rparr>,
      \<lparr> payment = postingQ, score = double (9 / 10),
        reasons = [Same_consumer_ID, Same_payment_mode, Good_match] \<rparr>,
      \<lparr> payment = postingSeventy, score = double (35 / 100),
        reasons = [Same_payment_mode, Potential_match_requires_review] \<rparr>]"
  using score_S score_Q score_W reasons_S reasons_Q reasons_W
  by (simp add: findFuzzyMatches_def scoreCandidate_def example_fields double_values)

lemma fuzzy_W_Seventy:
  "findFuzzyMatches intakeSeventy [postingQ, postingS, postingSeventy] (double (1 / 100)) 2 =
     [\<lparr> payment = postingSeventy, score = 3 / 4,
        reasons = [Same_consumer_ID, Same_payment_mode,
                   Amount_difference (49258120924365 / 70368744177664), Good_match] \<rparr>,
      \<lparr> payment = postingQ, score = double (35 / 100),
        reasons = [Same_payment_mode, Potential_match_requires_review] \<rparr>,
      \<lparr> payment = postingS, score = double (325 / 1000),
        reasons = [Same_payment_mode, Potential_match_requires_review] \<rparr>]"
  using score_Seventy score_W reasons_Seventy reasons_W
  by (simp add: findFuzzyMatches_def scoreCandidate_def example_fields double_values)

lemma exact_W:
  "exactPhase [intakeS, intakeSeventy] [postingQ, postingS, postingSeventy] 2 st = st"
  by (simp add: exactPhase_def exactStep_filter exactKey_def example_fields findBestDateMatch_Nil
      double_values)

lemma run_W:
  "map (\<lambda>m. (corportalPayment m, ccbPayment m, matchScore m))
     (partialMatches (performDetailedReconciliation [intakeS, intakeSeventy]
        [postingQ, postingS, postingSeventy] noOptions now)) =
   [(intakeS, postingS, double (975 / 1000))]"
proof -
  have "double (8 / 10) \<le> double (975 / 1000)" "\<not> double (8 / 10) \<le> 3 / 4"
    by (simp_all add: double_values)
  then show ?thesis
    by (simp add: perform_fields defaults exact_W fuzzyPhase_partialMatches initialState_def
        fuzzy_W_S fuzzy_W_Seventy example_fields)
qed

subsection \<open>Three exact matches\<close>

lemma keys_AUV:
  "exactKey intakeA = (''C7'', 500, ''BBPS'')" "exactKey postingP = (''C7'', 500, ''BBPS'')"
  "exactKey intakeU = (''C8'', 600, ''BBPS'')" "exactKey postingU = (''C8'', 600, ''BBPS'')"
  "exactKey intakeV = (''C9'', 700, ''BBPS'')" "exactKey postingV = (''C9'', 700, ''BBPS'')"
  by (simp_all add: exactKey_def example_fields)

lemma best_AUV:
  "findBestDateMatch intakeU [postingU] 2 = Some postingU"
  "findBestDateMatch intakeV [postingV] 2 = Some postingV"
  by (simp_all add: findBestDateMatch_def bestDateStep_def momentDiffDays_def example_fields)

lemma exact_AUV:
  "exactPhase [intakeA, intakeU, intakeV] [postingP, postingU, postingV] 2
     (initialState [intakeA, intakeU, intakeV] [postingP, postingU, postingV] now) =
     \<lparr> res =
         \<lparr> summary =
             \<lparr> totalCorportalPayments = 3, totalCCBPayments = 3,
               totalCorportalAmount = 1800, totalCCBAmount = 1800,
               matchedPayments = 3, matchedAmount = 1800,
               unmatchedCorportal = 0, unmatchedCCB = 0,
               partialMatchCount = 0, processingDate = now \<rparr>,
           matches =
             [\<lparr> mtype = EXACT_MATCH, corportalPayment = intakeA, ccbPayment = postingP,
                matchScore = 1, dateDifference = 0 \<rparr>,
              \<lparr> mtype = EXACT_MATCH, corportalPayment = intakeU, ccbPayment = postingU,
                matchScore = 1, dateDifference = 1 \<rparr>,
              \<lparr> mtype = EXACT_MATCH, corportalPayment = intakeV, ccbPayment = postingV,
                matchScore = 1, dateDifference = 0 \<rparr>],
           exceptions = [],
           partialMatches = [] \<rparr>,
       matchedCorportalIds = {''AAA0'', ''AAA9'', ''AAA3''},
       matchedCCBIds = {''BBB8'', ''BBB7'', ''BBB2''} \<rparr>"
  by (simp add: exactPhase_def exactStep_filter keys_AUV best_AB best_AUV initialState_def
      example_fields calculateDateDifference_def momentDiffDays_def)

lemma run_AUV:
  "performDetailedReconciliation [intakeA, intakeU, intakeV] [postingP, postingU, postingV]
     noOptions now =
     \<lparr> summary =
         \<lparr> totalCorportalPayments = 3, totalCCBPayments = 3,
           totalCorportalAmount = 1800, totalCCBAmount = 1800,
           matchedPayments = 3, matchedAmount = 1800,
           unmatchedCorportal = 0, unmatchedCCB = 0,
           partialMatchCount = 0, processingDate = now \<rparr>,
       matches =
         [\<lparr> mtype = EXACT_MATCH, corportalPayment = intakeA, ccbPayment = postingP,
            matchScore = 1, dateDifference = 0 \<rparr>,
          \<lparr> mtype = EXACT_MATCH, corportalPayment = intakeU, ccbPayment = postingU,
            matchScore = 1, dateDifference = 1 \<rparr>,
          \<lparr> mtype = EXACT_MATCH, corportalPayment = intakeV, ccbPayment = postingV,
            matchScore = 1, dateDifference = 0 \<rparr>],
       exceptions = [],
       partialMatches = [] \<rparr>"
  by (simp add: performDetailedReconciliation_def defaults exact_AUV fuzzyPhase_def
      finalExceptions_def example_fields)

subsection \<open>Rounding of the average\<close>

lemma toFixed1_third: "toFixed1 (fdiv 1 3) = 3 / 10"
proof -
  have "\<lfloor>(10 * (6004799503160661 / 18014398509481984) + 1 / 2 :: rat)\<rfloor> = 3" by linarith
  then show ?thesis by (simp add: toFixed1_def binary64)
qed

lemma toFixed1_three_twentieths:
  "toFixed1 (fdiv 3 20) = 1 / 10" "toFixed1 (3 / 20) = 2 / 10"
proof -
  have "\<lfloor>(10 * (5404319552844595 / 36028797018963968) + 1 / 2 :: rat)\<rfloor> = 1" by linarith
  then show "toFixed1 (fdiv 3 20) = 1 / 10" by (simp add: toFixed1_def binary64)
  have "\<lfloor>(10 * (3 / 20) + 1 / 2 :: rat)\<rfloor> = 2" by linarith
  then show "toFixed1 (3 / 20) = 2 / 10" by (simp add: toFixed1_def)
qed

lemma average_three_of_twenty:
  "calculateAverageSettlementDays (replicate 3 matchOneDay @ replicate 17 matchSameDay) = 1 / 10"
proof -
  have "foldl (\<lambda>sum m. sum + \<bar>dateDifference m\<bar>) 0 (replicate 3 matchOneDay @ replicate 17 matchSameDay)
      = (\<Sum>m\<leftarrow>replicate 3 matchOneDay @ replicate 17 matchSameDay. \<bar>dateDifference m\<bar>)"
    by (simp only: foldl_plus_sum_list)
  also have "\<dots> = 3"
    by (simp add: sum_list_replicate matchOneDay_def matchSameDay_def)
  finally show ?thesis
    using toFixed1_three_twentieths(1)
    by (simp add: calculateAverageSettlementDays_def)
qed

lemma average_near_mean:
  assumes "ms \<noteq> []"
  shows "\<bar>calculateAverageSettlementDays ms
          - of_int (\<Sum>m\<leftarrow>ms. \<bar>dateDifference m\<bar>) / of_nat (length ms)\<bar>
         \<le> 1 / 20 + (of_int (\<Sum>m\<leftarrow>ms. \<bar>dateDifference m\<bar>) / of_nat (length ms)) / 2 ^ 53
             + 2 powi (- 1075)"
proof -
  define mu :: rat where "mu = of_int (\<Sum>m\<leftarrow>ms. \<bar>dateDifference m\<bar>) / of_nat (length ms)"
  have "0 \<le> (\<Sum>m\<leftarrow>ms. \<bar>dateDifference m\<bar>)" by (rule sum_list_nonneg) auto
  then have mu0: "0 \<le> mu" by (simp add: mu_def)
  have avg: "calculateAverageSettlementDays ms = toFixed1 (double mu)"
    using assms by (simp add: calculateAverageSettlementDays_def foldl_plus_sum_list fdiv_def mu_def)
  have "\<bar>toFixed1 (double mu) - mu\<bar> \<le> \<bar>toFixed1 (double mu) - double mu\<bar> + \<bar>double mu - mu\<bar>"
    by simp
  also have "\<dots> \<le> 1 / 20 + (\<bar>mu\<bar> / 2 ^ 53 + 2 powi (- 1075))"
    by (intro add_mono toFixed1_near double_error)
  finally show ?thesis using mu0 by (simp add: avg mu_def [symmetric])
qed

section \<open>Claims\<close>

text \<open>
  C1 (no double claim). The claim says that no posting row is claimed by more than one
  match. The code does not keep this: the exact loop never consults \<open>matchedCCBIds\<close>,
  and the fuzzy loop scores every intake row against the pool computed before the loop.
  Two intake rows with the key of one posting row are both paired with that row as exact
  matches, and two intake rows near one posting row are both paired with it as fuzzy
  matches.
\<close>

theorem C1_posting_row_claimed_twice:
  "map (\<lambda>m. CCB_ROWID (ccbPayment m))
     (matches (performDetailedReconciliation [intakeA, intakeB] [postingP] noOptions now))
     = [''BBB2'', ''BBB2'']
   \<and> map (\<lambda>m. CCB_ROWID (ccbPayment m))
     (partialMatches (performDetailedReconciliation [intakeS, intakeT] [postingS] noOptions now))
     = [''BBB1'', ''BBB1'']"
  by (simp add: run_AB run_ST example_fields)

text \<open>
  C2 (conservation of counts). The claim says that exact matches, fuzzy matches and
  posting-side exceptions add up to the number of posting rows. For two intake rows with
  the key of one posting row the code reports two exact matches and no posting-side
  exception for a single posting row.
\<close>

theorem C2_posting_counts_not_conserved:
  "matchedPayments (summary (performDetailedReconciliation [intakeA, intakeB] [postingP] noOptions now))
   + partialMatchCount (summary (performDetailedReconciliation [intakeA, intakeB] [postingP] noOptions now))
   + unmatchedCCB (summary (performDetailedReconciliation [intakeA, intakeB] [postingP] noOptions now)) = 2
   \<and> totalCCBPayments (summary (performDetailedReconciliation [intakeA, intakeB] [postingP] noOptions now)) = 1"
  by (simp add: run_AB)

text \<open>
  C3 (score formula). The claim says that the score of every pair is the sum of the four
  factor contributions, with 0.25 for an amount difference within the tolerance and
  otherwise 0.15 for one within 1% of the intake amount. The code subtracts and compares
  in binary64, and its score is not that sum. For the amounts 1000.07 and 1000.06, one
  paisa apart under the default tolerance of one paisa, the computed difference exceeds
  the tolerance: the pair scores 0.875 where the sum is 0.975. For the amounts 70 and
  70.70, which differ by 1% of the intake amount, the pair gets no amount contribution:
  it scores 0.75 where the sum is 0.9, and the run does not accept it. With a days
  tolerance of 0 the score of a pair dated on the same day is \<open>NaN\<close>, and the pair is
  dropped.
\<close>

theorem C3_score_differs_from_sum_of_factors:
  "AMOUNT intakePaisa = double (100007 / 100) \<and> AMOUNT postingPaisa = double (100006 / 100)
   \<and> claimedScore intakePaisa postingPaisa (100007 / 100) (100006 / 100) 1 (1 / 100) 2 = 975 / 1000
   \<and> calculateMatchScore intakePaisa postingPaisa (AMOUNT intakePaisa) (AMOUNT postingPaisa)
        (PAYMENT_DATE intakePaisa) (POSTING_DATE postingPaisa) (double (1 / 100)) 2 = Some (875 / 1000)
   \<and> double (1 / 100) < \<bar>fsub (AMOUNT intakePaisa) (AMOUNT postingPaisa)\<bar>
   \<and> AMOUNT intakeSeventy = 70 \<and> AMOUNT postingSeventy = double (707 / 10)
   \<and> claimedScore intakeSeventy postingSeventy 70 (707 / 10) 0 (1 / 100) 2 = 9 / 10
   \<and> calculateMatchScore intakeSeventy postingSeventy (AMOUNT intakeSeventy) (AMOUNT postingSeventy)
        (PAYMENT_DATE intakeSeventy) (POSTING_DATE postingSeventy) (double (1 / 100)) 2 = Some (75 / 100)
   \<and> fmul (AMOUNT intakeSeventy) (double (1 / 100)) < \<bar>fsub (AMOUNT intakeSeventy) (AMOUNT postingSeventy)\<bar>
   \<and> partialMatches (performDetailedReconciliation [intakeSeventy] [postingSeventy] noOptions now) = []
   \<and> calculateMatchScore intakeS postingQ (AMOUNT intakeS) (AMOUNT postingQ)
        (PAYMENT_DATE intakeS) (POSTING_DATE postingQ) (double (1 / 100)) 0 = None
   \<and> partialMatches (performDetailedReconciliation [intakeS] [postingQ] zeroDays now) = []"
proof -
  have a: "calculateMatchScore intakePaisa postingPaisa (AMOUNT intakePaisa) (AMOUNT postingPaisa)
        (PAYMENT_DATE intakePaisa) (POSTING_DATE postingPaisa) (double (1 / 100)) 2 = Some (875 / 1000)"
    using score_Paisa by (simp add: example_fields)
  have b: "double (1 / 100) < \<bar>fsub (AMOUNT intakePaisa) (AMOUNT postingPaisa)\<bar>"
    by (simp add: example_fields binary64)
  have c: "calculateMatchScore intakeSeventy postingSeventy (AMOUNT intakeSeventy) (AMOUNT postingSeventy)
        (PAYMENT_DATE intakeSeventy) (POSTING_DATE postingSeventy) (double (1 / 100)) 2 = Some (75 / 100)"
    using score_Seventy by (simp add: example_fields)
  have d: "fmul (AMOUNT intakeSeventy) (double (1 / 100)) < \<bar>fsub (AMOUNT intakeSeventy) (AMOUNT postingSeventy)\<bar>"
    by (simp add: example_fields binary64)
  have e: "calculateMatchScore intakeS postingQ (AMOUNT intakeS) (AMOUNT postingQ)
        (PAYMENT_DATE intakeS) (POSTING_DATE postingQ) (double (1 / 100)) 0 = None"
    by (simp add: example_fields score_zeroDays)
  show ?thesis
    using a b c d e claimed_Paisa claimed_Seventy run_Seventy(1) [of now] run_zeroDays(1) [of now]
    by (simp add: example_fields)
qed

text \<open>
  C4 (acceptance threshold). For an intake row of the fuzzy loop and the pool of posting
  rows handed to \<open>findFuzzyMatches\<close>, the candidates are the rows of the pool with a
  positive score, each with the score that \<open>calculateMatchScore\<close> gives it, in
  descending order of score, so the first candidate has the highest score of the pool.
  The step pairs the intake row with the first candidate exactly when its score is at
  least 0.8, that is exactly when some row of the pool scores at least 0.8, and otherwise
  leaves the state unchanged, so the intake row remains unmatched when no row of the pool
  reaches 0.8. The fuzzy matches that the fuzzy phase adds are these pairs, in the order
  of the intake rows. A first candidate of score 0.8 is accepted, one of score 0.7999 is
  not.
\<close>

theorem C4_threshold:
  "sorted_wrt (\<lambda>a b. score b \<le> score a) (findFuzzyMatches q pool tol dt)
   \<and> mset (map (\<lambda>m. (payment m, score m)) (findFuzzyMatches q pool tol dt)) =
       mset (concat (map (\<lambda>r. case calculateMatchScore q r (AMOUNT q) (AMOUNT r) (PAYMENT_DATE q)
                                      (POSTING_DATE r) tol dt of
                                 None \<Rightarrow> [] | Some s \<Rightarrow> if 0 < s then [(r, s)] else []) pool))
   \<and> (\<forall>m \<in> set (findFuzzyMatches q pool tol dt).
         score m \<le> score (hd (findFuzzyMatches q pool tol dt)))
   \<and> (\<forall>r \<in> set pool. \<forall>s.
         calculateMatchScore q r (AMOUNT q) (AMOUNT r) (PAYMENT_DATE q) (POSTING_DATE r) tol dt = Some s
         \<and> 0 < s \<longrightarrow>
         findFuzzyMatches q pool tol dt \<noteq> [] \<and> s \<le> score (hd (findFuzzyMatches q pool tol dt)))
   \<and> fuzzyStep pool tol dt st q =
       (if findFuzzyMatches q pool tol dt \<noteq> [] \<and>
           double (8 / 10) \<le> score (hd (findFuzzyMatches q pool tol dt))
        then \<lparr> res = (res st)
                 \<lparr> summary := (summary (res st))
                      \<lparr> partialMatchCount := partialMatchCount (summary (res st)) + 1 \<rparr>,
                   partialMatches := partialMatches (res st) @
                      [\<lparr> mtype = FUZZY_MATCH, corportalPayment = q,
                         ccbPayment = payment (hd (findFuzzyMatches q pool tol dt)),
                         matchScore = score (hd (findFuzzyMatches q pool tol dt)),
                         matchReasons = reasons (hd (findFuzzyMatches q pool tol dt)),
                         amountDifference =
                           \<bar>fsub (AMOUNT q) (AMOUNT (payment (hd (findFuzzyMatches q pool tol dt))))\<bar> \<rparr>] \<rparr>,
               matchedCorportalIds = insert (CORPORTAL_ROWID q) (matchedCorportalIds st),
               matchedCCBIds =
                 insert (CCB_ROWID (payment (hd (findFuzzyMatches q pool tol dt)))) (matchedCCBIds st) \<rparr>
        else st)
   \<and> ((findFuzzyMatches q pool tol dt \<noteq> [] \<and>
         double (8 / 10) \<le> score (hd (findFuzzyMatches q pool tol dt))) =
       (\<exists>r \<in> set pool. \<exists>s.
          calculateMatchScore q r (AMOUNT q) (AMOUNT r) (PAYMENT_DATE q) (POSTING_DATE r) tol dt = Some s
          \<and> double (8 / 10) \<le> s))
   \<and> ((\<forall>r \<in> set pool. \<forall>s.
          calculateMatchScore q r (AMOUNT q) (AMOUNT r) (PAYMENT_DATE q) (POSTING_DATE r) tol dt = Some s
          \<longrightarrow> s < double (8 / 10)) \<longrightarrow>
        fuzzyStep pool tol dt st q = st)
   \<and> map (\<lambda>m. (corportalPayment m, ccbPayment m, matchScore m))
        (partialMatches (res (fuzzyPhase c p tol dt st))) =
      map (\<lambda>m. (corportalPayment m, ccbPayment m, matchScore m)) (partialMatches (res st)) @
      concat (map (\<lambda>q. if findFuzzyMatches q (filter (\<lambda>r. CCB_ROWID r \<notin> matchedCCBIds st) p) tol dt \<noteq> [] \<and>
                           double (8 / 10) \<le> score (hd (findFuzzyMatches q
                                  (filter (\<lambda>r. CCB_ROWID r \<notin> matchedCCBIds st) p) tol dt))
                        then [(q, payment (hd (findFuzzyMatches q
                                  (filter (\<lambda>r. CCB_ROWID r \<notin> matchedCCBIds st) p) tol dt)),
                               score (hd (findFuzzyMatches q
                                  (filter (\<lambda>r. CCB_ROWID r \<notin> matchedCCBIds st) p) tol dt)))]
                        else [])
                (filter (\<lambda>q. CORPORTAL_ROWID q \<notin> matchedCorportalIds st) c))
   \<and> (score b = double (8 / 10) \<longrightarrow>
        map corportalPayment (partialMatches (res (fuzzyAccept st q (b # rest)))) =
          map corportalPayment (partialMatches (res st)) @ [q])
   \<and> (score b = double (7999 / 10000) \<longrightarrow> fuzzyAccept st q (b # rest) = st)"
proof -
  let ?fm = "findFuzzyMatches q pool tol dt"
  have top: "\<forall>r \<in> set pool. \<forall>s.
         calculateMatchScore q r (AMOUNT q) (AMOUNT r) (PAYMENT_DATE q) (POSTING_DATE r) tol dt = Some s
         \<and> 0 < s \<longrightarrow> ?fm \<noteq> [] \<and> s \<le> score (hd ?fm)"
    using findFuzzyMatches_top [of _ pool q tol dt] by blast
  have hdmax: "\<forall>m \<in> set ?fm. score m \<le> score (hd ?fm)"
    using findFuzzyMatches_hd_max [of _ q pool tol dt] by blast
  have low: "(\<forall>r \<in> set pool. \<forall>s.
          calculateMatchScore q r (AMOUNT q) (AMOUNT r) (PAYMENT_DATE q) (POSTING_DATE r) tol dt = Some s
          \<longrightarrow> s < double (8 / 10)) \<longrightarrow>
        fuzzyStep pool tol dt st q = st"
  proof
    assume "\<forall>r \<in> set pool. \<forall>s.
          calculateMatchScore q r (AMOUNT q) (AMOUNT r) (PAYMENT_DATE q) (POSTING_DATE r) tol dt = Some s
          \<longrightarrow> s < double (8 / 10)"
    then have "\<not> (\<exists>r \<in> set pool. \<exists>s.
          calculateMatchScore q r (AMOUNT q) (AMOUNT r) (PAYMENT_DATE q) (POSTING_DATE r) tol dt = Some s
          \<and> double (8 / 10) \<le> s)"
      by (auto simp: not_le)
    then have "\<not> (?fm \<noteq> [] \<and> double (8 / 10) \<le> score (hd ?fm))"
      using accepted_iff_pool [of q pool tol dt] by blast
    then show "fuzzyStep pool tol dt st q = st" by (simp only: fuzzyStep_if if_False)
  qed
  have b1: "score b = double (8 / 10) \<longrightarrow>
        map corportalPayment (partialMatches (res (fuzzyAccept st q (b # rest)))) =
          map corportalPayment (partialMatches (res st)) @ [q]"
    by (simp add: fuzzyAccept_def)
  have b2: "score b = double (7999 / 10000) \<longrightarrow> fuzzyAccept st q (b # rest) = st"
    using threshold_values(2) by (simp add: fuzzyAccept_def)
  show ?thesis
    by (intro conjI)
      (fact findFuzzyMatches_sorted findFuzzyMatches_pairs hdmax top fuzzyStep_if
        accepted_iff_pool low fuzzyPhase_partialMatches b1 b2)+
qed

theorem C4_witness:
  "map (\<lambda>m. (payment m, score m))
     (findFuzzyMatches intakeS [postingQ, postingS, postingSeventy] (double (1 / 100)) 2) =
     [(postingS, double (975 / 1000)), (postingQ, double (9 / 10)), (postingSeventy, double (35 / 100))]
   \<and> map (\<lambda>m. (corportalPayment m, ccbPayment m, matchScore m))
       (partialMatches (res (fuzzyStep [postingQ, postingS, postingSeventy] (double (1 / 100)) 2
          (initialState [intakeS, intakeSeventy] [postingQ, postingS, postingSeventy] 0) intakeS))) =
     [(intakeS, postingS, double (975 / 1000))]
   \<and> map (\<lambda>m. (payment m, score m))
     (findFuzzyMatches intakeSeventy [postingQ, postingS, postingSeventy] (double (1 / 100)) 2) =
     [(postingSeventy, 75 / 100), (postingQ, double (35 / 100)), (postingS, double (325 / 1000))]
   \<and> fuzzyStep [postingQ, postingS, postingSeventy] (double (1 / 100)) 2
        (initialState [intakeS, intakeSeventy] [postingQ, postingS, postingSeventy] 0) intakeSeventy =
      initialState [intakeS, intakeSeventy] [postingQ, postingS, postingSeventy] 0
   \<and> map (\<lambda>m. (corportalPayment m, ccbPayment m, matchScore m))
       (partialMatches (res (fuzzyPhase [intakeS, intakeSeventy] [postingQ, postingS, postingSeventy]
          (double (1 / 100)) 2
          (initialState [intakeS, intakeSeventy] [postingQ, postingS, postingSeventy] 0)))) =
     [(intakeS, postingS, double (975 / 1000))]
   \<and> map corportalPayment (partialMatches (res
        (fuzzyAccept (initialState [intakeS] [postingS] 0) intakeS
           [\<lparr> payment = postingS, score = double (8 / 10), reasons = [] \<rparr>])))
     = [intakeS]
   \<and> fuzzyAccept (initialState [intakeS] [postingS] 0) intakeS
        [\<lparr> payment = postingS, score = double (7999 / 10000), reasons = [] \<rparr>]
     = initialState [intakeS] [postingS] 0"
proof -
  let ?pool = "[postingQ, postingS, postingSeventy]"
  let ?st = "initialState [intakeS, intakeSeventy] ?pool 0"
  note S = C4_threshold [where q = intakeS and pool = ?pool and tol = "double (1 / 100)"
      and dt = 2 and st = ?st and c = "[intakeS, intakeSeventy]" and p = ?pool
      and b = "\<lparr> payment = postingS, score = double (8 / 10), reasons = [] \<rparr>" and rest = "[]"]
  note L = C4_threshold [where q = intakeSeventy and pool = ?pool and tol = "double (1 / 100)"
      and dt = 2 and st = ?st and c = "[intakeS, intakeSeventy]" and p = ?pool
      and b = "\<lparr> payment = postingS, score = double (7999 / 10000), reasons = [] \<rparr>" and rest = "[]"]
  note B1 = C4_threshold [where q = intakeS and pool = "[postingS]" and tol = "double (1 / 100)"
      and dt = 2 and st = "initialState [intakeS] [postingS] 0" and c = "[intakeS]" and p = "[postingS]"
      and b = "\<lparr> payment = postingS, score = double (8 / 10), reasons = [] \<rparr>" and rest = "[]"]
  note B2 = C4_threshold [where q = intakeS and pool = "[postingS]" and tol = "double (1 / 100)"
      and dt = 2 and st = "initialState [intakeS] [postingS] 0" and c = "[intakeS]" and p = "[postingS]"
      and b = "\<lparr> payment = postingS, score = double (7999 / 10000), reasons = [] \<rparr>" and rest = "[]"]
  have thr: "double (8 / 10) \<le> double (975 / 1000)" "\<not> double (8 / 10) \<le> 3 / 4"
    by (simp_all add: double_values)
  have step_S: "map (\<lambda>m. (corportalPayment m, ccbPayment m, matchScore m))
       (partialMatches (res (fuzzyStep ?pool (double (1 / 100)) 2 ?st intakeS))) =
     [(intakeS, postingS, double (975 / 1000))]"
    using thr
    by (subst S [THEN conjunct2, THEN conjunct2, THEN conjunct2, THEN conjunct2, THEN conjunct1])
      (simp add: fuzzy_W_S initialState_def)
  have all_low: "\<forall>r \<in> set ?pool. \<forall>s.
      calculateMatchScore intakeSeventy r (AMOUNT intakeSeventy) (AMOUNT r)
        (PAYMENT_DATE intakeSeventy) (POSTING_DATE r) (double (1 / 100)) 2 = Some s
      \<longrightarrow> s < double (8 / 10)"
    using score_Seventy score_W by (simp add: example_fields double_values)
  have step_L: "fuzzyStep ?pool (double (1 / 100)) 2 ?st intakeSeventy = ?st"
    using L [THEN conjunct2, THEN conjunct2, THEN conjunct2, THEN conjunct2, THEN conjunct2,
        THEN conjunct2, THEN conjunct1] all_low
    by blast
  have phase: "map (\<lambda>m. (corportalPayment m, ccbPayment m, matchScore m))
       (partialMatches (res (fuzzyPhase [intakeS, intakeSeventy] ?pool (double (1 / 100)) 2 ?st))) =
     [(intakeS, postingS, double (975 / 1000))]"
    using thr
    by (subst S [THEN conjunct2, THEN conjunct2, THEN conjunct2, THEN conjunct2, THEN conjunct2,
          THEN conjunct2, THEN conjunct2, THEN conjunct1])
      (simp add: fuzzy_W_S fuzzy_W_Seventy initialState_def example_fields)
  have acc: "map corportalPayment (partialMatches (res
        (fuzzyAccept (initialState [intakeS] [postingS] 0) intakeS
           [\<lparr> payment = postingS, score = double (8 / 10), reasons = [] \<rparr>]))) = [intakeS]"
    using B1 [THEN conjunct2, THEN conjunct2, THEN conjunct2, THEN conjunct2, THEN conjunct2,
        THEN conjunct2, THEN conjunct2, THEN conjunct2, THEN conjunct1]
    by (simp add: initialState_def)
  have rej: "fuzzyAccept (initialState [intakeS] [postingS] 0) intakeS
        [\<lparr> payment = postingS, score = double (7999 / 10000), reasons = [] \<rparr>]
     = initialState [intakeS] [postingS] 0"
    using B2 [THEN conjunct2, THEN conjunct2, THEN conjunct2, THEN conjunct2, THEN conjunct2,
        THEN conjunct2, THEN conjunct2, THEN conjunct2, THEN conjunct2]
    by simp
  show ?thesis
    using step_S step_L phase acc rej by (simp add: fuzzy_W_S fuzzy_W_Seventy)
qed




text \<open>
  C6 (efficiency rates). The claim says that the rates are 0 when the divisor is 0. With
  no intake rows both rates are \<open>0 / 0 * 100\<close>, which is \<open>NaN\<close> and not 0:
  \<open>getReconciliationStats\<close> divides without the guard that the report and dashboard
  code apply to the same quotients.
\<close>

theorem C6_rates_NaN_without_intake:
  "reconciliationEfficiency (getReconciliationStats [] [] now) = NaN
   \<and> amountReconciliationRate (getReconciliationStats [] [] now) = NaN"
  by (simp add: getReconciliationStats_def run_empty jsDiv_def jsTimes_def stats.defs summary.defs)




text \<open>
  C8 (average settlement days), as stated: the average is taken over the exact and the
  fuzzy matches. This fails: \<open>getReconciliationStats\<close> passes only
  \<open>results.matches\<close>, the exact matches, to \<open>calculateAverageSettlementDays\<close>. In
  the scenario run the only match is a fuzzy one whose dates lie one day apart, and the
  reported average is 0 where the mean rounded to one decimal is 1.
\<close>

theorem C8_counterexample:
  "avgSettlementDays (getReconciliationStats [intakeS] [postingS] 1642032000000) = 0
   \<and> matches (performDetailedReconciliation [intakeS] [postingS] noOptions 1642032000000) = []
   \<and> map (\<lambda>m. \<bar>calculateDateDifference (PAYMENT_DATE (corportalPayment m))
                  (POSTING_DATE (ccbPayment m))\<bar>)
        (partialMatches (performDetailedReconciliation [intakeS] [postingS] noOptions 1642032000000))
      = [1]
   \<and> toFixed1 (of_int 1 / of_nat 1) = 1"
  by (simp add: getReconciliationStats_def run_S calculateAverageSettlementDays_def
      stats.defs summary.defs calculateDateDifference_def momentDiffDays_def example_fields
      toFixed1_1)

text \<open>
  C8, amended. \<open>avgSettlementDays\<close> is 0 when a run has no exact match, and otherwise
  the mean of the absolute date difference in days over its exact matches, rounded to one
  decimal place: the sum of the differences is divided by their number in binary64, and
  \<open>toFixed(1)\<close> gives the multiple of one tenth nearest to that quotient. The reported
  value is at most one twentieth, and the rounding error of the quotient, away from the
  mean.
\<close>

theorem C8_average_over_exact_matches:
  "avgSettlementDays (getReconciliationStats c p now) =
     (if matches (performDetailedReconciliation c p noOptions now) = [] then 0
      else toFixed1
        (fdiv (of_int (\<Sum>m\<leftarrow>matches (performDetailedReconciliation c p noOptions now).
                   \<bar>momentDiffDays (POSTING_DATE (ccbPayment m)) (PAYMENT_DATE (corportalPayment m))\<bar>))
              (of_nat (length (matches (performDetailedReconciliation c p noOptions now))))))
   \<and> (\<forall>m \<in> set (matches (performDetailedReconciliation c p noOptions now)). mtype m = EXACT_MATCH)
   \<and> (\<forall>x. \<bar>toFixed1 x - x\<bar> \<le> 1 / 20 \<and> (\<exists>n::int. toFixed1 x = of_int n / 10))
   \<and> (matches (performDetailedReconciliation c p noOptions now) \<noteq> [] \<longrightarrow>
        \<bar>avgSettlementDays (getReconciliationStats c p now)
          - of_int (\<Sum>m\<leftarrow>matches (performDetailedReconciliation c p noOptions now).
                   \<bar>momentDiffDays (POSTING_DATE (ccbPayment m)) (PAYMENT_DATE (corportalPayment m))\<bar>)
            / of_nat (length (matches (performDetailedReconciliation c p noOptions now)))\<bar>
        \<le> 1 / 20
          + (of_int (\<Sum>m\<leftarrow>matches (performDetailedReconciliation c p noOptions now).
                   \<bar>momentDiffDays (POSTING_DATE (ccbPayment m)) (PAYMENT_DATE (corportalPayment m))\<bar>)
             / of_nat (length (matches (performDetailedReconciliation c p noOptions now)))) / 2 ^ 53
          + 2 powi (- 1075))"
proof -
  let ?ms = "matches (performDetailedReconciliation c p noOptions now)"
  have ex: "\<forall>m \<in> set ?ms. mtype m = EXACT_MATCH \<and>
      dateDifference m = momentDiffDays (POSTING_DATE (ccbPayment m)) (PAYMENT_DATE (corportalPayment m))"
    using matches_are_exact [of c p noOptions now] by (simp add: perform_fields)
  then have meq: "map (\<lambda>m. \<bar>dateDifference m\<bar>) ?ms =
      map (\<lambda>m. \<bar>momentDiffDays (POSTING_DATE (ccbPayment m)) (PAYMENT_DATE (corportalPayment m))\<bar>) ?ms"
    by simp
  have sum: "foldl (\<lambda>sum m. sum + \<bar>dateDifference m\<bar>) 0 ?ms =
      (\<Sum>m\<leftarrow>?ms. \<bar>momentDiffDays (POSTING_DATE (ccbPayment m)) (PAYMENT_DATE (corportalPayment m))\<bar>)"
    unfolding foldl_plus_sum_list meq by simp
  have avg: "avgSettlementDays (getReconciliationStats c p now) = calculateAverageSettlementDays ?ms"
    by (simp add: getReconciliationStats_def Let_def stats.defs summary.defs)
  have eq: "calculateAverageSettlementDays ?ms = (if ?ms = [] then 0
      else toFixed1
        (fdiv (of_int (\<Sum>m\<leftarrow>?ms.
                   \<bar>momentDiffDays (POSTING_DATE (ccbPayment m)) (PAYMENT_DATE (corportalPayment m))\<bar>))
              (of_nat (length ?ms))))"
    unfolding calculateAverageSettlementDays_def sum by simp
  have near: "?ms \<noteq> [] \<longrightarrow>
        \<bar>avgSettlementDays (getReconciliationStats c p now)
          - of_int (\<Sum>m\<leftarrow>?ms.
                   \<bar>momentDiffDays (POSTING_DATE (ccbPayment m)) (PAYMENT_DATE (corportalPayment m))\<bar>)
            / of_nat (length ?ms)\<bar>
        \<le> 1 / 20
          + (of_int (\<Sum>m\<leftarrow>?ms.
                   \<bar>momentDiffDays (POSTING_DATE (ccbPayment m)) (PAYMENT_DATE (corportalPayment m))\<bar>)
             / of_nat (length ?ms)) / 2 ^ 53
          + 2 powi (- 1075)"
  proof
    assume "?ms \<noteq> []"
    from average_near_mean [OF this] show "\<bar>avgSettlementDays (getReconciliationStats c p now)
          - of_int (\<Sum>m\<leftarrow>?ms.
                   \<bar>momentDiffDays (POSTING_DATE (ccbPayment m)) (PAYMENT_DATE (corportalPayment m))\<bar>)
            / of_nat (length ?ms)\<bar>
        \<le> 1 / 20
          + (of_int (\<Sum>m\<leftarrow>?ms.
                   \<bar>momentDiffDays (POSTING_DATE (ccbPayment m)) (PAYMENT_DATE (corportalPayment m))\<bar>)
             / of_nat (length ?ms)) / 2 ^ 53
          + 2 powi (- 1075)"
      unfolding avg meq .
  qed
  have exact: "\<forall>m \<in> set ?ms. mtype m = EXACT_MATCH" using ex by simp
  have tenth: "\<forall>x. \<bar>toFixed1 x - x\<bar> \<le> 1 / 20 \<and> (\<exists>n::int. toFixed1 x = of_int n / 10)"
    using toFixed1_near toFixed1_tenths by simp
  show ?thesis
    by (intro conjI) (fact avg [unfolded eq] exact tenth near)+
qed

theorem C8_witness:
  "avgSettlementDays (getReconciliationStats [intakeA, intakeU, intakeV]
      [postingP, postingU, postingV] 1642032000000) = 3 / 10
   \<and> map (\<lambda>m. (mtype m, dateDifference m))
       (matches (performDetailedReconciliation [intakeA, intakeU, intakeV]
          [postingP, postingU, postingV] noOptions 1642032000000))
     = [(EXACT_MATCH, 0), (EXACT_MATCH, 1), (EXACT_MATCH, 0)]
   \<and> fdiv 1 3 = 6004799503160661 / 18014398509481984
   \<and> \<bar>avgSettlementDays (getReconciliationStats [intakeA, intakeU, intakeV]
          [postingP, postingU, postingV] 1642032000000) - 1 / 3\<bar>
       \<le> 1 / 20 + (1 / 3) / 2 ^ 53 + 2 powi (- 1075)"
proof -
  note t = C8_average_over_exact_matches [of "[intakeA, intakeU, intakeV]"
      "[postingP, postingU, postingV]" 1642032000000]
  have a: "avgSettlementDays (getReconciliationStats [intakeA, intakeU, intakeV]
      [postingP, postingU, postingV] 1642032000000) = 3 / 10"
    using toFixed1_third
    by (simp add: t [THEN conjunct1] run_AUV example_fields momentDiffDays_def)
  have b: "\<bar>avgSettlementDays (getReconciliationStats [intakeA, intakeU, intakeV]
          [postingP, postingU, postingV] 1642032000000) - 1 / 3\<bar>
       \<le> 1 / 20 + (1 / 3) / 2 ^ 53 + 2 powi (- 1075)"
    using t [THEN conjunct2, THEN conjunct2, THEN conjunct2]
    by (simp add: run_AUV example_fields momentDiffDays_def)
  have c: "fdiv 1 3 = 6004799503160661 / 18014398509481984" by (simp add: binary64)
  have d: "map (\<lambda>m. (mtype m, dateDifference m))
       (matches (performDetailedReconciliation [intakeA, intakeU, intakeV]
          [postingP, postingU, postingV] noOptions 1642032000000))
     = [(EXACT_MATCH, 0), (EXACT_MATCH, 1), (EXACT_MATCH, 0)]"
    by (simp add: run_AUV)
  show ?thesis by (intro conjI) (fact a b c d)+
qed

text \<open>
  C9 (action flag of an exception). Every intake-side exception of a run carries the age
  of its row at the evaluation instant, and requires action exactly when that age exceeds
  1 (mode \<open>BANK_COUNTER\<close>) or 2 (any other mode); every posting-side exception requires
  action. At age 2 a \<open>BANK_COUNTER\<close> row requires action and a \<open>BBPS\<close> row does
  not; at age 3 the \<open>BBPS\<close> row does.
\<close>

theorem C9_requiresAction:
  "(\<forall>e \<in> set (exceptions (performDetailedReconciliation c p opts now)).
      case e of
        UNMATCHED_CORPORTAL q age action \<Rightarrow>
          age = calculateDaysDifference (PAYMENT_DATE q) now \<and>
          action = ((if PAYMENT_MODE q = ''BANK_COUNTER'' then 1 else 2) < age)
      | UNMATCHED_CCB q age action \<Rightarrow> action)
   \<and> (PAYMENT_MODE (r :: corportal_payment) = ''BANK_COUNTER'' \<and> calculateDaysDifference (PAYMENT_DATE r) now = 2
        \<longrightarrow> requiresActionCheck r now)
   \<and> (PAYMENT_MODE r = ''BBPS'' \<and> calculateDaysDifference (PAYMENT_DATE r) now = 2
        \<longrightarrow> \<not> requiresActionCheck r now)
   \<and> (PAYMENT_MODE r = ''BBPS'' \<and> calculateDaysDifference (PAYMENT_DATE r) now = 3
        \<longrightarrow> requiresActionCheck r now)"
  by (auto simp: perform_fields finalExceptions_def requiresActionCheck_def)

theorem C9_witness:
  "exceptions (performDetailedReconciliation [intakeCounter, intakeBBPS] [postingLone] noOptions
      1641772800000) =
     [UNMATCHED_CORPORTAL intakeCounter 2 True,
      UNMATCHED_CORPORTAL intakeBBPS 2 False,
      UNMATCHED_CCB postingLone 2 True]
   \<and> requiresActionCheck intakeCounter 1641772800000
   \<and> \<not> requiresActionCheck intakeBBPS 1641772800000
   \<and> requiresActionCheck intakeBBPS 1641859200000"
  using C9_requiresAction [of "[intakeCounter, intakeBBPS]" "[postingLone]" noOptions 1641772800000 intakeCounter]
    C9_requiresAction [of "[intakeCounter, intakeBBPS]" "[postingLone]" noOptions 1641772800000 intakeBBPS]
    C9_requiresAction [of "[intakeCounter, intakeBBPS]" "[postingLone]" noOptions 1641859200000 intakeBBPS]
  by (simp add: perform_fields state_low exceptions_low calculateDaysDifference_def
      momentDiffDays_def example_fields)

text \<open>
  C10 (fuzzy phase switched off). With \<open>includePartialMatches = false\<close> and row ids
  that identify the rows of each source, the run reports no fuzzy match, every intake row
  without an exact match is an intake-side exception and every posting row not paired by
  an exact match is a posting-side exception.
\<close>

theorem C10_exact_only_run:
  assumes off: "includePartialMatches opts = Some False"
    and dc: "distinct (map CORPORTAL_ROWID c)"
    and dp: "distinct (map CCB_ROWID p)"
  shows "partialMatches (performDetailedReconciliation c p opts now) = []
    \<and> partialMatchCount (summary (performDetailedReconciliation c p opts now)) = 0
    \<and> (\<forall>m \<in> set (matches (performDetailedReconciliation c p opts now)). mtype m = EXACT_MATCH)
    \<and> (\<forall>q \<in> set c.
          q \<notin> corportalPayment ` set (matches (performDetailedReconciliation c p opts now)) \<longrightarrow>
          UNMATCHED_CORPORTAL q (calculateDaysDifference (PAYMENT_DATE q) now)
            (requiresActionCheck q now)
          \<in> set (exceptions (performDetailedReconciliation c p opts now)))
    \<and> (\<forall>q \<in> set p.
          q \<notin> ccbPayment ` set (matches (performDetailedReconciliation c p opts now)) \<longrightarrow>
          UNMATCHED_CCB q (calculateDaysDifference (POSTING_DATE q) now) True
          \<in> set (exceptions (performDetailedReconciliation c p opts now)))"
proof -
  let ?st = "matchingState c p opts now"
  let ?ms = "matches (res ?st)"
  note np = exactOnly_no_partial [OF off, of c p now]
  note ex = matches_are_exact [of c p opts now]
  have idc: "matchedCorportalIds ?st = (\<lambda>m. CORPORTAL_ROWID (corportalPayment m)) ` set ?ms"
    and idp: "matchedCCBIds ?st = (\<lambda>m. CCB_ROWID (ccbPayment m)) ` set ?ms"
    using claimed_ids [of c p opts now] np by simp_all
  have injc: "inj_on CORPORTAL_ROWID (set c)" and injp: "inj_on CCB_ROWID (set p)"
    using dc dp by (simp_all add: distinct_map)
  have c_side: "CORPORTAL_ROWID q \<notin> matchedCorportalIds ?st"
    if "q \<in> set c" "q \<notin> corportalPayment ` set ?ms" for q
  proof
    assume "CORPORTAL_ROWID q \<in> matchedCorportalIds ?st"
    then obtain m where m: "m \<in> set ?ms" "CORPORTAL_ROWID q = CORPORTAL_ROWID (corportalPayment m)"
      unfolding idc by auto
    with ex have "corportalPayment m \<in> set c" by simp
    with injc that(1) m(2) have "q = corportalPayment m" by (simp add: inj_on_def)
    with m(1) that(2) show False by simp
  qed
  have p_side: "CCB_ROWID q \<notin> matchedCCBIds ?st"
    if "q \<in> set p" "q \<notin> ccbPayment ` set ?ms" for q
  proof
    assume "CCB_ROWID q \<in> matchedCCBIds ?st"
    then obtain m where m: "m \<in> set ?ms" "CCB_ROWID q = CCB_ROWID (ccbPayment m)"
      unfolding idp by auto
    with ex have "ccbPayment m \<in> set p" by simp
    with injp that(1) m(2) have "q = ccbPayment m" by (simp add: inj_on_def)
    with m(1) that(2) show False by simp
  qed
  have e1: "UNMATCHED_CORPORTAL q (calculateDaysDifference (PAYMENT_DATE q) now)
            (requiresActionCheck q now) \<in> set (finalExceptions c p now ?st)"
    if "q \<in> set c" "q \<notin> corportalPayment ` set ?ms" for q
    using that c_side [OF that] by (simp add: finalExceptions_def)
  have e2: "UNMATCHED_CCB q (calculateDaysDifference (POSTING_DATE q) now) True
            \<in> set (finalExceptions c p now ?st)"
    if "q \<in> set p" "q \<notin> ccbPayment ` set ?ms" for q
    using that p_side [OF that] by (simp add: finalExceptions_def)
  show ?thesis
    using np ex e1 e2 by (simp add: perform_fields)
qed

theorem C10_witness:
  "partialMatches (performDetailedReconciliation [intakeCounter, intakeBBPS] [postingLone] exactOnly
      1641772800000) = []
   \<and> UNMATCHED_CORPORTAL intakeBBPS 2 False
      \<in> set (exceptions (performDetailedReconciliation [intakeCounter, intakeBBPS] [postingLone]
                 exactOnly 1641772800000))
   \<and> UNMATCHED_CCB postingLone 2 True
      \<in> set (exceptions (performDetailedReconciliation [intakeCounter, intakeBBPS] [postingLone]
                 exactOnly 1641772800000))"
proof -
  have off: "includePartialMatches exactOnly = Some False" by (simp add: exactOnly_def)
  have dc: "distinct (map CORPORTAL_ROWID [intakeCounter, intakeBBPS])"
    by (simp add: example_fields)
  have dp: "distinct (map CCB_ROWID [postingLone])" by simp
  have none: "matches (performDetailedReconciliation [intakeCounter, intakeBBPS] [postingLone]
      exactOnly 1641772800000) = []"
    by (simp add: perform_fields state_low_exactOnly initialState_def)
  from C10_exact_only_run [OF off dc dp, of 1641772800000] show ?thesis
    by (simp add: none requiresActionCheck_def calculateDaysDifference_def momentDiffDays_def
        example_fields)
qed

section \<open>Further properties\<close>

text \<open>
  Intake side of the conservation equation. When the intake rows have distinct row ids,
  the number of exact matches plus the number of fuzzy matches plus the number of
  intake-side exceptions equals the number of intake rows.
\<close>

theorem intake_counts_conserved:
  assumes dc: "distinct (map CORPORTAL_ROWID c)"
  shows "matchedPayments (summary (performDetailedReconciliation c p opts now))
       + partialMatchCount (summary (performDetailedReconciliation c p opts now))
       + unmatchedCorportal (summary (performDetailedReconciliation c p opts now))
       = totalCorportalPayments (summary (performDetailedReconciliation c p opts now))"
proof -
  let ?st = "matchingState c p opts now"
  let ?ids = "matchedCorportalIds ?st"
  let ?L = "map (\<lambda>m. CORPORTAL_ROWID (corportalPayment m)) (matches (res ?st)) @
            map (\<lambda>m. CORPORTAL_ROWID (corportalPayment m)) (partialMatches (res ?st))"
  from matchingState_intake_ids [OF dc, of p opts now]
  have ids: "?ids = set ?L" and dL: "distinct ?L" by auto
  have sub: "?ids \<subseteq> CORPORTAL_ROWID ` set c"
    unfolding ids
    using matches_are_exact [of c p opts now] partialMatches_are_fuzzy [of c p opts now]
    by auto
  have "length (matches (res ?st)) + length (partialMatches (res ?st)) = length ?L" by simp
  also have "\<dots> = card ?ids" unfolding ids using dL by (simp only: distinct_card)
  also have "\<dots> = length (filter (\<lambda>q. CORPORTAL_ROWID q \<in> ?ids) c)"
    using length_filter_ids [OF dc sub] by simp
  finally have matched: "length (matches (res ?st)) + length (partialMatches (res ?st)) =
      length (filter (\<lambda>q. CORPORTAL_ROWID q \<in> ?ids) c)" .
  have "length (filter (\<lambda>q. CORPORTAL_ROWID q \<in> ?ids) c) +
        length (filter (\<lambda>q. CORPORTAL_ROWID q \<notin> ?ids) c) = length c"
    by (rule sum_length_filter_compl)
  with matched show ?thesis
    using counters_are_lengths [of c p opts now]
    by (simp add: perform_fields intake_exception_rows)
qed

theorem intake_counts_conserved_witness:
  "matchedPayments (summary (performDetailedReconciliation [intakeS, intakeT] [postingS] noOptions 0)) = 0
   \<and> partialMatchCount (summary (performDetailedReconciliation [intakeS, intakeT] [postingS] noOptions 0)) = 2
   \<and> unmatchedCorportal (summary (performDetailedReconciliation [intakeS, intakeT] [postingS] noOptions 0)) = 0
   \<and> totalCorportalPayments (summary (performDetailedReconciliation [intakeS, intakeT] [postingS] noOptions 0)) = 2"
proof -
  have "distinct (map CORPORTAL_ROWID [intakeS, intakeT])" by (simp add: example_fields)
  from intake_counts_conserved [OF this, of "[postingS]" noOptions 0] show ?thesis
    by (simp add: run_ST)
qed

text \<open>
  Intake side of the one-claim property. When the intake rows have distinct row ids, no
  intake row id occurs twice among the exact matches, the fuzzy matches and the
  intake-side exceptions of a run.
\<close>

theorem intake_rows_claimed_once:
  assumes dc: "distinct (map CORPORTAL_ROWID c)"
  shows "distinct
     (map (\<lambda>m. CORPORTAL_ROWID (corportalPayment m))
        (matches (performDetailedReconciliation c p opts now)) @
      map (\<lambda>m. CORPORTAL_ROWID (corportalPayment m))
        (partialMatches (performDetailedReconciliation c p opts now)) @
      concat (map (\<lambda>e. case e of UNMATCHED_CORPORTAL q age action \<Rightarrow> [CORPORTAL_ROWID q]
                               | UNMATCHED_CCB q age action \<Rightarrow> [])
        (exceptions (performDetailedReconciliation c p opts now))))"
proof -
  let ?st = "matchingState c p opts now"
  let ?ids = "matchedCorportalIds ?st"
  let ?L = "map (\<lambda>m. CORPORTAL_ROWID (corportalPayment m)) (matches (res ?st)) @
            map (\<lambda>m. CORPORTAL_ROWID (corportalPayment m)) (partialMatches (res ?st))"
  from matchingState_intake_ids [OF dc, of p opts now]
  have ids: "?ids = set ?L" and dL: "distinct ?L" by auto
  have exc: "concat (map (\<lambda>e. case e of UNMATCHED_CORPORTAL q age action \<Rightarrow> [CORPORTAL_ROWID q]
                               | UNMATCHED_CCB q age action \<Rightarrow> [])
        (finalExceptions c p now ?st)) =
      map CORPORTAL_ROWID (filter (\<lambda>q. CORPORTAL_ROWID q \<notin> ?ids) c)"
    by (simp add: finalExceptions_def comp_def concat_map_singleton)
  have dE: "distinct (map CORPORTAL_ROWID (filter (\<lambda>q. CORPORTAL_ROWID q \<notin> ?ids) c))"
    using dc by (rule distinct_map_filter)
  have disj: "set ?L \<inter> set (map CORPORTAL_ROWID (filter (\<lambda>q. CORPORTAL_ROWID q \<notin> ?ids) c)) = {}"
    unfolding ids [symmetric] by auto
  have "distinct (?L @ map CORPORTAL_ROWID (filter (\<lambda>q. CORPORTAL_ROWID q \<notin> ?ids) c))"
    using dL dE disj by (simp only: distinct_append)
  then show ?thesis
    by (simp only: perform_fields exc append_assoc)
qed

theorem intake_rows_claimed_once_witness:
  "map (\<lambda>m. CORPORTAL_ROWID (corportalPayment m))
        (partialMatches (performDetailedReconciliation [intakeS, intakeT] [postingS] noOptions 0))
     = [''AAA1'', ''AAA2'']"
proof -
  have "distinct (map CORPORTAL_ROWID [intakeS, intakeT])" by (simp add: example_fields)
  from intake_rows_claimed_once [OF this, of "[postingS]" noOptions 0] show ?thesis
    by (simp add: run_ST example_fields)
qed

text \<open>
  The two rates when the divisor is not zero: the efficiency is the number of exact
  matches over the number of intake rows, the amount rate is the matched amount over the
  intake total, each times 100, the quotient and the product rounded to binary64.
\<close>

theorem rates_with_intake:
  "(totalCorportalPayments (summary (performDetailedReconciliation c p noOptions now)) \<noteq> 0 \<longrightarrow>
     reconciliationEfficiency (getReconciliationStats c p now) =
       Fin (fmul
             (fdiv (of_nat (matchedPayments (summary (performDetailedReconciliation c p noOptions now))))
                   (of_nat (totalCorportalPayments (summary (performDetailedReconciliation c p noOptions now)))))
             100))
   \<and> (totalCorportalAmount (summary (performDetailedReconciliation c p noOptions now)) \<noteq> 0 \<longrightarrow>
     amountReconciliationRate (getReconciliationStats c p now) =
       Fin (fmul
             (fdiv (matchedAmount (summary (performDetailedReconciliation c p noOptions now)))
                   (totalCorportalAmount (summary (performDetailedReconciliation c p noOptions now))))
             100))"
  by (simp add: getReconciliationStats_def Let_def jsDiv_def jsTimes_def stats.defs summary.defs)

theorem rates_with_intake_witness:
  "reconciliationEfficiency (getReconciliationStats [intakeA, intakeB] [postingP] 0) = Fin 100
   \<and> amountReconciliationRate (getReconciliationStats [intakeA, intakeB] [postingP] 0) = Fin 100"
  using rates_with_intake [of "[intakeA, intakeB]" "[postingP]" 0]
  by (simp add: run_AB binary64)

text \<open>
  The scenario of the specification. The intake row \<open>{C1, 1000.00, BBPS, D}\<close> and the
  posting row \<open>{C1, 1000.01, BBPS, D+1}\<close> under the default tolerances: the code
  scores the pair with the double nearest to 0.975, the value of the stated sum; the run
  has no exact match and one fuzzy match, which records the computed amount difference,
  just below 0.01, as an exact amount match.
\<close>

theorem scenario_fuzzy_match:
  "calculateMatchScore intakeS postingS (AMOUNT intakeS) (AMOUNT postingS)
     (PAYMENT_DATE intakeS) (POSTING_DATE postingS) (double (1 / 100)) 2 = Some (double (975 / 1000))
   \<and> claimedScore intakeS postingS 1000 (100001 / 100) 1 (1 / 100) 2 = 975 / 1000
   \<and> double (8 / 10) \<le> double (975 / 1000)
   \<and> matches (performDetailedReconciliation [intakeS] [postingS] noOptions now) = []
   \<and> partialMatches (performDetailedReconciliation [intakeS] [postingS] noOptions now) =
       [\<lparr> mtype = FUZZY_MATCH, corportalPayment = intakeS, ccbPayment = postingS,
          matchScore = double (975 / 1000),
          matchReasons = [Same_consumer_ID, Same_payment_mode, Exact_amount_match,
                          High_confidence_match],
          amountDifference = 43980465111 / 4398046511104 \<rparr>]
   \<and> (43980465111 / 4398046511104 :: rat) < double (1 / 100)"
proof -
  have a: "calculateMatchScore intakeS postingS (AMOUNT intakeS) (AMOUNT postingS)
     (PAYMENT_DATE intakeS) (POSTING_DATE postingS) (double (1 / 100)) 2 = Some (double (975 / 1000))"
    using score_S by (simp add: example_fields)
  have b: "claimedScore intakeS postingS 1000 (100001 / 100) 1 (1 / 100) 2 = 975 / 1000"
    by (simp add: claimedScore_def example_fields)
  have c: "(43980465111 / 4398046511104 :: rat) < double (1 / 100)"
    by (simp add: double_values)
  show ?thesis
    using a b c threshold_values(6) by (simp add: run_S)
qed

text \<open>
  Rounding of the average. Of twenty exact matches three have a date difference of one
  day: the mean is 0.15, the binary64 quotient \<open>3 / 20\<close> lies below it, and the
  reported average is 0.1, where the exact mean rounded half up is 0.2.
\<close>

theorem average_rounds_the_binary64_quotient:
  "calculateAverageSettlementDays (replicate 3 matchOneDay @ replicate 17 matchSameDay) = 1 / 10
   \<and> fdiv 3 20 < 3 / 20
   \<and> toFixed1 (3 / 20) = 2 / 10"
proof -
  have "fdiv 3 20 < 3 / 20" by (simp add: binary64)
  then show ?thesis
    using average_three_of_twenty toFixed1_three_twentieths(2) by simp
qed

end
